theory Spec2Isabelle
  imports Main "HOL-Library.Word"
begin

section \<open>Values of the JavaScript runtime\<close>

text \<open>
  A \<^verbatim>\<open>Uint8Array\<close> is a list of bytes, a JavaScript string is a list of UTF-16 code
  units. Every \<^verbatim>\<open>throw\<close> of the sources is a value of \<open>error\<close>; a function that
  can throw returns \<open>error + 'a\<close> with \<open>Inl\<close> for the exception.
\<close>

type_synonym bytes = "8 word list"
type_synonym js_string = "16 word list"

definition str :: "string \<Rightarrow> js_string" where
  "str s = map (\<lambda>c. of_nat (of_char c)) s"

datatype lib_error =
    BadKeySize | BadNonceSize | BadPublicKeySize | BadSecretKeySize
  | InvalidEncoding | URIMalformed

datatype error =
    DecryptionFailed
  | ProjectKeyFailed
  | Library lib_error
  | ApiError nat
  | FileError

text \<open>
  \<open>DecryptionFailed\<close> is \<^verbatim>\<open>Error("Decryption failed. Invalid key or corrupted data.")\<close>,
  \<open>ProjectKeyFailed\<close> is \<^verbatim>\<open>Error("Failed to decrypt project key.")\<close>; \<open>Library\<close> stands for
  the exceptions of tweetnacl and tweetnacl-util, \<open>ApiError\<close> for the one of
  \<^verbatim>\<open>apiClient\<close> with its status code, \<open>FileError\<close> for the one of \<^verbatim>\<open>fs.readFileSync\<close>.
\<close>

subsection \<open>The random source\<close>

text \<open>
  \<^verbatim>\<open>nacl.randomBytes(n)\<close> reads \<open>n\<close> bytes of the operating system's entropy. The
  entropy still to come is a sequence of bytes; a call takes its first \<open>n\<close> bytes
  and leaves the rest.
\<close>

type_synonym entropy = "nat \<Rightarrow> 8 word"

definition randomBytes :: "nat \<Rightarrow> entropy \<Rightarrow> bytes \<times> entropy" where
  "randomBytes n e = (map e [0..<n], \<lambda>i. e (i + n))"

subsection \<open>The interface of tweetnacl and tweetnacl-util\<close>

text \<open>
  The two libraries are dependencies of the repository, not part of it. Their
  primitives are taken as parameters: \<open>secretbox\<close> and \<open>secretbox_open\<close> are
  authenticated symmetric encryption (message, nonce, key), \<open>scalarMult_base\<close> gives
  the public key of a secret key, \<open>box_before\<close> the shared key of Diffie-Hellman
  key agreement (their public key, my secret key). \<open>decodeBase64\<close>, \<open>decodeUTF8\<close>
  and \<open>encodeUTF8\<close> throw on malformed input, which is \<open>None\<close> here.
\<close>

record crypto_lib =
  secretbox :: "bytes \<Rightarrow> bytes \<Rightarrow> bytes \<Rightarrow> bytes"
  secretbox_open :: "bytes \<Rightarrow> bytes \<Rightarrow> bytes \<Rightarrow> bytes option"
  scalarMult_base :: "bytes \<Rightarrow> bytes"
  box_before :: "bytes \<Rightarrow> bytes \<Rightarrow> bytes"
  encodeBase64 :: "bytes \<Rightarrow> js_string"
  decodeBase64 :: "js_string \<Rightarrow> bytes option"
  decodeUTF8 :: "js_string \<Rightarrow> bytes option"
  encodeUTF8 :: "bytes \<Rightarrow> js_string option"

text \<open>
  The entry points the sources call. tweetnacl checks the sizes of keys and nonces
  first and throws on a wrong one; \<^verbatim>\<open>nacl.box\<close> is \<^verbatim>\<open>nacl.secretbox\<close> under the key
  agreed by \<^verbatim>\<open>nacl.box.before\<close>, and \<^verbatim>\<open>nacl.box.open\<close> is \<^verbatim>\<open>nacl.secretbox.open\<close>
  under it.
\<close>

definition nacl_secretbox :: "crypto_lib \<Rightarrow> bytes \<Rightarrow> bytes \<Rightarrow> bytes \<Rightarrow> error + bytes" where
  "nacl_secretbox L msg nonce key =
     (if length key \<noteq> 32 then Inl (Library BadKeySize)
      else if length nonce \<noteq> 24 then Inl (Library BadNonceSize)
      else Inr (secretbox L msg nonce key))"

definition nacl_secretbox_open ::
  "crypto_lib \<Rightarrow> bytes \<Rightarrow> bytes \<Rightarrow> bytes \<Rightarrow> error + bytes option" where
  "nacl_secretbox_open L box nonce key =
     (if length key \<noteq> 32 then Inl (Library BadKeySize)
      else if length nonce \<noteq> 24 then Inl (Library BadNonceSize)
      else Inr (secretbox_open L box nonce key))"

definition nacl_box_before :: "crypto_lib \<Rightarrow> bytes \<Rightarrow> bytes \<Rightarrow> error + bytes" where
  "nacl_box_before L publicKey secretKey =
     (if length publicKey \<noteq> 32 then Inl (Library BadPublicKeySize)
      else if length secretKey \<noteq> 32 then Inl (Library BadSecretKeySize)
      else Inr (box_before L publicKey secretKey))"

definition nacl_box ::
  "crypto_lib \<Rightarrow> bytes \<Rightarrow> bytes \<Rightarrow> bytes \<Rightarrow> bytes \<Rightarrow> error + bytes" where
  "nacl_box L msg nonce publicKey secretKey =
     (case nacl_box_before L publicKey secretKey of
        Inl err \<Rightarrow> Inl err
      | Inr k \<Rightarrow> nacl_secretbox L msg nonce k)"

definition nacl_box_open ::
  "crypto_lib \<Rightarrow> bytes \<Rightarrow> bytes \<Rightarrow> bytes \<Rightarrow> bytes \<Rightarrow> error + bytes option" where
  "nacl_box_open L msg nonce publicKey secretKey =
     (case nacl_box_before L publicKey secretKey of
        Inl err \<Rightarrow> Inl err
      | Inr k \<Rightarrow> nacl_secretbox_open L msg nonce k)"

text \<open>
  What the proofs use of the libraries: opening a box under the key and nonce that
  made it gives the message back; both sides of a key agreement derive the same
  32-byte key; public keys have 32 bytes; decoding inverts encoding, for Base64 and
  for UTF-8 in both directions.
\<close>

definition lib_contract :: "crypto_lib \<Rightarrow> bool" where
  "lib_contract L \<longleftrightarrow>
     (\<forall>m n k. length k = 32 \<longrightarrow> length n = 24 \<longrightarrow>
        secretbox_open L (secretbox L m n k) n k = Some m) \<and>
     (\<forall>a b. length a = 32 \<longrightarrow> length b = 32 \<longrightarrow>
        box_before L (scalarMult_base L b) a = box_before L (scalarMult_base L a) b) \<and>
     (\<forall>a. length a = 32 \<longrightarrow> length (scalarMult_base L a) = 32) \<and>
     (\<forall>p s. length p = 32 \<longrightarrow> length s = 32 \<longrightarrow> length (box_before L p s) = 32) \<and>
     (\<forall>b. decodeBase64 L (encodeBase64 L b) = Some b) \<and>
     (\<forall>s b. decodeUTF8 L s = Some b \<longleftrightarrow> encodeUTF8 L b = Some s)"

text \<open>
  Sizes of tweetnacl: a box is 16 bytes longer than its message
  (\<^verbatim>\<open>nacl.secretbox.overheadLength\<close>), and the UTF-8 encoding of the empty string has no
  bytes.
\<close>

definition tweetnacl_sizes :: "crypto_lib \<Rightarrow> bool" where
  "tweetnacl_sizes L \<longleftrightarrow>
     (\<forall>m n k. length k = 32 \<longrightarrow> length n = 24 \<longrightarrow>
        length (secretbox L m n k) = length m + 16) \<and>
     decodeUTF8 L [] = Some []"

section \<open>lib/crypto.ts\<close>

record keypair =
  publicKey :: bytes
  secretKey :: bytes

text \<open>\<^verbatim>\<open>nacl.box.keyPair()\<close> draws a 32-byte secret key and derives its public key.\<close>

definition generateKeypair :: "crypto_lib \<Rightarrow> entropy \<Rightarrow> keypair \<times> entropy" where
  "generateKeypair L e =
     (let (sk, e') = randomBytes 32 e
      in (\<lparr>publicKey = scalarMult_base L sk, secretKey = sk\<rparr>, e'))"

definition generateProjectKey :: "entropy \<Rightarrow> bytes \<times> entropy" where
  "generateProjectKey e = randomBytes 32 e"

definition encryptEnv ::
  "crypto_lib \<Rightarrow> js_string \<Rightarrow> bytes \<Rightarrow> entropy \<Rightarrow> (error + js_string) \<times> entropy" where
  "encryptEnv L plaintext projectKey e =
     (let (nonce, e') = randomBytes 24 e
      in (case decodeUTF8 L plaintext of
            None \<Rightarrow> Inl (Library URIMalformed)
          | Some messageBytes \<Rightarrow>
              (case nacl_secretbox L messageBytes nonce projectKey of
                 Inl err \<Rightarrow> Inl err
               | Inr ciphertext \<Rightarrow> Inr (encodeBase64 L (nonce @ ciphertext))),
          e'))"

definition decryptEnv :: "crypto_lib \<Rightarrow> js_string \<Rightarrow> bytes \<Rightarrow> error + js_string" where
  "decryptEnv L encrypted projectKey =
     (case decodeBase64 L encrypted of
        None \<Rightarrow> Inl (Library InvalidEncoding)
      | Some combined \<Rightarrow>
          (let nonce = take 24 combined;
               ciphertext = drop 24 combined
           in case nacl_secretbox_open L ciphertext nonce projectKey of
                Inl err \<Rightarrow> Inl err
              | Inr None \<Rightarrow> Inl DecryptionFailed
              | Inr (Some plaintext) \<Rightarrow>
                  (case encodeUTF8 L plaintext of
                     None \<Rightarrow> Inl (Library URIMalformed)
                   | Some s \<Rightarrow> Inr s)))"

definition encryptProjectKey ::
  "crypto_lib \<Rightarrow> bytes \<Rightarrow> bytes \<Rightarrow> bytes \<Rightarrow> entropy \<Rightarrow> (error + js_string) \<times> entropy" where
  "encryptProjectKey L projectKey recipientPublicKey senderSecretKey e =
     (let (nonce, e') = randomBytes 24 e
      in (case nacl_box L projectKey nonce recipientPublicKey senderSecretKey of
            Inl err \<Rightarrow> Inl err
          | Inr ciphertext \<Rightarrow> Inr (encodeBase64 L (nonce @ ciphertext)),
          e'))"

definition decryptProjectKey ::
  "crypto_lib \<Rightarrow> js_string \<Rightarrow> bytes \<Rightarrow> bytes \<Rightarrow> error + bytes" where
  "decryptProjectKey L encrypted senderPublicKey recipientSecretKey =
     (case decodeBase64 L encrypted of
        None \<Rightarrow> Inl (Library InvalidEncoding)
      | Some combined \<Rightarrow>
          (let nonce = take 24 combined;
               ciphertext = drop 24 combined
           in case nacl_box_open L ciphertext nonce senderPublicKey recipientSecretKey of
                Inl err \<Rightarrow> Inl err
              | Inr None \<Rightarrow> Inl ProjectKeyFailed
              | Inr (Some plaintext) \<Rightarrow> Inr plaintext))"

text \<open>
  An identity keypair is what \<^verbatim>\<open>nacl.box.keyPair\<close> returns: a 32-byte secret key with
  the public key derived from it.
\<close>

definition identity :: "crypto_lib \<Rightarrow> keypair \<Rightarrow> bool" where
  "identity L kp \<longleftrightarrow>
     length (secretKey kp) = 32 \<and> publicKey kp = scalarMult_base L (secretKey kp)"

subsection \<open>A reference instance of the libraries\<close>

text \<open>
  A small instance of the library interface, in the style of symbolic cryptography:
  a box carries the key and nonce that sealed it and opens under no other; a public
  key is three times the secret key, bytewise, and the agreed key is the bytewise
  product; Base64 is a code unit per byte and UTF-8 is its ASCII part: \<open>decodeUTF8\<close>
  throws for every string with a code unit outside ASCII, as the one of
  tweetnacl-util does for a string with a lone surrogate. It satisfies
  \<open>lib_contract\<close>.
\<close>

definition toy_lib :: crypto_lib where
  "toy_lib = \<lparr>
     secretbox = (\<lambda>m n k. k @ n @ m),
     secretbox_open = (\<lambda>c n k.
        if take 32 c = k \<and> take 24 (drop 32 c) = n then Some (drop 56 c) else None),
     scalarMult_base = map (\<lambda>x. 3 * x),
     box_before = (\<lambda>p s. map2 (\<lambda>x y. x * y) p s),
     encodeBase64 = map ucast,
     decodeBase64 = (\<lambda>s. if list_all (\<lambda>c. c < 256) s then Some (map ucast s) else None),
     decodeUTF8 = (\<lambda>s. if list_all (\<lambda>c. c < 128) s then Some (map ucast s) else None),
     encodeUTF8 = (\<lambda>b. if list_all (\<lambda>x. x < 128) b then Some (map ucast b) else None)\<rparr>"

definition count_from :: "nat \<Rightarrow> entropy" where
  "count_from n i = of_nat (n + i)"

definition alice :: keypair where
  "alice = fst (generateKeypair toy_lib (count_from 1))"

definition bob :: keypair where
  "bob = fst (generateKeypair toy_lib (count_from 100))"

definition carol :: keypair where
  "carol = fst (generateKeypair toy_lib (count_from 200))"

definition pk0 :: bytes where
  "pk0 = replicate 32 7"

definition sealed_env :: js_string where
  "sealed_env = encodeBase64 toy_lib (fst (randomBytes 24 (count_from 1)) @
     secretbox toy_lib [65, 61, 49] (fst (randomBytes 24 (count_from 1))) pk0)"

definition sealed_key :: js_string where
  "sealed_key = encodeBase64 toy_lib (fst (randomBytes 24 (count_from 1)) @
     secretbox toy_lib pk0 (fst (randomBytes 24 (count_from 1)))
       (box_before toy_lib (publicKey bob) (secretKey alice)))"

text \<open>
  A second instance, with the sizes of tweetnacl: the authenticator of a box is the
  first 16 bytes of the key. It satisfies \<open>lib_contract\<close> and \<open>tweetnacl_sizes\<close>.
\<close>

definition short_tag_lib :: crypto_lib where
  "short_tag_lib = toy_lib\<lparr>
     secretbox := (\<lambda>m n k. take 16 k @ m),
     secretbox_open := (\<lambda>c n k.
        if 16 \<le> length c \<and> take 16 c = take 16 k then Some (drop 16 c) else None)\<rparr>"

text \<open>A random source that returns zero bytes only, and a string that is a lone surrogate.\<close>

definition stuck_entropy :: entropy where
  "stuck_entropy i = 0"

definition lone_surrogate :: js_string where
  "lone_surrogate = [0xD800]"

section \<open>commands/diff.ts\<close>

subsection \<open>String methods\<close>

text \<open>
  \<^verbatim>\<open>String.prototype.trim\<close> removes the white space and line terminators of
  ECMAScript from both ends; \<^verbatim>\<open>split\<close>, \<^verbatim>\<open>indexOf\<close> and \<^verbatim>\<open>startsWith\<close> are used with
  a separator of one code unit. \<open>indexOf\<close> is \<open>None\<close> where JavaScript returns -1.
\<close>

definition js_whitespace :: "16 word \<Rightarrow> bool" where
  "js_whitespace c \<longleftrightarrow>
     c = 0x09 \<or> c = 0x0A \<or> c = 0x0B \<or> c = 0x0C \<or> c = 0x0D \<or> c = 0x20 \<or> c = 0xA0 \<or>
     c = 0x1680 \<or> (0x2000 \<le> c \<and> c \<le> 0x200A) \<or> c = 0x2028 \<or> c = 0x2029 \<or>
     c = 0x202F \<or> c = 0x205F \<or> c = 0x3000 \<or> c = 0xFEFF"

definition trim :: "js_string \<Rightarrow> js_string" where
  "trim s = rev (dropWhile js_whitespace (rev (dropWhile js_whitespace s)))"

fun split :: "16 word \<Rightarrow> js_string \<Rightarrow> js_string list" where
  "split sep [] = [[]]"
| "split sep (c # cs) =
     (if c = sep then [] # split sep cs
      else (case split sep cs of [] \<Rightarrow> [[c]] | l # ls \<Rightarrow> (c # l) # ls))"

fun indexOf :: "js_string \<Rightarrow> 16 word \<Rightarrow> nat option" where
  "indexOf [] c = None"
| "indexOf (x # xs) c = (if x = c then Some 0 else map_option Suc (indexOf xs c))"

definition startsWith :: "js_string \<Rightarrow> 16 word \<Rightarrow> bool" where
  "startsWith s c = (case s of [] \<Rightarrow> False | x # _ \<Rightarrow> x = c)"

subsection \<open>The Map of JavaScript\<close>

text \<open>
  A \<^verbatim>\<open>Map\<close> keeps its entries in insertion order; \<^verbatim>\<open>set\<close> on a key that is present
  replaces the value in place, on a new key it appends the entry.
\<close>

type_synonym js_map = "(js_string \<times> js_string) list"

fun Map_set :: "js_map \<Rightarrow> js_string \<Rightarrow> js_string \<Rightarrow> js_map" where
  "Map_set [] k v = [(k, v)]"
| "Map_set ((k', v') # m) k v = (if k' = k then (k', v) # m else (k', v') # Map_set m k v)"

definition Map_get :: "js_map \<Rightarrow> js_string \<Rightarrow> js_string option" where
  "Map_get m k = map_of m k"

definition Map_has :: "js_map \<Rightarrow> js_string \<Rightarrow> bool" where
  "Map_has m k = (map_of m k \<noteq> None)"

subsection \<open>parseEnvContent\<close>

text \<open>The body of the loop of \<^verbatim>\<open>parseEnvContent\<close>, for one line; 0x23 is #, 0x3D is =.\<close>

definition parse_line :: "js_map \<Rightarrow> js_string \<Rightarrow> js_map" where
  "parse_line m line =
     (let trimmed = trim line
      in if trimmed = [] \<or> startsWith trimmed 0x23 then m
         else (case indexOf trimmed 0x3D of
                 None \<Rightarrow> m
               | Some eqIdx \<Rightarrow>
                   (let k = trim (take eqIdx trimmed);
                        v = trim (drop (eqIdx + 1) trimmed)
                    in Map_set m k v)))"

definition parseEnvContent :: "js_string \<Rightarrow> js_map" where
  "parseEnvContent content = foldl parse_line [] (split 0x0A content)"

subsection \<open>The comparison of the diff command\<close>

record changed_var =
  key :: js_string
  local :: js_string
  remote :: js_string

record env_diff =
  added :: "js_string list"
  removed :: "js_string list"
  changed :: "changed_var list"

text \<open>The bodies of the two loops over \<^verbatim>\<open>remoteVars\<close> and over \<^verbatim>\<open>localVars.keys()\<close>.\<close>

definition diff_remote_entry :: "js_map \<Rightarrow> env_diff \<Rightarrow> js_string \<times> js_string \<Rightarrow> env_diff" where
  "diff_remote_entry localVars d entry =
     (case entry of (k, v) \<Rightarrow>
        if \<not> Map_has localVars k then d\<lparr>added := added d @ [k @ str ''='' @ v]\<rparr>
        else if Map_get localVars k \<noteq> Some v
          then d\<lparr>changed := changed d @
                  [\<lparr>key = k, local = the (Map_get localVars k), remote = v\<rparr>]\<rparr>
        else d)"

definition diff_local_key :: "js_map \<Rightarrow> js_map \<Rightarrow> env_diff \<Rightarrow> js_string \<Rightarrow> env_diff" where
  "diff_local_key localVars remoteVars d k =
     (if \<not> Map_has remoteVars k
      then d\<lparr>removed := removed d @ [k @ str ''='' @ the (Map_get localVars k)]\<rparr>
      else d)"

definition diff_vars :: "js_map \<Rightarrow> js_map \<Rightarrow> env_diff" where
  "diff_vars localVars remoteVars =
     (let d0 = \<lparr>added = [], removed = [], changed = []\<rparr>;
          d1 = foldl (diff_remote_entry localVars) d0 remoteVars
      in foldl (diff_local_key localVars remoteVars) d1 (map fst localVars))"

text \<open>
  The reading of the specification: a line that is not blank and not a comment is
  split at its first = into a key and a value, both trimmed; a line without = gives
  no entry. \<open>spec_entries\<close> lists the entries of a document in document order.
\<close>

definition spec_entry :: "js_string \<Rightarrow> (js_string \<times> js_string) option" where
  "spec_entry line =
     (let t = trim line
      in if t = [] \<or> startsWith t 0x23 then None
         else map_option (\<lambda>i. (trim (take i t), trim (drop (Suc i) t))) (indexOf t 0x3D))"

definition spec_entries :: "js_string \<Rightarrow> (js_string \<times> js_string) list" where
  "spec_entries content = List.map_filter spec_entry (split 0x0A content)"

section \<open>The relay and the workspace\<close>

text \<open>
  The interfaces of the commands: the JSON bodies the relay answers with, the files
  of the working directory and of the key store, the console. A field that JSON may
  leave out is an \<open>option\<close>.
\<close>

record project_config =
  projectId :: js_string
  projectSlug :: js_string
  lastPushedVersion :: "int option"

record pull_response =
  encryptedPayload :: "js_string option"
  version :: int

record pending_member =
  userId :: js_string
  member_publicKey :: js_string

record project =
  project_id :: js_string
  project_slug :: js_string

text \<open>The requests of \<^verbatim>\<open>apiClient\<close>, by path; every path but the last starts with the project.\<close>

datatype request =
    GetVersion js_string
  | GetEnv js_string
  | GetEnvAt js_string int
  | PostEnv js_string js_string "js_string option"
  | GetPendingKeys js_string
  | PostMemberKey js_string js_string js_string
  | GetProjects

text \<open>
  The relay is a service outside the repository. Its state is of any type \<open>'r\<close>; a
  call takes the state, answers with a body or fails as \<^verbatim>\<open>apiClient\<close> throws, and
  leaves a new state.
\<close>

record 'r relay_api =
  get_version :: "js_string \<Rightarrow> 'r \<Rightarrow> (error + int) \<times> 'r"
  get_env :: "js_string \<Rightarrow> 'r \<Rightarrow> (error + pull_response) \<times> 'r"
  get_env_at :: "js_string \<Rightarrow> int \<Rightarrow> 'r \<Rightarrow> (error + pull_response) \<times> 'r"
  post_env :: "js_string \<Rightarrow> js_string \<Rightarrow> js_string option \<Rightarrow> 'r \<Rightarrow> (error + int) \<times> 'r"
  get_pending_keys :: "js_string \<Rightarrow> 'r \<Rightarrow> (error + pending_member list) \<times> 'r"
  post_member_key :: "js_string \<Rightarrow> js_string \<Rightarrow> js_string \<Rightarrow> 'r \<Rightarrow> (error + unit) \<times> 'r"
  get_projects :: "'r \<Rightarrow> (error + project list) \<times> 'r"

text \<open>What the commands print, one constructor for each message with its numbers.\<close>

datatype ui_line =
    ErrNoConfig
  | ErrNoEnvFile
  | ErrNoProjectKey
  | ErrNoSnapshot
  | ErrProjectNotFound js_string
  | ErrBadVersion
  | ErrVersionNotFound int
  | ErrPushFailed error
  | ErrPullFailed error
  | ErrRollbackFailed error
  | WarnServerAhead int int
  | WarnNoLocalFile
  | WarnCouldNotPull error
  | OutPushCancelled
  | OutRollbackCancelled
  | OutChanges int "js_string list" "js_string list"
  | OutWatching
  | OkPushed int nat
  | OkPulled int nat
  | OkAutoPulled int nat
  | OkRolledBack int int
  | InfoShared nat
  | InfoNewVersion int
  | InfoNoRemoteSnapshot

text \<open>
  Everything a command does to the outside is recorded in order: a request with
  whether it succeeded, a line on the console, a question asked on the terminal, a
  write of \<^verbatim>\<open>.env.shared\<close>, a write of \<^verbatim>\<open>.gitignored.json\<close>.
\<close>

datatype event =
    Api request bool
  | Print ui_line
  | Prompt
  | WriteEnv js_string
  | SaveConfig project_config

text \<open>
  The state a command runs in. \<open>gitignored_json\<close> is what \<^verbatim>\<open>loadProjectConfig\<close> returns,
  \<open>project_keys\<close> what \<^verbatim>\<open>loadProjectKey\<close> returns for a project and \<open>identity_keypair\<close>
  what \<^verbatim>\<open>loadIdentityKeypair\<close> returns, each \<open>None\<close> for null; \<open>env_shared\<close> is the
  content of \<^verbatim>\<open>.env.shared\<close>, \<open>None\<close> when the file does not exist.
\<close>

record 'r world =
  relay :: 'r
  env_shared :: "js_string option"
  gitignored_json :: "project_config option"
  project_keys :: "js_string \<Rightarrow> bytes option"
  identity_keypair :: "keypair option"
  rng :: entropy
  trace :: "event list"
  exitCode :: nat

text \<open>
  \<^verbatim>\<open>apiClient\<close> sends a request and returns the body of the answer or throws. \<open>ui\<close>
  stands for \<^verbatim>\<open>success\<close>, \<^verbatim>\<open>error\<close>, \<^verbatim>\<open>warn\<close>, \<^verbatim>\<open>info\<close> and \<^verbatim>\<open>console.log\<close>; \<open>fail\<close> is an
  error line followed by \<^verbatim>\<open>process.exitCode = 1\<close>.
\<close>

definition apiClient ::
  "('r \<Rightarrow> (error + 'a) \<times> 'r) \<Rightarrow> request \<Rightarrow> 'r world \<Rightarrow> (error + 'a) \<times> 'r world" where
  "apiClient f req w =
     (let (res, r') = f (relay w)
      in (res, w\<lparr>relay := r', trace := trace w @ [Api req (\<not> isl res)]\<rparr>))"

definition ui :: "ui_line \<Rightarrow> 'r world \<Rightarrow> 'r world" where
  "ui out w = w\<lparr>trace := trace w @ [Print out]\<rparr>"

definition fail :: "ui_line \<Rightarrow> 'r world \<Rightarrow> 'r world" where
  "fail out w = (ui out w)\<lparr>exitCode := 1\<rparr>"

definition writeEnv :: "js_string \<Rightarrow> 'r world \<Rightarrow> 'r world" where
  "writeEnv content w = w\<lparr>env_shared := Some content, trace := trace w @ [WriteEnv content]\<rparr>"

definition saveProjectConfig :: "project_config \<Rightarrow> 'r world \<Rightarrow> 'r world" where
  "saveProjectConfig config w =
     w\<lparr>gitignored_json := Some config, trace := trace w @ [SaveConfig config]\<rparr>"

text \<open>
  \<^verbatim>\<open>prompt\<close> asks on the terminal and resolves to the trimmed, lower-cased line;
  \<open>answer\<close> is that value, \<open>confirmed\<close> the test every caller applies to it.
\<close>

definition confirmed :: "js_string \<Rightarrow> bool" where
  "confirmed answer \<longleftrightarrow> \<not> (answer \<noteq> str ''y'' \<and> answer \<noteq> str ''yes'')"

text \<open>A string that may be missing counts as false when missing or empty.\<close>

definition truthy :: "js_string option \<Rightarrow> bool" where
  "truthy s \<longleftrightarrow> s \<noteq> None \<and> s \<noteq> Some []"

definition countVars :: "js_string \<Rightarrow> nat" where
  "countVars content =
     length (filter (\<lambda>line. let trimmed = trim line
                             in trimmed \<noteq> [] \<and> \<not> startsWith trimmed 0x23)
               (split 0x0A content))"

text \<open>
  The decimal digits of a version number inside a template string. Version numbers
  are integers; JavaScript prints an integer by its decimal digits as long as its
  magnitude is below \<^verbatim>\<open>1e21\<close>, which is the range the definitions are meant for.
\<close>

function show_nat :: "nat \<Rightarrow> js_string" where
  "show_nat n = (if n < 10 then [of_nat (48 + n)]
                 else show_nat (n div 10) @ [of_nat (48 + n mod 10)])"
  by pat_completeness auto
termination
  by (relation "measure (\<lambda>n. n)") auto

definition show_int :: "int \<Rightarrow> js_string" where
  "show_int i = (if i < 0 then 0x2D # show_nat (nat (- i)) else show_nat (nat i))"

section \<open>commands/push.ts and commands/pull.ts\<close>

subsection \<open>syncPendingKeys\<close>

text \<open>
  The function is the same in both files. \<open>share_try\<close> is the body of the inner
  \<^verbatim>\<open>try\<close> for one member, \<open>share_member\<close> that body with its \<^verbatim>\<open>catch\<close>, which skips
  the failure and leaves the count as it was; the state carries the count
  \<open>shared\<close>. \<open>syncPendingKeys_try\<close> is the body of the outer \<^verbatim>\<open>try\<close>, whose \<^verbatim>\<open>catch\<close>
  swallows whatever is thrown.
\<close>

definition share_try ::
  "'r relay_api \<Rightarrow> crypto_lib \<Rightarrow> js_string \<Rightarrow> bytes \<Rightarrow> keypair \<Rightarrow> pending_member \<Rightarrow>
   'r world \<Rightarrow> (error + unit) \<times> 'r world" where
  "share_try A L pid projectKey keypair member w =
     (case decodeBase64 L (member_publicKey member) of
        None \<Rightarrow> (Inl (Library InvalidEncoding), w)
      | Some recipientPublicKey \<Rightarrow>
          (let (enc, e') = encryptProjectKey L projectKey recipientPublicKey
                             (secretKey keypair) (rng w);
               w1 = w\<lparr>rng := e'\<rparr>
           in case enc of
                Inl err \<Rightarrow> (Inl err, w1)
              | Inr encrypted \<Rightarrow>
                  apiClient (post_member_key A pid (userId member) encrypted)
                    (PostMemberKey pid (userId member) encrypted) w1))"

definition share_member ::
  "'r relay_api \<Rightarrow> crypto_lib \<Rightarrow> js_string \<Rightarrow> bytes \<Rightarrow> keypair \<Rightarrow>
   nat \<times> 'r world \<Rightarrow> pending_member \<Rightarrow> nat \<times> 'r world" where
  "share_member A L pid projectKey keypair st member =
     (case st of (shared, w) \<Rightarrow>
        (case share_try A L pid projectKey keypair member w of
           (Inr u, w') \<Rightarrow> (shared + 1, w')
         | (Inl err, w') \<Rightarrow> (shared, w')))"

definition syncPendingKeys_try ::
  "'r relay_api \<Rightarrow> crypto_lib \<Rightarrow> js_string \<Rightarrow> 'r world \<Rightarrow> (error + unit) \<times> 'r world" where
  "syncPendingKeys_try A L pid w =
     (case apiClient (get_pending_keys A pid) (GetPendingKeys pid) w of
        (Inl err, w1) \<Rightarrow> (Inl err, w1)
      | (Inr pending, w1) \<Rightarrow>
          if pending = [] then (Inr (), w1)
          else (case (identity_keypair w1, project_keys w1 pid) of
                  (Some keypair, Some projectKey) \<Rightarrow>
                    (let (shared, w2) =
                           foldl (share_member A L pid projectKey keypair) (0, w1) pending
                     in (Inr (), if shared > 0 then ui (InfoShared shared) w2 else w2))
                | _ \<Rightarrow> (Inr (), w1)))"

definition syncPendingKeys ::
  "'r relay_api \<Rightarrow> crypto_lib \<Rightarrow> js_string \<Rightarrow> 'r world \<Rightarrow> (error + unit) \<times> 'r world" where
  "syncPendingKeys A L pid w =
     (case syncPendingKeys_try A L pid w of
        (Inl err, w') \<Rightarrow> (Inr (), w')
      | (Inr u, w') \<Rightarrow> (Inr (), w'))"

subsection \<open>The push command\<close>

record push_options =
  message :: "js_string option"
  force :: bool

text \<open>
  The block of conflict detection. It answers whether the action goes on; \<open>False\<close>
  is the \<^verbatim>\<open>return\<close> after a declined confirmation. A failed version request is
  caught and the push goes on.
\<close>

definition conflict_check ::
  "'r relay_api \<Rightarrow> push_options \<Rightarrow> project_config \<Rightarrow> js_string \<Rightarrow> 'r world \<Rightarrow>
   bool \<times> 'r world" where
  "conflict_check A options config answer w =
     (if \<not> force options then
        (case apiClient (get_version A (projectId config)) (GetVersion (projectId config)) w of
           (Inl err, w1) \<Rightarrow> (True, w1)
         | (Inr v, w1) \<Rightarrow>
             (let localVersion = (case lastPushedVersion config of None \<Rightarrow> 0 | Some n \<Rightarrow> n)
              in if v > localVersion \<and> localVersion > 0 then
                   (let w2 = ui (WarnServerAhead v localVersion) w1;
                        w3 = w2\<lparr>trace := trace w2 @ [Prompt]\<rparr>
                    in if answer \<noteq> str ''y'' \<and> answer \<noteq> str ''yes''
                       then (False, ui OutPushCancelled w3)
                       else (True, w3))
                 else (True, w1)))
      else (True, w))"

text \<open>
  The rest of the action: encryption, upload, the record of the pushed version, the
  key sync. An exception anywhere in it reaches the \<^verbatim>\<open>catch\<close> of the action.
\<close>

definition push_upload ::
  "'r relay_api \<Rightarrow> crypto_lib \<Rightarrow> push_options \<Rightarrow> project_config \<Rightarrow> js_string \<Rightarrow> bytes \<Rightarrow>
   'r world \<Rightarrow> 'r world" where
  "push_upload A L options config envContent projectKey w =
     (let (enc, e') = encryptEnv L envContent projectKey (rng w);
          w1 = w\<lparr>rng := e'\<rparr>
      in case enc of
           Inl err \<Rightarrow> fail (ErrPushFailed err) w1
         | Inr payload \<Rightarrow>
             (case apiClient (post_env A (projectId config) payload (message options))
                     (PostEnv (projectId config) payload (message options)) w1 of
                (Inl err, w2) \<Rightarrow> fail (ErrPushFailed err) w2
              | (Inr v, w2) \<Rightarrow>
                  (let config' = config\<lparr>lastPushedVersion := Some v\<rparr>;
                       w3 = saveProjectConfig config' w2;
                       w4 = ui (OkPushed v (countVars envContent)) w3
                   in case syncPendingKeys A L (projectId config) w4 of
                        (Inl err, w5) \<Rightarrow> fail (ErrPushFailed err) w5
                      | (Inr u, w5) \<Rightarrow> w5)))"

definition push_action ::
  "'r relay_api \<Rightarrow> crypto_lib \<Rightarrow> push_options \<Rightarrow> js_string \<Rightarrow> 'r world \<Rightarrow> 'r world" where
  "push_action A L options answer w =
     (case gitignored_json w of
        None \<Rightarrow> fail ErrNoConfig w
      | Some config \<Rightarrow>
          (case env_shared w of
             None \<Rightarrow> fail ErrNoEnvFile w
           | Some envContent \<Rightarrow>
               (case project_keys w (projectId config) of
                  None \<Rightarrow> fail ErrNoProjectKey w
                | Some projectKey \<Rightarrow>
                    (case conflict_check A options config answer w of
                       (False, w1) \<Rightarrow> w1
                     | (True, w1) \<Rightarrow>
                         push_upload A L options config envContent projectKey w1))))"

subsection \<open>The pull command\<close>

record pull_options =
  token :: "js_string option"
  project :: "js_string option"

text \<open>
  \<open>token\<close> only sets the credential that \<^verbatim>\<open>apiClient\<close> sends. With \<open>project\<close> the
  project is looked up by slug on the relay, otherwise it comes from
  \<^verbatim>\<open>.gitignored.json\<close>.
\<close>

definition pull_fetch ::
  "'r relay_api \<Rightarrow> crypto_lib \<Rightarrow> js_string \<Rightarrow> 'r world \<Rightarrow> 'r world" where
  "pull_fetch A L pid w =
     (case project_keys w pid of
        None \<Rightarrow> fail ErrNoProjectKey w
      | Some projectKey \<Rightarrow>
          (case apiClient (get_env A pid) (GetEnv pid) w of
             (Inl err, w1) \<Rightarrow> fail (ErrPullFailed err) w1
           | (Inr result, w1) \<Rightarrow>
               if \<not> truthy (encryptedPayload result) then fail ErrNoSnapshot w1
               else (case decryptEnv L (the (encryptedPayload result)) projectKey of
                       Inl err \<Rightarrow> fail (ErrPullFailed err) w1
                     | Inr decrypted \<Rightarrow>
                         (let w2 = writeEnv decrypted w1;
                              w3 = ui (OkPulled (version result) (countVars decrypted)) w2
                          in case syncPendingKeys A L pid w3 of
                               (Inl err, w4) \<Rightarrow> fail (ErrPullFailed err) w4
                             | (Inr u, w4) \<Rightarrow> w4))))"

definition pull_action ::
  "'r relay_api \<Rightarrow> crypto_lib \<Rightarrow> pull_options \<Rightarrow> 'r world \<Rightarrow> 'r world" where
  "pull_action A L options w =
     (if truthy (project options) then
        (case apiClient (get_projects A) GetProjects w of
           (Inl err, w1) \<Rightarrow> fail (ErrPullFailed err) w1
         | (Inr projects, w1) \<Rightarrow>
             (case find (\<lambda>p. project_slug p = the (project options)) projects of
                None \<Rightarrow> fail (ErrProjectNotFound (the (project options))) w1
              | Some p \<Rightarrow> pull_fetch A L (project_id p) w1))
      else (case gitignored_json w of
              None \<Rightarrow> fail ErrNoConfig w
            | Some config \<Rightarrow> pull_fetch A L (projectId config) w))"

subsection \<open>Notions used to state the properties of the commands\<close>

text \<open>
  The part of the state that a command leaves as its result: the exit code and the
  two files of the working directory.
\<close>

definition outcome :: "'r world \<Rightarrow> nat \<times> js_string option \<times> project_config option" where
  "outcome w = (exitCode w, env_shared w, gitignored_json w)"

text \<open>
  A pending member can be given the key when the registered public key decodes to
  32 bytes and the own secret key has 32 bytes; no other input makes the wrapping
  throw.
\<close>

definition shareable :: "crypto_lib \<Rightarrow> keypair \<Rightarrow> pending_member \<Rightarrow> bool" where
  "shareable L kp m =
     (case decodeBase64 L (member_publicKey m) of
        None \<Rightarrow> False
      | Some pk \<Rightarrow> length pk = 32 \<and> length (secretKey kp) = 32)"

text \<open>The members a trace uploaded an envelope for, and how many uploads succeeded.\<close>

fun posted_to :: "event list \<Rightarrow> js_string list" where
  "posted_to [] = []"
| "posted_to (Api (PostMemberKey p u c) ok # evs) = u # posted_to evs"
| "posted_to (ev # evs) = posted_to evs"

fun shares_ok :: "event list \<Rightarrow> nat" where
  "shares_ok [] = 0"
| "shares_ok (Api (PostMemberKey p u c) ok # evs) = (if ok then 1 else 0) + shares_ok evs"
| "shares_ok (ev # evs) = shares_ok evs"

fun printed :: "event list \<Rightarrow> ui_line list" where
  "printed [] = []"
| "printed (Print out # evs) = out # printed evs"
| "printed (ev # evs) = printed evs"

fun written :: "event list \<Rightarrow> js_string list" where
  "written [] = []"
| "written (WriteEnv c # evs) = c # written evs"
| "written (ev # evs) = written evs"

fun uploaded :: "event list \<Rightarrow> js_string list" where
  "uploaded [] = []"
| "uploaded (Api (PostEnv p c m) ok # evs) = c # uploaded evs"
| "uploaded (ev # evs) = uploaded evs"

fun saved :: "event list \<Rightarrow> project_config list" where
  "saved [] = []"
| "saved (SaveConfig c # evs) = c # saved evs"
| "saved (ev # evs) = saved evs"

definition asked :: "event list \<Rightarrow> bool" where
  "asked evs \<longleftrightarrow> Prompt \<in> set evs"

fun version_requests :: "event list \<Rightarrow> js_string list" where
  "version_requests [] = []"
| "version_requests (Api (GetVersion p) ok # evs) = p # version_requests evs"
| "version_requests (ev # evs) = version_requests evs"

text \<open>
  The version the workspace pushed last, 0 when it never pushed, and the condition
  of the conflict warning: the version request succeeds with a version above it,
  and it is above 0.
\<close>

definition local_version :: "project_config \<Rightarrow> int" where
  "local_version config = (case lastPushedVersion config of None \<Rightarrow> 0 | Some n \<Rightarrow> n)"

definition server_ahead :: "'r relay_api \<Rightarrow> project_config \<Rightarrow> 'r \<Rightarrow> bool" where
  "server_ahead A config r =
     (case fst (get_version A (projectId config) r) of
        Inl err \<Rightarrow> False
      | Inr v \<Rightarrow> v > local_version config \<and> local_version config > 0)"

section \<open>A relay as the specification describes it\<close>

text \<open>
  The relay service is not part of the repository. Its state, as the specification
  describes it: for each project the append-only sequence of snapshots, version \<open>n\<close>
  being the \<open>n\<close>-th, the confirmed members with their public keys, and the key
  envelopes uploaded for them.
\<close>

record snapshot =
  snap_payload :: js_string
  snap_message :: "js_string option"

record relay_state =
  snapshots :: "js_string \<Rightarrow> snapshot list"
  members :: "js_string \<Rightarrow> pending_member list"
  envelopes :: "js_string \<Rightarrow> (js_string \<times> js_string) list"
  projects :: "project list"

text \<open>
  Modelled from the spec: the operations of the relay service, which the repository
  only calls. The current version is the number of snapshots; a push appends a
  snapshot and answers with the new version; a pull answers with the latest
  snapshot and is \<open>NotFound\<close>, status 404, when there is none; a historical pull
  answers with the snapshot of that version; the pending members are the members
  without an envelope; an uploaded envelope is recorded.
\<close>

definition spec_relay :: "relay_state relay_api" where
  "spec_relay = \<lparr>
     get_version = (\<lambda>pid r. (Inr (int (length (snapshots r pid))), r)),
     get_env = (\<lambda>pid r.
        (case snapshots r pid of
           [] \<Rightarrow> Inl (ApiError 404)
         | s # ss \<Rightarrow> Inr \<lparr>encryptedPayload = Some (snap_payload (last (s # ss))),
                          version = int (length (s # ss))\<rparr>, r)),
     get_env_at = (\<lambda>pid v r.
        (if 1 \<le> v \<and> v \<le> int (length (snapshots r pid))
         then Inr \<lparr>encryptedPayload = Some (snap_payload (snapshots r pid ! nat (v - 1))),
                   version = v\<rparr>
         else Inl (ApiError 404), r)),
     post_env = (\<lambda>pid payload msg r.
        (Inr (int (length (snapshots r pid)) + 1),
         r\<lparr>snapshots := (snapshots r)
              (pid := snapshots r pid @ [\<lparr>snap_payload = payload, snap_message = msg\<rparr>])\<rparr>)),
     get_pending_keys = (\<lambda>pid r.
        (Inr (filter (\<lambda>m. map_of (envelopes r pid) (userId m) = None) (members r pid)), r)),
     post_member_key = (\<lambda>pid uid envelope r.
        (Inr (), r\<lparr>envelopes := (envelopes r)(pid := envelopes r pid @ [(uid, envelope)])\<rparr>)),
     get_projects = (\<lambda>r. (Inr (projects r), r))\<rparr>"


subsection \<open>A workspace of the reference instance\<close>

text \<open>
  The project \<^verbatim>\<open>p1\<close> with three snapshots on the relay, the first of them the
  document \<^verbatim>\<open>A=1\<close>, and three members without an envelope: \<^verbatim>\<open>u0\<close> registered a key
  that is no Base64, \<^verbatim>\<open>u1\<close> and \<^verbatim>\<open>u2\<close> the keys of \<open>bob\<close> and \<open>carol\<close>. The workspace
  is \<open>alice\<close>'s; it pushed version 1 last and holds the document \<^verbatim>\<open>B=2\<close>.
\<close>

definition relay0 :: relay_state where
  "relay0 = \<lparr>
     snapshots = (\<lambda>pid. if pid = str ''p1''
        then [\<lparr>snap_payload = sealed_env, snap_message = None\<rparr>,
              \<lparr>snap_payload = str ''x'', snap_message = None\<rparr>,
              \<lparr>snap_payload = str ''y'', snap_message = Some (str ''third'')\<rparr>]
        else []),
     members = (\<lambda>pid. if pid = str ''p1''
        then [\<lparr>userId = str ''u0'', member_publicKey = [0x100]\<rparr>,
              \<lparr>userId = str ''u1'', member_publicKey = encodeBase64 toy_lib (publicKey bob)\<rparr>,
              \<lparr>userId = str ''u2'', member_publicKey = encodeBase64 toy_lib (publicKey carol)\<rparr>]
        else []),
     envelopes = (\<lambda>pid. []),
     projects = [\<lparr>project_id = str ''p1'', project_slug = str ''demo''\<rparr>]\<rparr>"

definition config0 :: project_config where
  "config0 = \<lparr>projectId = str ''p1'', projectSlug = str ''demo'', lastPushedVersion = Some 1\<rparr>"

definition world0 :: "relay_state world" where
  "world0 = \<lparr>
     relay = relay0,
     env_shared = Some (str ''B=2''),
     gitignored_json = Some config0,
     project_keys = (\<lambda>pid. if pid = str ''p1'' then Some pk0 else None),
     identity_keypair = Some alice,
     rng = count_from 1,
     trace = [],
     exitCode = 0\<rparr>"

text \<open>The same workspace against a relay that holds the first snapshot only.\<close>

definition world1 :: "relay_state world" where
  "world1 = world0\<lparr>relay := relay0\<lparr>snapshots := (\<lambda>pid. take 1 (snapshots relay0 pid))\<rparr>\<rparr>"

section \<open>commands/rollback.ts\<close>

text \<open>
  \<open>showDiff\<close> gives the lines it prints as removed and as added. The version argument
  of the action is what \<^verbatim>\<open>parseInt\<close> made of it, \<open>None\<close> for \<^verbatim>\<open>NaN\<close>.
\<close>

definition showDiff :: "js_string \<Rightarrow> js_string \<Rightarrow> js_string list \<times> js_string list" where
  "showDiff currentContent oldContent =
     (let currentLines = filter (\<lambda>l. trim l \<noteq> [] \<and> \<not> startsWith (trim l) 0x23)
                           (split 0x0A currentContent);
          oldLines = filter (\<lambda>l. trim l \<noteq> [] \<and> \<not> startsWith (trim l) 0x23)
                       (split 0x0A oldContent);
          removed = filter (\<lambda>l. l \<notin> set oldLines) currentLines;
          added = filter (\<lambda>l. l \<notin> set currentLines) oldLines
      in (removed, added))"

definition rollback_message :: "int \<Rightarrow> js_string" where
  "rollback_message v = str ''Rollback to v'' @ show_int v"

definition rollback_upload ::
  "'r relay_api \<Rightarrow> crypto_lib \<Rightarrow> int \<Rightarrow> project_config \<Rightarrow> js_string \<Rightarrow> bytes \<Rightarrow>
   'r world \<Rightarrow> 'r world" where
  "rollback_upload A L v config oldContent projectKey w =
     (let (enc, e') = encryptEnv L oldContent projectKey (rng w);
          w1 = w\<lparr>rng := e'\<rparr>
      in case enc of
           Inl err \<Rightarrow> fail (ErrRollbackFailed err) w1
         | Inr payload \<Rightarrow>
             (case apiClient (post_env A (projectId config) payload (Some (rollback_message v)))
                     (PostEnv (projectId config) payload (Some (rollback_message v))) w1 of
                (Inl err, w2) \<Rightarrow> fail (ErrRollbackFailed err) w2
              | (Inr newVersion, w2) \<Rightarrow>
                  ui (OkRolledBack v newVersion) (writeEnv oldContent w2)))"

definition rollback_action ::
  "'r relay_api \<Rightarrow> crypto_lib \<Rightarrow> int option \<Rightarrow> js_string \<Rightarrow> 'r world \<Rightarrow> 'r world" where
  "rollback_action A L parsed answer w =
     (case parsed of
        None \<Rightarrow> fail ErrBadVersion w
      | Some v \<Rightarrow>
          if v < 1 then fail ErrBadVersion w
          else (case gitignored_json w of
             None \<Rightarrow> fail ErrNoConfig w
           | Some config \<Rightarrow>
               (case project_keys w (projectId config) of
                  None \<Rightarrow> fail ErrNoProjectKey w
                | Some projectKey \<Rightarrow>
                    (case apiClient (get_env_at A (projectId config) v)
                            (GetEnvAt (projectId config) v) w of
                       (Inl err, w1) \<Rightarrow> fail (ErrRollbackFailed err) w1
                     | (Inr oldSnapshot, w1) \<Rightarrow>
                         if \<not> truthy (encryptedPayload oldSnapshot)
                         then fail (ErrVersionNotFound v) w1
                         else (case decryptEnv L (the (encryptedPayload oldSnapshot)) projectKey of
                            Inl err \<Rightarrow> fail (ErrRollbackFailed err) w1
                          | Inr oldContent \<Rightarrow>
                              (let currentContent =
                                     (case env_shared w1 of None \<Rightarrow> [] | Some c \<Rightarrow> c);
                                   w2 = (if currentContent \<noteq> []
                                         then ui (OutChanges v
                                                (fst (showDiff currentContent oldContent))
                                                (snd (showDiff currentContent oldContent))) w1
                                         else ui WarnNoLocalFile w1);
                                   w3 = w2\<lparr>trace := trace w2 @ [Prompt]\<rparr>
                               in if answer \<noteq> str ''y'' \<and> answer \<noteq> str ''yes''
                                  then ui OutRollbackCancelled w3
                                  else rollback_upload A L v config oldContent projectKey w3))))))"

section \<open>commands/start.ts\<close>

text \<open>
  Watch mode runs on the event loop of the JavaScript runtime: a handler runs
  without interruption up to its next \<^verbatim>\<open>await\<close>, where it is suspended until the
  awaited result arrives; other handlers run in between. A step of the model is
  one such uninterrupted piece. The variables of the session are the four of the
  source, \<open>localVersion\<close>, \<open>isPushing\<close>, \<open>isPrompting\<close> and \<open>watcher\<close>; the rest of
  the state is the environment: the file \<^verbatim>\<open>.env.shared\<close>, the handlers suspended at an
  \<^verbatim>\<open>await\<close>, the requests sent, the entropy and the console.
\<close>

datatype suspended =
    PollVersion
  | PollPull
  | ChangeDebounce
  | ChangePrompt
  | ChangePost js_string

text \<open>
  What the event loop delivers: a tick of the interval timer, a change event of the
  file watcher with the given number, an edit of the file by the user, and the
  results that resume the handler with the given number.
\<close>

datatype signal =
    Tick
  | FileChange nat
  | Edit js_string
  | VersionResult nat "error + int"
  | PullResult nat "error + pull_response"
  | DebounceElapsed nat
  | Answer nat js_string
  | PostResult nat "error + int"

record session =
  localVersion :: int
  isPushing :: bool
  isPrompting :: bool
  watcher :: "nat option"
  watchers_made :: nat
  in_flight :: "(nat \<times> suspended) list"
  handlers_started :: nat
  mirror :: "js_string option"
  entropy_left :: entropy
  requested :: "request list"
  journal :: "event list"

definition suspend :: "suspended \<Rightarrow> session \<Rightarrow> session" where
  "suspend k s = s\<lparr>in_flight := in_flight s @ [(handlers_started s, k)],
                  handlers_started := handlers_started s + 1\<rparr>"

definition resume :: "nat \<Rightarrow> session \<Rightarrow> session" where
  "resume h s = s\<lparr>in_flight := filter (\<lambda>(h', k). h' \<noteq> h) (in_flight s)\<rparr>"

definition await :: "nat \<Rightarrow> suspended \<Rightarrow> session \<Rightarrow> session" where
  "await h k s = s\<lparr>in_flight := in_flight s @ [(h, k)]\<rparr>"

definition send :: "request \<Rightarrow> session \<Rightarrow> session" where
  "send req s = s\<lparr>requested := requested s @ [req]\<rparr>"

definition note_line :: "ui_line \<Rightarrow> session \<Rightarrow> session" where
  "note_line out s = s\<lparr>journal := journal s @ [Print out]\<rparr>"

text \<open>\<^verbatim>\<open>fs.watch\<close> throws when the file does not exist; \<open>startWatcher\<close> then gives null.\<close>

definition startWatcher :: "session \<Rightarrow> session" where
  "startWatcher s =
     (if mirror s = None then s\<lparr>watcher := None\<rparr>
      else s\<lparr>watcher := Some (watchers_made s), watchers_made := watchers_made s + 1\<rparr>)"

subsection \<open>The poll of the interval timer\<close>

definition poll_tick :: "project_config \<Rightarrow> session \<Rightarrow> session" where
  "poll_tick config s =
     (if isPushing s \<or> isPrompting s then s
      else suspend PollVersion (send (GetVersion (projectId config)) s))"

definition poll_version ::
  "project_config \<Rightarrow> nat \<Rightarrow> error + int \<Rightarrow> session \<Rightarrow> session" where
  "poll_version config h res s =
     (case res of
        Inl err \<Rightarrow> s
      | Inr v \<Rightarrow>
          if v > localVersion s
          then await h PollPull
                 (send (GetEnv (projectId config)) (note_line (InfoNewVersion v) s))
          else s)"

text \<open>
  \<^verbatim>\<open>watcher.close()\<close> ends the events of the current watcher; the variable is
  assigned the new watcher at the end of the same piece.
\<close>

definition poll_pull ::
  "crypto_lib \<Rightarrow> bytes \<Rightarrow> error + pull_response \<Rightarrow> session \<Rightarrow> session" where
  "poll_pull L projectKey res s =
     (case res of
        Inl err \<Rightarrow> s
      | Inr pullResult \<Rightarrow>
          if truthy (encryptedPayload pullResult) then
            (case decryptEnv L (the (encryptedPayload pullResult)) projectKey of
               Inl err \<Rightarrow> s
             | Inr decrypted \<Rightarrow>
                 (let s1 = s\<lparr>watcher := None\<rparr>;
                      s2 = s1\<lparr>mirror := Some decrypted,
                              journal := journal s1 @ [WriteEnv decrypted]\<rparr>;
                      s3 = s2\<lparr>localVersion := version pullResult\<rparr>;
                      s4 = note_line (OkAutoPulled (version pullResult) (countVars decrypted)) s3
                  in startWatcher s4))
          else s)"

subsection \<open>The handler of the file watcher\<close>

definition change_event :: "nat \<Rightarrow> session \<Rightarrow> session" where
  "change_event n s =
     (if watcher s \<noteq> Some n then s
      else if isPushing s \<or> isPrompting s then s
      else suspend ChangeDebounce s)"

definition change_debounced :: "nat \<Rightarrow> session \<Rightarrow> session" where
  "change_debounced h s =
     await h ChangePrompt (s\<lparr>isPrompting := True, journal := journal s @ [Prompt]\<rparr>)"

definition change_answer ::
  "crypto_lib \<Rightarrow> project_config \<Rightarrow> bytes \<Rightarrow> nat \<Rightarrow> js_string \<Rightarrow> session \<Rightarrow> session" where
  "change_answer L config projectKey h answer s =
     (if answer = str ''y'' \<or> answer = str ''yes'' then
        (let s1 = s\<lparr>isPushing := True\<rparr>
         in case mirror s1 of
              None \<Rightarrow> (note_line (ErrPushFailed FileError) s1)
                        \<lparr>isPushing := False, isPrompting := False\<rparr>
            | Some content \<Rightarrow>
                (let (enc, e') = encryptEnv L content projectKey (entropy_left s1);
                     s2 = s1\<lparr>entropy_left := e'\<rparr>
                 in case enc of
                      Inl err \<Rightarrow> (note_line (ErrPushFailed err) s2)
                                   \<lparr>isPushing := False, isPrompting := False\<rparr>
                    | Inr payload \<Rightarrow>
                        await h (ChangePost content)
                          (send (PostEnv (projectId config) payload None) s2)))
      else s\<lparr>isPrompting := False\<rparr>)"

definition change_posted :: "js_string \<Rightarrow> error + int \<Rightarrow> session \<Rightarrow> session" where
  "change_posted content res s =
     (let s1 = (case res of
                  Inl err \<Rightarrow> note_line (ErrPushFailed err) s
                | Inr v \<Rightarrow> note_line (OkPushed v (countVars content)) (s\<lparr>localVersion := v\<rparr>))
      in s1\<lparr>isPushing := False, isPrompting := False\<rparr>)"

subsection \<open>The event loop\<close>

text \<open>
  A result resumes the handler it belongs to when that handler waits for it; any
  other delivery changes nothing.
\<close>

definition waiting :: "session \<Rightarrow> nat \<Rightarrow> suspended option" where
  "waiting s h = map_of (in_flight s) h"

definition step ::
  "crypto_lib \<Rightarrow> project_config \<Rightarrow> bytes \<Rightarrow> session \<Rightarrow> signal \<Rightarrow> session" where
  "step L config projectKey s sig =
     (case sig of
        Tick \<Rightarrow> poll_tick config s
      | FileChange n \<Rightarrow> change_event n s
      | Edit content \<Rightarrow> s\<lparr>mirror := Some content\<rparr>
      | VersionResult h res \<Rightarrow>
          (case waiting s h of
             Some PollVersion \<Rightarrow> poll_version config h res (resume h s)
           | _ \<Rightarrow> s)
      | PullResult h res \<Rightarrow>
          (case waiting s h of
             Some PollPull \<Rightarrow> poll_pull L projectKey res (resume h s)
           | _ \<Rightarrow> s)
      | DebounceElapsed h \<Rightarrow>
          (case waiting s h of
             Some ChangeDebounce \<Rightarrow> change_debounced h (resume h s)
           | _ \<Rightarrow> s)
      | Answer h answer \<Rightarrow>
          (case waiting s h of
             Some ChangePrompt \<Rightarrow> change_answer L config projectKey h answer (resume h s)
           | _ \<Rightarrow> s)
      | PostResult h res \<Rightarrow>
          (case waiting s h of
             Some (ChangePost content) \<Rightarrow> change_posted content res (resume h s)
           | _ \<Rightarrow> s))"

definition run ::
  "crypto_lib \<Rightarrow> project_config \<Rightarrow> bytes \<Rightarrow> session \<Rightarrow> signal list \<Rightarrow> session" where
  "run L config projectKey s sigs = foldl (step L config projectKey) s sigs"

text \<open>
  The session after the initial pull of the start action and the first
  \<open>startWatcher\<close>; \<open>initial\<close> is the answer of the relay to that pull.
\<close>

definition start_session ::
  "crypto_lib \<Rightarrow> bytes \<Rightarrow> js_string option \<Rightarrow> entropy \<Rightarrow> error + pull_response \<Rightarrow> session" where
  "start_session L projectKey file e initial =
     (let s0 = \<lparr>localVersion = 0, isPushing = False, isPrompting = False, watcher = None,
                watchers_made = 0, in_flight = [], handlers_started = 0, mirror = file,
                entropy_left = e, requested = [], journal = []\<rparr>;
          s1 = (case initial of
                  Inl err \<Rightarrow> note_line (WarnCouldNotPull err) s0
                | Inr result \<Rightarrow>
                    if truthy (encryptedPayload result) then
                      (case decryptEnv L (the (encryptedPayload result)) projectKey of
                         Inl err \<Rightarrow> note_line (WarnCouldNotPull err) s0
                       | Inr decrypted \<Rightarrow>
                           note_line (OkPulled (version result) (countVars decrypted))
                             (s0\<lparr>mirror := Some decrypted,
                                 journal := journal s0 @ [WriteEnv decrypted],
                                 localVersion := version result\<rparr>))
                    else note_line InfoNoRemoteSnapshot s0)
      in startWatcher (note_line OutWatching s1))"

subsection \<open>A session in which a poll and a push interleave\<close>

text \<open>
  The relay holds version 1, the document \<^verbatim>\<open>A=1\<close>, with which the session starts. A
  tick sends the version request. The user then writes \<^verbatim>\<open>MINE=1\<close> to the file, the
  watcher reports it, the debounce timer elapses and the question is asked.
  Someone else has pushed version 2 meanwhile, here the document \<^verbatim>\<open>A=1\<close> again:
  the answers to the version request and to the pull arrive before the user
  answers the question with \<^verbatim>\<open>y\<close>.
\<close>

definition session0 :: session where
  "session0 = start_session toy_lib pk0 (Some (str ''OLD=0'')) (count_from 1)
                (Inr \<lparr>encryptedPayload = Some sealed_env, version = 1\<rparr>)"

definition interleaving :: "signal list" where
  "interleaving =
     [Tick,
      Edit (str ''MINE=1''),
      FileChange 0,
      DebounceElapsed 1,
      VersionResult 0 (Inr 2),
      PullResult 0 (Inr \<lparr>encryptedPayload = Some sealed_env, version = 2\<rparr>),
      Answer 1 (str ''y''),
      PostResult 1 (Inr 3)]"

definition at_prompt :: session where
  "at_prompt = run toy_lib config0 pk0 session0 (take 5 interleaving)"

definition overwritten :: session where
  "overwritten = step toy_lib config0 pk0 at_prompt (interleaving ! 5)"

definition finished :: session where
  "finished = run toy_lib config0 pk0 session0 interleaving"

section \<open>Properties of lib/crypto.ts\<close>

subsection \<open>Helper lemmas\<close>

lemma randomBytes_length: "length (fst (randomBytes n e)) = n"
  by (simp add: randomBytes_def)

lemma generateKeypair_identity: "identity L (fst (generateKeypair L e))"
  by (simp add: generateKeypair_def identity_def randomBytes_def split: prod.splits)

lemma contract_open:
  "lib_contract L \<Longrightarrow> length k = 32 \<Longrightarrow> length n = 24 \<Longrightarrow>
   secretbox_open L (secretbox L m n k) n k = Some m"
  by (simp add: lib_contract_def)

lemma contract_agree:
  "lib_contract L \<Longrightarrow> length a = 32 \<Longrightarrow> length b = 32 \<Longrightarrow>
   box_before L (scalarMult_base L b) a = box_before L (scalarMult_base L a) b"
  by (simp add: lib_contract_def)

lemma contract_sizes:
  "lib_contract L \<Longrightarrow> length a = 32 \<Longrightarrow> length (scalarMult_base L a) = 32"
  "lib_contract L \<Longrightarrow> length p = 32 \<Longrightarrow> length s = 32 \<Longrightarrow> length (box_before L p s) = 32"
  by (simp_all add: lib_contract_def)

lemma contract_base64: "lib_contract L \<Longrightarrow> decodeBase64 L (encodeBase64 L b) = Some b"
  by (simp add: lib_contract_def)

lemma contract_utf8:
  "lib_contract L \<Longrightarrow> decodeUTF8 L s = Some b \<longleftrightarrow> encodeUTF8 L b = Some s"
  by (simp add: lib_contract_def)

lemma encodeBase64_inj:
  assumes "lib_contract L" and "encodeBase64 L x = encodeBase64 L y"
  shows "x = y"
proof -
  have "Some x = decodeBase64 L (encodeBase64 L x)" using assms(1) by (simp add: contract_base64)
  also have "\<dots> = Some y" using assms by (simp add: contract_base64)
  finally show ?thesis by simp
qed

lemma encryptEnv_result:
  assumes "length k = 32" and "decodeUTF8 L p = Some m"
  shows "fst (encryptEnv L p k e) =
         Inr (encodeBase64 L (fst (randomBytes 24 e) @ secretbox L m (fst (randomBytes 24 e)) k))"
  using assms by (simp add: encryptEnv_def nacl_secretbox_def randomBytes_def)

lemma encryptEnv_entropy: "snd (encryptEnv L p k e) = snd (randomBytes 24 e)"
  by (simp add: encryptEnv_def split: prod.splits)

lemma decryptEnv_sealed:
  assumes "lib_contract L" and "length k = 32" and "length n = 24" and "decodeUTF8 L p = Some m"
  shows "decryptEnv L (encodeBase64 L (n @ secretbox L m n k)) k = Inr p"
proof -
  have "encodeUTF8 L m = Some p" using assms(1,4) by (simp add: contract_utf8)
  then show ?thesis
    using assms by (simp add: decryptEnv_def contract_base64 nacl_secretbox_open_def contract_open)
qed

lemma encryptProjectKey_result:
  assumes "length pubR = 32" and "length secS = 32" and "lib_contract L"
  shows "fst (encryptProjectKey L pk pubR secS e) =
         Inr (encodeBase64 L (fst (randomBytes 24 e) @
                secretbox L pk (fst (randomBytes 24 e)) (box_before L pubR secS)))"
  using assms
  by (simp add: encryptProjectKey_def nacl_box_def nacl_box_before_def nacl_secretbox_def
      randomBytes_def contract_sizes)

lemma decryptProjectKey_sealed:
  assumes "lib_contract L" and "length pub = 32" and "length sec = 32" and "length n = 24"
    and "box_before L pub sec = K"
  shows "decryptProjectKey L (encodeBase64 L (n @ secretbox L pk n K)) pub sec = Inr pk"
proof -
  have "length K = 32" using assms by (auto simp: contract_sizes)
  then show ?thesis
    using assms
    by (simp add: decryptProjectKey_def contract_base64 nacl_box_open_def nacl_box_before_def
        nacl_secretbox_open_def contract_open)
qed

lemma ucast_8_16_8: "ucast (ucast (x::8 word) :: 16 word) = x"
  by (simp add: ucast_up_ucast_id is_up)

lemma ucast_8_16_less: "(ucast (x::8 word) :: 16 word) < 256"
proof -
  have "unat x < 2 ^ 8" using unsigned_less[of x] by simp
  then show ?thesis by (simp add: word_less_nat_alt unsigned_ucast_eq take_bit_nat_eq_self)
qed

lemma ucast_8_16_ascii: "(x::8 word) < 128 \<Longrightarrow> (ucast x :: 16 word) < 128"
  by (simp add: word_less_nat_alt unsigned_ucast_eq take_bit_nat_eq_self)

lemma ucast_16_8_16: "(c :: 16 word) < 256 \<Longrightarrow> ucast (ucast c :: 8 word) = c"
  apply (rule word_unat_eq_iff[THEN iffD2])
  apply (simp add: word_less_nat_alt unsigned_ucast_eq unsigned_take_bit_eq take_bit_nat_eq_self)
  done

lemma ucast_16_8_ascii: "(c :: 16 word) < 128 \<Longrightarrow> (ucast c :: 8 word) < 128"
  by (simp add: word_less_nat_alt unsigned_ucast_eq take_bit_nat_eq_self)

lemma toy_agree:
  "map2 (\<lambda>x y. x * y) (map (\<lambda>x. 3 * x) b) a = map2 (\<lambda>x y. x * y) (map (\<lambda>x. 3 * x) a) (b :: 8 word list)"
proof (induction a arbitrary: b)
  case Nil then show ?case by simp
next
  case (Cons x xs) then show ?case by (cases b) (simp_all add: ac_simps)
qed

lemma toy_utf8_dec:
  "list_all (\<lambda>c. c < 128) (s :: js_string) \<Longrightarrow>
   list_all (\<lambda>x. x < 128) (map ucast s :: bytes) \<and> map ucast (map ucast s :: bytes) = s"
proof (induction s)
  case Nil then show ?case by simp
next
  case (Cons c s)
  then have "c < 128" by simp
  then have "c < 256" by (simp add: word_less_nat_alt)
  with Cons show ?case by (simp add: ucast_16_8_ascii ucast_16_8_16)
qed

lemma toy_utf8_enc:
  "list_all (\<lambda>x. x < 128) (b :: bytes) \<Longrightarrow>
   list_all (\<lambda>c. c < 128) (map ucast b :: js_string) \<and> map ucast (map ucast b :: js_string) = b"
  by (induction b) (simp_all add: ucast_8_16_ascii ucast_8_16_8)

lemma toy_base64: "list_all (\<lambda>c. c < 256) (map ucast (b :: bytes) :: js_string) \<and>
   map ucast (map ucast b :: js_string) = b"
  by (induction b) (simp_all add: ucast_8_16_less ucast_8_16_8)

lemma toy_lib_contract: "lib_contract toy_lib"
  unfolding lib_contract_def
proof (intro conjI allI impI)
  fix s b
  show "decodeUTF8 toy_lib s = Some b \<longleftrightarrow> encodeUTF8 toy_lib b = Some s"
    using toy_utf8_dec[of s] toy_utf8_enc[of b] by (auto simp: toy_lib_def)
next
  fix b show "decodeBase64 toy_lib (encodeBase64 toy_lib b) = Some b"
    using toy_base64[of b] by (simp add: toy_lib_def)
qed (simp_all add: toy_lib_def toy_agree)

lemma encryptEnv_Inr:
  assumes "fst (encryptEnv L p k e) = Inr c"
  shows "length k = 32 \<and> (\<exists>m. decodeUTF8 L p = Some m \<and>
           c = encodeBase64 L (fst (randomBytes 24 e) @ secretbox L m (fst (randomBytes 24 e)) k))"
  using assms
  by (auto simp: encryptEnv_def nacl_secretbox_def randomBytes_def
      split: option.splits if_splits)

lemma encryptProjectKey_Inr:
  assumes "fst (encryptProjectKey L pk pubR secS e) = Inr c" and "lib_contract L"
  shows "length pubR = 32 \<and> length secS = 32 \<and>
         c = encodeBase64 L (fst (randomBytes 24 e) @
               secretbox L pk (fst (randomBytes 24 e)) (box_before L pubR secS))"
  using assms
  by (auto simp: encryptProjectKey_def nacl_box_def nacl_box_before_def nacl_secretbox_def
      randomBytes_def split: option.splits if_splits sum.splits)

lemma decryptEnv_Inr:
  assumes "decryptEnv L c k = Inr s"
  shows "\<exists>combined m. decodeBase64 L c = Some combined \<and> length k = 32 \<and>
           secretbox_open L (drop 24 combined) (take 24 combined) k = Some m \<and>
           encodeUTF8 L m = Some s"
  using assms
  by (auto simp: decryptEnv_def nacl_secretbox_open_def Let_def
      split: option.splits if_splits sum.splits)

lemma decryptProjectKey_same_secret:
  assumes "lib_contract L" and "fst (encryptProjectKey L pk pubR secS e) = Inr c"
    and "length pub = 32" and "length sec = 32"
    and "box_before L pub sec = box_before L pubR secS"
  shows "decryptProjectKey L c pub sec = Inr pk"
proof -
  let ?n = "fst (randomBytes 24 e)"
  have c: "c = encodeBase64 L (?n @ secretbox L pk ?n (box_before L pubR secS))"
    using encryptProjectKey_Inr[OF assms(2,1)] by simp
  show ?thesis
    unfolding c using assms(1,3,4) randomBytes_length assms(5) by (rule decryptProjectKey_sealed)
qed

lemma decryptProjectKey_by_sender:
  assumes "lib_contract L" and "fst (encryptProjectKey L pk pubR secS e) = Inr c"
  shows "decryptProjectKey L c pubR secS = Inr pk"
proof -
  have "length pubR = 32" "length secS = 32"
    using encryptProjectKey_Inr[OF assms(2,1)] by simp_all
  then show ?thesis using assms decryptProjectKey_same_secret by blast
qed

lemma alice_bob_differ: "publicKey bob \<noteq> publicKey alice \<and> secretKey bob \<noteq> secretKey alice"
proof -
  have "hd (secretKey alice) = 1" "hd (secretKey bob) = 100"
       "hd (publicKey alice) = 3" "hd (publicKey bob) = 44"
    by (simp_all add: alice_def bob_def generateKeypair_def randomBytes_def count_from_def
        toy_lib_def upt_rec hd_map)
  then show ?thesis by auto
qed

lemma toy_sealed_env: "fst (encryptEnv toy_lib (str ''A=1'') pk0 (count_from 1)) = Inr sealed_env"
proof -
  have "length pk0 = 32" by (simp add: pk0_def)
  moreover have "decodeUTF8 toy_lib (str ''A=1'') = Some [65, 61, 49]"
    by (simp add: toy_lib_def str_def)
  ultimately show ?thesis unfolding sealed_env_def by (rule encryptEnv_result)
qed

lemma toy_identities: "identity toy_lib alice" "identity toy_lib bob" "identity toy_lib carol"
  unfolding alice_def bob_def carol_def by (rule generateKeypair_identity)+

lemma toy_key_sizes:
  "length (publicKey alice) = 32" "length (secretKey alice) = 32"
  "length (publicKey bob) = 32" "length (secretKey bob) = 32"
  "length (publicKey carol) = 32" "length (secretKey carol) = 32"
  using toy_identities toy_lib_contract by (simp_all add: identity_def contract_sizes)

lemma toy_sealed_key:
  "fst (encryptProjectKey toy_lib pk0 (publicKey bob) (secretKey alice) (count_from 1)) =
   Inr sealed_key"
  unfolding sealed_key_def
  using toy_key_sizes(3) toy_key_sizes(2) toy_lib_contract by (rule encryptProjectKey_result)

lemma toy_carol_secret:
  "box_before toy_lib (publicKey alice) (secretKey carol) \<noteq>
   box_before toy_lib (publicKey bob) (secretKey alice)"
proof -
  have "hd (box_before toy_lib (publicKey alice) (secretKey carol)) = 88"
       "hd (box_before toy_lib (publicKey bob) (secretKey alice)) = 44"
    by (simp_all add: alice_def bob_def carol_def generateKeypair_def randomBytes_def
        count_from_def toy_lib_def upt_rec)
  then show ?thesis by auto
qed

lemma encryptEnv_malformed:
  assumes "decodeUTF8 L p = None"
  shows "fst (encryptEnv L p k e) = Inl (Library URIMalformed)"
  using assms by (simp add: encryptEnv_def split: prod.splits)

lemma decryptEnv_opened:
  assumes "lib_contract L" and "length n = 24"
  shows "decryptEnv L (encodeBase64 L (n @ box)) k =
         (if length k \<noteq> 32 then Inl (Library BadKeySize)
          else case secretbox_open L box n k of
                 None \<Rightarrow> Inl DecryptionFailed
               | Some m \<Rightarrow> (case encodeUTF8 L m of
                              None \<Rightarrow> Inl (Library URIMalformed)
                            | Some s \<Rightarrow> Inr s))"
  using assms
  by (simp add: decryptEnv_def contract_base64 nacl_secretbox_open_def split: option.splits)

lemma decryptProjectKey_opened:
  assumes "lib_contract L" and "length n = 24"
  shows "decryptProjectKey L (encodeBase64 L (n @ box)) pub sec =
         (if length pub \<noteq> 32 then Inl (Library BadPublicKeySize)
          else if length sec \<noteq> 32 then Inl (Library BadSecretKeySize)
          else case secretbox_open L box n (box_before L pub sec) of
                 None \<Rightarrow> Inl ProjectKeyFailed
               | Some x \<Rightarrow> Inr x)"
  using assms
  by (simp add: decryptProjectKey_def contract_base64 nacl_box_open_def nacl_box_before_def
      nacl_secretbox_open_def contract_sizes split: option.splits)

lemma keys_of_size:
  "finite {k :: bytes. length k = n}" "card {k :: bytes. length k = n} = 256 ^ n"
  using finite_lists_length_eq[of "UNIV :: 8 word set" n]
    card_lists_length_eq[of "UNIV :: 8 word set" n]
  by (simp_all add: card_word)

lemma keys_collide:
  assumes "tweetnacl_sizes L" and "length n = 24"
  shows "\<exists>k1 k2. length k1 = 32 \<and> length k2 = 32 \<and> k2 \<noteq> k1 \<and>
           secretbox L [] n k1 = secretbox L [] n k2"
proof -
  let ?K = "{k :: bytes. length k = 32}"
  let ?T = "{c :: bytes. length c = 16}"
  let ?f = "\<lambda>k. secretbox L [] n k"
  have "?f ` ?K \<subseteq> ?T"
    using assms by (auto simp: tweetnacl_sizes_def)
  then have "card (?f ` ?K) \<le> card ?T"
    using keys_of_size(1) by (rule card_mono[rotated])
  also have "\<dots> < card ?K"
    by (simp add: keys_of_size(2))
  finally have "\<not> inj_on ?f ?K" using pigeonhole by blast
  then obtain k1 k2 where "k1 \<in> ?K" "k2 \<in> ?K" "k1 \<noteq> k2" "?f k1 = ?f k2"
    unfolding inj_on_def by blast
  then show ?thesis by auto
qed

lemma short_tag_lib_contract: "lib_contract short_tag_lib"
  using toy_lib_contract by (simp add: lib_contract_def short_tag_lib_def)

lemma short_tag_lib_sizes: "tweetnacl_sizes short_tag_lib"
  by (simp add: tweetnacl_sizes_def short_tag_lib_def toy_lib_def)

lemma toy_lone_surrogate: "decodeUTF8 toy_lib lone_surrogate = None"
  by (simp add: toy_lib_def lone_surrogate_def)

lemma toy_decode_example: "decodeUTF8 toy_lib (str ''A=1'') = Some [65, 61, 49]"
  by (simp add: toy_lib_def str_def)

lemma stuck_entropy_bytes:
  "fst (randomBytes 24 stuck_entropy) = replicate 24 0"
  "snd (randomBytes 24 stuck_entropy) = stuck_entropy"
proof -
  have "map stuck_entropy [0..<24] = replicate 24 0"
    by (rule nth_equalityI) (simp_all add: stuck_entropy_def)
  then show "fst (randomBytes 24 stuck_entropy) = replicate 24 0"
    by (simp add: randomBytes_def)
  have "(\<lambda>i. stuck_entropy (i + 24)) = stuck_entropy"
    by (rule ext) (simp add: stuck_entropy_def)
  then show "snd (randomBytes 24 stuck_entropy) = stuck_entropy"
    by (simp add: randomBytes_def)
qed

subsection \<open>The claims on encryption\<close>

text \<open>
  Claim C1, amended. For every 32-byte project key and every plaintext that
  \<open>decodeUTF8\<close> encodes, whatever the entropy that gives the nonce, \<open>encryptEnv\<close>
  returns a ciphertext and \<open>decryptEnv\<close> of it under the same key returns the
  plaintext. For every other plaintext \<open>encryptEnv\<close> raises the \<^verbatim>\<open>URIError\<close> of
  \<open>decodeUTF8\<close> and there is no ciphertext.
\<close>

theorem encryptEnv_decryptEnv_roundtrip:
  assumes "lib_contract L" and "length k = 32"
  shows "case decodeUTF8 L p of
           None \<Rightarrow> fst (encryptEnv L p k e) = Inl (Library URIMalformed)
         | Some m \<Rightarrow> (\<exists>c. fst (encryptEnv L p k e) = Inr c \<and> decryptEnv L c k = Inr p)"
proof (cases "decodeUTF8 L p")
  case None
  then show ?thesis by (simp add: encryptEnv_malformed)
next
  case (Some m)
  let ?n = "fst (randomBytes 24 e)"
  have "fst (encryptEnv L p k e) = Inr (encodeBase64 L (?n @ secretbox L m ?n k))"
    using assms(2) Some by (rule encryptEnv_result)
  moreover have "decryptEnv L (encodeBase64 L (?n @ secretbox L m ?n k)) k = Inr p"
    using assms(1,2) randomBytes_length Some by (rule decryptEnv_sealed)
  ultimately show ?thesis using Some by simp
qed

text \<open>
  C1 in the reference instance: the round trip of the document \<^verbatim>\<open>A=1\<close>, and the
  exception for a lone surrogate.
\<close>

theorem encryptEnv_decryptEnv_roundtrip_witness:
  "lib_contract toy_lib \<and> length pk0 = 32 \<and>
   decodeUTF8 toy_lib (str ''A=1'') = Some [65, 61, 49] \<and>
   (\<exists>c. fst (encryptEnv toy_lib (str ''A=1'') pk0 (count_from 1)) = Inr c \<and>
        decryptEnv toy_lib c pk0 = Inr (str ''A=1'')) \<and>
   decodeUTF8 toy_lib lone_surrogate = None \<and>
   fst (encryptEnv toy_lib lone_surrogate pk0 (count_from 1)) = Inl (Library URIMalformed)"
proof -
  have h1: "lib_contract toy_lib" by (rule toy_lib_contract)
  have h2: "length pk0 = 32" by (simp add: pk0_def)
  show ?thesis
    using h1 h2 toy_decode_example toy_lone_surrogate
      encryptEnv_decryptEnv_roundtrip [OF h1 h2, of "str ''A=1''" "count_from 1"]
      encryptEnv_decryptEnv_roundtrip [OF h1 h2, of lone_surrogate "count_from 1"]
    by simp
qed

text \<open>
  Claim C1 as stated fails for a plaintext that is no well-formed string. For the
  string of one lone surrogate \<^verbatim>\<open>"\uD800"\<close>, \<open>decodeUTF8\<close> throws, in tweetnacl-util as
  in the reference instance, and \<open>encryptEnv\<close> raises instead of returning a
  ciphertext that decrypts to the plaintext.
\<close>

theorem lone_surrogate_counterexample:
  "length pk0 = 32 \<and>
   fst (encryptEnv toy_lib lone_surrogate pk0 (count_from 1)) = Inl (Library URIMalformed) \<and>
   fst (encryptEnv toy_lib lone_surrogate pk0 stuck_entropy) = Inl (Library URIMalformed)"
  using toy_lone_surrogate by (simp add: encryptEnv_malformed pk0_def)

text \<open>
  Claim C2. For every project key and every two identity keypairs A and B, the key
  wrapped by A for B (B's public key, A's secret key) is unwrapped by B
  (A's public key, B's secret key) to the project key.
\<close>

theorem key_wrap_roundtrip:
  assumes "lib_contract L" and "identity L A" and "identity L B"
  shows "\<exists>c. fst (encryptProjectKey L pk (publicKey B) (secretKey A) e) = Inr c \<and>
             decryptProjectKey L c (publicKey A) (secretKey B) = Inr pk"
proof -
  let ?n = "fst (randomBytes 24 e)"
  let ?K = "box_before L (publicKey B) (secretKey A)"
  have A: "length (secretKey A) = 32" "length (publicKey A) = 32"
    and B: "length (secretKey B) = 32" "length (publicKey B) = 32"
    using assms by (simp_all add: identity_def contract_sizes)
  have agree: "box_before L (publicKey A) (secretKey B) = ?K"
    using assms contract_agree[of L "secretKey B" "secretKey A"] by (simp add: identity_def)
  have "fst (encryptProjectKey L pk (publicKey B) (secretKey A) e) =
        Inr (encodeBase64 L (?n @ secretbox L pk ?n ?K))"
    using B(2) A(1) assms(1) by (rule encryptProjectKey_result)
  moreover have "decryptProjectKey L (encodeBase64 L (?n @ secretbox L pk ?n ?K))
                   (publicKey A) (secretKey B) = Inr pk"
    using assms(1) A(2) B(1) randomBytes_length agree by (rule decryptProjectKey_sealed)
  ultimately show ?thesis by blast
qed

text \<open>The key-wrap round trip of C2 for the identities \<open>alice\<close> and \<open>bob\<close>.\<close>

theorem key_wrap_roundtrip_witness:
  "lib_contract toy_lib \<and> identity toy_lib alice \<and> identity toy_lib bob \<and>
   (\<exists>c. fst (encryptProjectKey toy_lib pk0 (publicKey bob) (secretKey alice) (count_from 1)) = Inr c \<and>
        decryptProjectKey toy_lib c (publicKey alice) (secretKey bob) = Inr pk0)"
proof -
  have h1: "lib_contract toy_lib" by (rule toy_lib_contract)
  have h2: "identity toy_lib alice" unfolding alice_def by (rule generateKeypair_identity)
  have h3: "identity toy_lib bob" unfolding bob_def by (rule generateKeypair_identity)
  show ?thesis
    using h1 h2 h3 key_wrap_roundtrip [OF h1 h2 h3, of pk0 "count_from 1"] by simp
qed

text \<open>
  Claim C6, amended. \<open>decryptEnv\<close> under a key \<open>k2\<close> of what \<open>encryptEnv\<close> made under a
  32-byte key \<open>k1\<close> gives the nonce and the box of that encryption to
  \<^verbatim>\<open>nacl.secretbox.open\<close> under \<open>k2\<close>: it raises \<open>DecryptionFailed\<close> whenever the cipher
  rejects, raises the size error of the library for a key that has not 32 bytes, and
  returns data only when the cipher authenticated the box under \<open>k2\<close>.
  \<open>decryptProjectKey\<close> with a pair of keys is decided in the same way by the shared
  key that \<^verbatim>\<open>nacl.box.before\<close> derives from the pair: it raises \<open>ProjectKeyFailed\<close>
  whenever the cipher rejects that shared key. The pair with swapped roles, the
  recipient's public key and the sender's secret key, derives the shared key of the
  sender: unwrapping with it returns the project key. That the cipher rejects every
  other key is not absolute: with the sizes of tweetnacl there are, for every
  nonce, two different 32-byte keys such that \<open>decryptEnv\<close> under the second returns
  the empty plaintext encrypted under the first.
\<close>

theorem wrong_keys_fail_closed:
  assumes "lib_contract L"
  shows "(length k1 = 32 \<and> decodeUTF8 L p = Some m \<longrightarrow>
            (\<exists>c. fst (encryptEnv L p k1 e) = Inr c \<and>
               decryptEnv L c k2 =
                 (if length k2 \<noteq> 32 then Inl (Library BadKeySize)
                  else case secretbox_open L
                              (secretbox L m (fst (randomBytes 24 e)) k1)
                              (fst (randomBytes 24 e)) k2 of
                         None \<Rightarrow> Inl DecryptionFailed
                       | Some m' \<Rightarrow> (case encodeUTF8 L m' of
                                       None \<Rightarrow> Inl (Library URIMalformed)
                                     | Some s \<Rightarrow> Inr s)))) \<and>
         (length pubR = 32 \<and> length secS = 32 \<longrightarrow>
            (\<exists>c. fst (encryptProjectKey L pk pubR secS e) = Inr c \<and>
               decryptProjectKey L c pub sec =
                 (if length pub \<noteq> 32 then Inl (Library BadPublicKeySize)
                  else if length sec \<noteq> 32 then Inl (Library BadSecretKeySize)
                  else case secretbox_open L
                              (secretbox L pk (fst (randomBytes 24 e)) (box_before L pubR secS))
                              (fst (randomBytes 24 e)) (box_before L pub sec) of
                         None \<Rightarrow> Inl ProjectKeyFailed
                       | Some x \<Rightarrow> Inr x) \<and>
               decryptProjectKey L c pubR secS = Inr pk)) \<and>
         (tweetnacl_sizes L \<longrightarrow>
            (\<exists>k1' k2' c. length k1' = 32 \<and> length k2' = 32 \<and> k2' \<noteq> k1' \<and>
               fst (encryptEnv L [] k1' e) = Inr c \<and> decryptEnv L c k2' = Inr []))"
proof (intro conjI impI)
  let ?n = "fst (randomBytes 24 e)"
  have n: "length ?n = 24" by (rule randomBytes_length)
  {
    assume a: "length k1 = 32 \<and> decodeUTF8 L p = Some m"
    then have "fst (encryptEnv L p k1 e) = Inr (encodeBase64 L (?n @ secretbox L m ?n k1))"
      by (simp add: encryptEnv_result)
    then show "\<exists>c. fst (encryptEnv L p k1 e) = Inr c \<and>
               decryptEnv L c k2 =
                 (if length k2 \<noteq> 32 then Inl (Library BadKeySize)
                  else case secretbox_open L (secretbox L m ?n k1) ?n k2 of
                         None \<Rightarrow> Inl DecryptionFailed
                       | Some m' \<Rightarrow> (case encodeUTF8 L m' of
                                       None \<Rightarrow> Inl (Library URIMalformed)
                                     | Some s \<Rightarrow> Inr s))"
      using decryptEnv_opened[OF assms n] by simp
  }
  {
    assume a: "length pubR = 32 \<and> length secS = 32"
    let ?c = "encodeBase64 L (?n @ secretbox L pk ?n (box_before L pubR secS))"
    have c: "fst (encryptProjectKey L pk pubR secS e) = Inr ?c"
      using a assms by (simp add: encryptProjectKey_result)
    have "decryptProjectKey L ?c pubR secS = Inr pk"
      using assms c by (rule decryptProjectKey_by_sender)
    then show "\<exists>c. fst (encryptProjectKey L pk pubR secS e) = Inr c \<and>
               decryptProjectKey L c pub sec =
                 (if length pub \<noteq> 32 then Inl (Library BadPublicKeySize)
                  else if length sec \<noteq> 32 then Inl (Library BadSecretKeySize)
                  else case secretbox_open L (secretbox L pk ?n (box_before L pubR secS))
                              ?n (box_before L pub sec) of
                         None \<Rightarrow> Inl ProjectKeyFailed
                       | Some x \<Rightarrow> Inr x) \<and>
               decryptProjectKey L c pubR secS = Inr pk"
      using c decryptProjectKey_opened[OF assms n] by simp
  }
  {
    assume s: "tweetnacl_sizes L"
    from keys_collide[OF s n] obtain k1' k2' where
      k: "length k1' = 32" "length k2' = 32" "k2' \<noteq> k1'"
         "secretbox L [] ?n k1' = secretbox L [] ?n k2'"
      by blast
    have d: "decodeUTF8 L [] = Some []" using s by (simp add: tweetnacl_sizes_def)
    have "fst (encryptEnv L [] k1' e) = Inr (encodeBase64 L (?n @ secretbox L [] ?n k1'))"
      using k(1) d by (rule encryptEnv_result)
    moreover have "decryptEnv L (encodeBase64 L (?n @ secretbox L [] ?n k1')) k2' = Inr []"
      unfolding k(4) using assms k(2) n d by (rule decryptEnv_sealed)
    ultimately show "\<exists>k1' k2' c. length k1' = 32 \<and> length k2' = 32 \<and> k2' \<noteq> k1' \<and>
               fst (encryptEnv L [] k1' e) = Inr c \<and> decryptEnv L c k2' = Inr []"
      using k by blast
  }
qed

text \<open>
  The cases of C6 in the reference instance, where a box opens under no key but
  its own: a wrong symmetric key, \<open>carol\<close> trying to unwrap the key sealed by \<open>alice\<close>
  for \<open>bob\<close>, and the sender's own pair. In the instance with the sizes of
  tweetnacl two keys collide.
\<close>

theorem wrong_keys_fail_closed_witness:
  "lib_contract toy_lib \<and> length pk0 = 32 \<and>
   decodeUTF8 toy_lib (str ''A=1'') = Some [65, 61, 49] \<and> replicate 32 9 \<noteq> pk0 \<and>
   fst (encryptEnv toy_lib (str ''A=1'') pk0 (count_from 1)) = Inr sealed_env \<and>
   decryptEnv toy_lib sealed_env (replicate 32 9) = Inl DecryptionFailed \<and>
   decryptEnv toy_lib sealed_env (replicate 31 9) = Inl (Library BadKeySize) \<and>
   decryptEnv toy_lib sealed_env pk0 = Inr (str ''A=1'') \<and>
   length (publicKey bob) = 32 \<and> length (secretKey alice) = 32 \<and>
   fst (encryptProjectKey toy_lib pk0 (publicKey bob) (secretKey alice) (count_from 1)) =
     Inr sealed_key \<and>
   decryptProjectKey toy_lib sealed_key (publicKey alice) (secretKey carol) =
     Inl ProjectKeyFailed \<and>
   decryptProjectKey toy_lib sealed_key (publicKey bob) (secretKey alice) = Inr pk0 \<and>
   lib_contract short_tag_lib \<and> tweetnacl_sizes short_tag_lib \<and>
   (\<exists>k1 k2 c. length k1 = 32 \<and> length k2 = 32 \<and> k2 \<noteq> k1 \<and>
      fst (encryptEnv short_tag_lib [] k1 (count_from 1)) = Inr c \<and>
      decryptEnv short_tag_lib c k2 = Inr [])"
proof -
  let ?n = "fst (randomBytes 24 (count_from 1))"
  have h1: "lib_contract toy_lib" by (rule toy_lib_contract)
  have h2: "length pk0 = 32" "replicate 32 9 \<noteq> pk0" by (simp_all add: pk0_def)
  have h3: "length (publicKey bob) = 32 \<and> length (secretKey alice) = 32"
    using toy_key_sizes by simp
  have sizes: "length (publicKey alice) = 32" "length (secretKey carol) = 32"
    using toy_key_sizes by simp_all
  have env: "length pk0 = 32 \<and> decodeUTF8 toy_lib (str ''A=1'') = Some [65, 61, 49]"
    using h2 toy_decode_example by simp
  have E: "decryptEnv toy_lib sealed_env k2 =
      (if length k2 \<noteq> 32 then Inl (Library BadKeySize)
       else case secretbox_open toy_lib (secretbox toy_lib [65, 61, 49] ?n pk0) ?n k2 of
              None \<Rightarrow> Inl DecryptionFailed
            | Some m' \<Rightarrow> (case encodeUTF8 toy_lib m' of
                            None \<Rightarrow> Inl (Library URIMalformed)
                          | Some s \<Rightarrow> Inr s))" for k2
  proof -
    from wrong_keys_fail_closed [OF h1, of pk0 "str ''A=1''" "[65, 61, 49]" "count_from 1" k2]
      env
    obtain c where c: "fst (encryptEnv toy_lib (str ''A=1'') pk0 (count_from 1)) = Inr c"
      "decryptEnv toy_lib c k2 =
      (if length k2 \<noteq> 32 then Inl (Library BadKeySize)
       else case secretbox_open toy_lib (secretbox toy_lib [65, 61, 49] ?n pk0) ?n k2 of
              None \<Rightarrow> Inl DecryptionFailed
            | Some m' \<Rightarrow> (case encodeUTF8 toy_lib m' of
                            None \<Rightarrow> Inl (Library URIMalformed)
                          | Some s \<Rightarrow> Inr s))"
      by blast
    from c(1) toy_sealed_env have "c = sealed_env" by simp
    with c(2) show ?thesis by simp
  qed
  have K: "decryptProjectKey toy_lib sealed_key pub sec =
      (if length pub \<noteq> 32 then Inl (Library BadPublicKeySize)
       else if length sec \<noteq> 32 then Inl (Library BadSecretKeySize)
       else case secretbox_open toy_lib
                   (secretbox toy_lib pk0 ?n (box_before toy_lib (publicKey bob) (secretKey alice)))
                   ?n (box_before toy_lib pub sec) of
              None \<Rightarrow> Inl ProjectKeyFailed
            | Some x \<Rightarrow> Inr x) \<and>
      decryptProjectKey toy_lib sealed_key (publicKey bob) (secretKey alice) = Inr pk0"
    for pub sec
  proof -
    from wrong_keys_fail_closed [OF h1, of _ _ _ "count_from 1" _
        "publicKey bob" "secretKey alice" pk0 pub sec] h3
    obtain c where c:
      "fst (encryptProjectKey toy_lib pk0 (publicKey bob) (secretKey alice) (count_from 1)) =
         Inr c"
      "decryptProjectKey toy_lib c pub sec =
      (if length pub \<noteq> 32 then Inl (Library BadPublicKeySize)
       else if length sec \<noteq> 32 then Inl (Library BadSecretKeySize)
       else case secretbox_open toy_lib
                   (secretbox toy_lib pk0 ?n (box_before toy_lib (publicKey bob) (secretKey alice)))
                   ?n (box_before toy_lib pub sec) of
              None \<Rightarrow> Inl ProjectKeyFailed
            | Some x \<Rightarrow> Inr x)"
      "decryptProjectKey toy_lib c (publicKey bob) (secretKey alice) = Inr pk0"
      by blast
    from c(1) toy_sealed_key have "c = sealed_key" by simp
    with c(2,3) show ?thesis by simp
  qed
  have open_other: "secretbox_open toy_lib (secretbox toy_lib [65, 61, 49] ?n pk0) ?n
                      (replicate 32 9) = None"
    using h2 by (simp add: toy_lib_def)
  have open_own: "secretbox_open toy_lib (secretbox toy_lib [65, 61, 49] ?n pk0) ?n pk0 =
                    Some [65, 61, 49]"
    using h1 h2(1) randomBytes_length by (rule contract_open)
  have utf8: "encodeUTF8 toy_lib [65, 61, 49] = Some (str ''A=1'')"
    using h1 toy_decode_example by (simp add: contract_utf8[symmetric])
  have e1: "decryptEnv toy_lib sealed_env (replicate 32 9) = Inl DecryptionFailed"
    unfolding E[of "replicate 32 9"] open_other by simp
  have e2: "decryptEnv toy_lib sealed_env (replicate 31 9) = Inl (Library BadKeySize)"
    unfolding E[of "replicate 31 9"] by simp
  have e3: "decryptEnv toy_lib sealed_env pk0 = Inr (str ''A=1'')"
    unfolding E[of pk0] open_own using utf8 h2(1) by simp
  have shared: "length (box_before toy_lib (publicKey bob) (secretKey alice)) = 32"
    using h1 h3 by (simp add: contract_sizes)
  have open_carol: "secretbox_open toy_lib
      (secretbox toy_lib pk0 ?n (box_before toy_lib (publicKey bob) (secretKey alice))) ?n
      (box_before toy_lib (publicKey alice) (secretKey carol)) = None"
    using toy_carol_secret shared by (simp add: toy_lib_def)
  have k1: "decryptProjectKey toy_lib sealed_key (publicKey alice) (secretKey carol) =
              Inl ProjectKeyFailed"
    using K[of "publicKey alice" "secretKey carol", THEN conjunct1] sizes
    unfolding open_carol by simp
  have k2: "decryptProjectKey toy_lib sealed_key (publicKey bob) (secretKey alice) = Inr pk0"
    using K by blast
  have g1: "lib_contract short_tag_lib" by (rule short_tag_lib_contract)
  have g2: "tweetnacl_sizes short_tag_lib" by (rule short_tag_lib_sizes)
  have k3: "\<exists>k1 k2 c. length k1 = 32 \<and> length k2 = 32 \<and> k2 \<noteq> k1 \<and>
      fst (encryptEnv short_tag_lib [] k1 (count_from 1)) = Inr c \<and>
      decryptEnv short_tag_lib c k2 = Inr []"
    using wrong_keys_fail_closed [OF g1, of _ _ _ "count_from 1"] g2 by blast
  show ?thesis
    using h1 h2 env toy_sealed_env e1 e2 e3 h3 toy_sealed_key k1 k2 g1 g2 k3 by blast
qed

text \<open>
  Claim C6 as stated fails for swapped roles. \<open>alice\<close> wraps the key for \<open>bob\<close>; the
  unwrap call with the roles of sender and recipient swapped, that is with the
  recipient's public key as sender key and the sender's secret key as recipient
  key, derives the same shared key and returns the project key instead of raising.
\<close>

theorem swapped_roles_counterexample:
  "publicKey bob \<noteq> publicKey alice \<and> secretKey bob \<noteq> secretKey alice \<and>
   (case fst (encryptProjectKey toy_lib pk0 (publicKey bob) (secretKey alice) (count_from 1)) of
      Inl err \<Rightarrow> False
    | Inr c \<Rightarrow> decryptProjectKey toy_lib c (publicKey bob) (secretKey alice) = Inr pk0)"
proof -
  have "identity toy_lib alice" "identity toy_lib bob"
    unfolding alice_def bob_def by (rule generateKeypair_identity)+
  then have "length (publicKey bob) = 32" "length (secretKey alice) = 32"
    using toy_lib_contract by (simp_all add: identity_def contract_sizes)
  then have "fst (encryptProjectKey toy_lib pk0 (publicKey bob) (secretKey alice) (count_from 1)) =
        Inr (encodeBase64 toy_lib (fst (randomBytes 24 (count_from 1)) @
               secretbox toy_lib pk0 (fst (randomBytes 24 (count_from 1)))
                 (box_before toy_lib (publicKey bob) (secretKey alice))))"
    using toy_lib_contract by (rule encryptProjectKey_result)
  then show ?thesis
    using decryptProjectKey_by_sender[OF toy_lib_contract] alice_bob_differ by simp
qed

text \<open>
  Claim C8, amended. For every 32-byte project key and every plaintext that
  \<open>decodeUTF8\<close> encodes, \<open>encryptEnv\<close> returns the Base64 encoding of a 24-byte nonce
  followed by the authenticated ciphertext, and \<open>decryptEnv\<close> maps the output back to
  the plaintext. The nonce is drawn anew at every call: it is the next 24 bytes of
  the random source, and a second call takes the 24 bytes after them. The outputs of
  two calls with the same plaintext and key differ exactly when the two draws
  differ. For a plaintext that \<open>decodeUTF8\<close> does not encode both calls raise.
\<close>

theorem encryptEnv_fresh_nonce:
  assumes "lib_contract L" and "length k = 32"
  shows "(let nonce1 = fst (randomBytes 24 e);
              e1 = snd (encryptEnv L p k e);
              nonce2 = fst (randomBytes 24 e1);
              r1 = fst (encryptEnv L p k e);
              r2 = fst (encryptEnv L p k e1)
          in nonce1 = map e [0..<24] \<and> nonce2 = map e [24..<48] \<and>
             length nonce1 = 24 \<and> length nonce2 = 24 \<and>
             (case decodeUTF8 L p of
                None \<Rightarrow> r1 = Inl (Library URIMalformed) \<and> r2 = Inl (Library URIMalformed)
              | Some m \<Rightarrow>
                  r1 = Inr (encodeBase64 L (nonce1 @ secretbox L m nonce1 k)) \<and>
                  r2 = Inr (encodeBase64 L (nonce2 @ secretbox L m nonce2 k)) \<and>
                  (r1 \<noteq> r2 \<longleftrightarrow> nonce1 \<noteq> nonce2) \<and>
                  decryptEnv L (encodeBase64 L (nonce1 @ secretbox L m nonce1 k)) k = Inr p \<and>
                  decryptEnv L (encodeBase64 L (nonce2 @ secretbox L m nonce2 k)) k = Inr p))"
proof -
  let ?n1 = "fst (randomBytes 24 e)"
  let ?e1 = "snd (encryptEnv L p k e)"
  let ?n2 = "fst (randomBytes 24 ?e1)"
  have n1: "?n1 = map e [0..<24]" by (simp add: randomBytes_def)
  have "[24..<48] = map (\<lambda>i. i + 24) [0..<24]" by (simp add: map_add_upt)
  then have n2: "?n2 = map e [24..<48]"
    by (simp add: encryptEnv_entropy randomBytes_def comp_def)
  have len: "length ?n1 = 24" "length ?n2 = 24" by (rule randomBytes_length)+
  have cases: "case decodeUTF8 L p of
      None \<Rightarrow> fst (encryptEnv L p k e) = Inl (Library URIMalformed) \<and>
               fst (encryptEnv L p k ?e1) = Inl (Library URIMalformed)
    | Some m \<Rightarrow>
        fst (encryptEnv L p k e) = Inr (encodeBase64 L (?n1 @ secretbox L m ?n1 k)) \<and>
        fst (encryptEnv L p k ?e1) = Inr (encodeBase64 L (?n2 @ secretbox L m ?n2 k)) \<and>
        (fst (encryptEnv L p k e) \<noteq> fst (encryptEnv L p k ?e1) \<longleftrightarrow> ?n1 \<noteq> ?n2) \<and>
        decryptEnv L (encodeBase64 L (?n1 @ secretbox L m ?n1 k)) k = Inr p \<and>
        decryptEnv L (encodeBase64 L (?n2 @ secretbox L m ?n2 k)) k = Inr p"
  proof (cases "decodeUTF8 L p")
    case None
    then show ?thesis by (simp add: encryptEnv_malformed)
  next
    case (Some m)
    let ?c1 = "encodeBase64 L (?n1 @ secretbox L m ?n1 k)"
    let ?c2 = "encodeBase64 L (?n2 @ secretbox L m ?n2 k)"
    have r1: "fst (encryptEnv L p k e) = Inr ?c1"
      using assms(2) Some by (rule encryptEnv_result)
    have r2: "fst (encryptEnv L p k ?e1) = Inr ?c2"
      using assms(2) Some by (rule encryptEnv_result)
    have d1: "decryptEnv L ?c1 k = Inr p"
      using assms(1,2) len(1) Some by (rule decryptEnv_sealed)
    have d2: "decryptEnv L ?c2 k = Inr p"
      using assms(1,2) len(2) Some by (rule decryptEnv_sealed)
    have "?c1 = ?c2 \<longleftrightarrow> ?n1 = ?n2"
    proof
      assume "?c1 = ?c2"
      then have "?n1 @ secretbox L m ?n1 k = ?n2 @ secretbox L m ?n2 k"
        using assms(1) encodeBase64_inj by blast
      then show "?n1 = ?n2" using len by (simp add: append_eq_append_conv)
    next
      assume "?n1 = ?n2"
      then show "?c1 = ?c2" by simp
    qed
    then have "fst (encryptEnv L p k e) \<noteq> fst (encryptEnv L p k ?e1) \<longleftrightarrow> ?n1 \<noteq> ?n2"
      unfolding r1 r2 by simp
    then show ?thesis using Some r1 r2 d1 d2 by simp
  qed
  show ?thesis
    unfolding Let_def using n1 n2 len cases by blast
qed

text \<open>
  C8 for two encryptions of \<^verbatim>\<open>A=1\<close> under one key with a random source that counts:
  the nonces differ, and so do the outputs.
\<close>

theorem encryptEnv_fresh_nonce_witness:
  "lib_contract toy_lib \<and> length pk0 = 32 \<and>
   decodeUTF8 toy_lib (str ''A=1'') = Some [65, 61, 49] \<and>
   fst (randomBytes 24 (count_from 1)) \<noteq>
   fst (randomBytes 24 (snd (encryptEnv toy_lib (str ''A=1'') pk0 (count_from 1)))) \<and>
   fst (encryptEnv toy_lib (str ''A=1'') pk0 (count_from 1)) \<noteq>
   fst (encryptEnv toy_lib (str ''A=1'') pk0
          (snd (encryptEnv toy_lib (str ''A=1'') pk0 (count_from 1))))"
proof -
  let ?e1 = "snd (encryptEnv toy_lib (str ''A=1'') pk0 (count_from 1))"
  have h1: "lib_contract toy_lib" by (rule toy_lib_contract)
  have h2: "length pk0 = 32" by (simp add: pk0_def)
  note h3 = toy_decode_example
  note T = encryptEnv_fresh_nonce [OF h1 h2, of "count_from 1" "str ''A=1''", unfolded Let_def]
  have n: "fst (randomBytes 24 (count_from 1)) = map (count_from 1) [0..<24]"
          "fst (randomBytes 24 ?e1) = map (count_from 1) [24..<48]"
    using T by blast+
  have "hd (map (count_from 1) [0..<24]) \<noteq> hd (map (count_from 1) [24..<48])"
    by (simp add: count_from_def upt_rec hd_map)
  then have "map (count_from 1) [0..<24] \<noteq> map (count_from 1) [24..<48]" by metis
  then have h4: "fst (randomBytes 24 (count_from 1)) \<noteq> fst (randomBytes 24 ?e1)"
    using n by metis
  from T have "case decodeUTF8 toy_lib (str ''A=1'') of
      None \<Rightarrow> True
    | Some m \<Rightarrow> (fst (encryptEnv toy_lib (str ''A=1'') pk0 (count_from 1)) \<noteq>
                 fst (encryptEnv toy_lib (str ''A=1'') pk0 ?e1)) =
                (fst (randomBytes 24 (count_from 1)) \<noteq> fst (randomBytes 24 ?e1))"
    by (auto split: option.splits)
  then have "fst (encryptEnv toy_lib (str ''A=1'') pk0 (count_from 1)) \<noteq>
             fst (encryptEnv toy_lib (str ''A=1'') pk0 ?e1)"
    using h3 h4 by simp
  then show ?thesis using h1 h2 h3 h4 by blast
qed

text \<open>
  Claim C8 as stated fails when the random source repeats itself. With a source
  that returns zero bytes only, two calls of \<open>encryptEnv\<close> with the same plaintext
  and key return the same string: the nonce is whatever the source gives, nothing
  in \<open>encryptEnv\<close> makes the second nonce differ from the first.
\<close>

theorem stuck_entropy_counterexample:
  "fst (encryptEnv toy_lib (str ''A=1'') pk0 stuck_entropy) =
     Inr (encodeBase64 toy_lib
            (replicate 24 0 @ secretbox toy_lib [65, 61, 49] (replicate 24 0) pk0)) \<and>
   fst (encryptEnv toy_lib (str ''A=1'') pk0
          (snd (encryptEnv toy_lib (str ''A=1'') pk0 stuck_entropy))) =
     fst (encryptEnv toy_lib (str ''A=1'') pk0 stuck_entropy)"
proof -
  have "length pk0 = 32" by (simp add: pk0_def)
  then have "fst (encryptEnv toy_lib (str ''A=1'') pk0 stuck_entropy) =
     Inr (encodeBase64 toy_lib
            (fst (randomBytes 24 stuck_entropy) @
             secretbox toy_lib [65, 61, 49] (fst (randomBytes 24 stuck_entropy)) pk0))"
    using toy_decode_example by (rule encryptEnv_result)
  then show ?thesis
    by (simp add: stuck_entropy_bytes encryptEnv_entropy)
qed

section \<open>Properties of commands/diff.ts\<close>

lemma indexOf_Some:
  "indexOf t c = Some i \<Longrightarrow> t = take i t @ c # drop (Suc i) t \<and> c \<notin> set (take i t)"
proof (induction t arbitrary: i)
  case Nil then show ?case by simp
next
  case (Cons x xs)
  show ?case
  proof (cases "x = c")
    case True with Cons.prems show ?thesis by simp
  next
    case False
    with Cons.prems obtain j where j: "indexOf xs c = Some j" "i = Suc j" by auto
    with Cons.IH[of j] False show ?thesis by simp
  qed
qed

lemma indexOf_first:
  "c \<notin> set before \<Longrightarrow> indexOf (before @ c # after) c = Some (length before)"
  by (induction before) auto

lemma spec_entry_iff:
  "spec_entry line = Some (k, v) \<longleftrightarrow>
     (\<exists>before after. trim line = before @ 0x3D # after \<and> 0x3D \<notin> set before \<and>
        \<not> startsWith (trim line) 0x23 \<and> k = trim before \<and> v = trim after)"
proof
  assume "spec_entry line = Some (k, v)"
  then obtain i where i: "indexOf (trim line) 0x3D = Some i" "\<not> startsWith (trim line) 0x23"
      "k = trim (take i (trim line))" "v = trim (drop (Suc i) (trim line))"
    by (auto simp: spec_entry_def Let_def split: if_splits)
  from indexOf_Some[OF i(1)] i show "\<exists>before after. trim line = before @ 0x3D # after \<and>
      0x3D \<notin> set before \<and> \<not> startsWith (trim line) 0x23 \<and> k = trim before \<and> v = trim after"
    by blast
next
  assume "\<exists>before after. trim line = before @ 0x3D # after \<and> 0x3D \<notin> set before \<and>
        \<not> startsWith (trim line) 0x23 \<and> k = trim before \<and> v = trim after"
  then obtain before after where *: "trim line = before @ 0x3D # after" "0x3D \<notin> set before"
    "\<not> startsWith (trim line) 0x23" "k = trim before" "v = trim after" by blast
  have "indexOf (trim line) 0x3D = Some (length before)"
    using * by (simp add: indexOf_first)
  then show "spec_entry line = Some (k, v)"
    using * by (simp add: spec_entry_def Let_def)
qed

lemma parse_line_spec_entry:
  "parse_line m line = (case spec_entry line of None \<Rightarrow> m | Some (k, v) \<Rightarrow> Map_set m k v)"
  by (simp add: parse_line_def spec_entry_def Let_def split: option.splits)

lemma map_of_Map_set: "map_of (Map_set m k v) = (map_of m)(k \<mapsto> v)"
  by (induction m k v rule: Map_set.induct) (auto simp: fun_eq_iff)

lemma keys_Map_set: "set (map fst (Map_set m k v)) = insert k (set (map fst m))"
  by (induction m k v rule: Map_set.induct) auto

lemma distinct_Map_set: "distinct (map fst m) \<Longrightarrow> distinct (map fst (Map_set m k v))"
  by (induction m k v rule: Map_set.induct) (auto simp: keys_Map_set simp flip: set_map)

lemma distinct_parse_line: "distinct (map fst m) \<Longrightarrow> distinct (map fst (parse_line m line))"
  by (simp add: parse_line_spec_entry distinct_Map_set split: option.splits)

lemma distinct_foldl_parse:
  "distinct (map fst m) \<Longrightarrow> distinct (map fst (foldl parse_line m ls))"
  by (induction ls arbitrary: m) (simp_all add: distinct_parse_line)

lemma distinct_parseEnvContent: "distinct (map fst (parseEnvContent content))"
  by (simp add: parseEnvContent_def distinct_foldl_parse)

lemma map_of_foldl_parse:
  "map_of (foldl parse_line m ls) = map_of (rev (List.map_filter spec_entry ls) @ m)"
proof (induction ls arbitrary: m)
  case Nil then show ?case by (simp add:)
next
  case (Cons l ls)
  show ?case
  proof (cases "spec_entry l")
    case None
    then have "parse_line m l = m" by (simp add: parse_line_spec_entry)
    then show ?thesis using None Cons.IH[of m] by (simp add:)
  next
    case (Some e)
    obtain k v where e: "e = (k, v)" by (cases e)
    have step: "parse_line m l = Map_set m k v"
      using Some e by (simp add: parse_line_spec_entry)
    have "map_of (foldl parse_line (Map_set m k v) ls) =
          map_of (rev (List.map_filter spec_entry ls) @ Map_set m k v)"
      by (rule Cons.IH)
    also have "\<dots> = map_of (rev (List.map_filter spec_entry ls) @ (k, v) # m)"
      by (simp add: map_of_append map_of_Map_set fun_eq_iff map_add_def split: option.splits)
    finally show ?thesis using Some e step by (simp add:)
  qed
qed

lemma map_of_parseEnvContent:
  "map_of (parseEnvContent content) = map_of (rev (spec_entries content))"
  by (simp add: parseEnvContent_def spec_entries_def map_of_foldl_parse)

lemma foldl_diff_remote:
  "foldl (diff_remote_entry L) d es =
   d\<lparr>added := added d @ map (\<lambda>(k, v). k @ str ''='' @ v) (filter (\<lambda>(k, v). \<not> Map_has L k) es),
     changed := changed d @
        map (\<lambda>(k, v). \<lparr>key = k, local = the (Map_get L k), remote = v\<rparr>)
          (filter (\<lambda>(k, v). Map_has L k \<and> Map_get L k \<noteq> Some v) es)\<rparr>"
  by (induction es arbitrary: d) (auto simp: diff_remote_entry_def)

lemma foldl_diff_local:
  "foldl (diff_local_key L R) d ks =
   d\<lparr>removed := removed d @ map (\<lambda>k. k @ str ''='' @ the (Map_get L k))
                              (filter (\<lambda>k. \<not> Map_has R k) ks)\<rparr>"
  by (induction ks arbitrary: d) (auto simp: diff_local_key_def)

lemma Map_get_entry:
  "distinct (map fst m) \<Longrightarrow> (k, v) \<in> set m \<Longrightarrow> Map_get m k = Some v"
  by (simp add: Map_get_def)

lemma removed_entries:
  assumes "distinct (map fst L)"
  shows "map (\<lambda>k. k @ str ''='' @ the (Map_get L k)) (filter (\<lambda>k. \<not> Map_has R k) (map fst L)) =
         map (\<lambda>(k, v). k @ str ''='' @ v) (filter (\<lambda>(k, v). \<not> Map_has R k) L)"
proof -
  have "\<And>e. e \<in> set L \<Longrightarrow> the (Map_get L (fst e)) = snd e"
    using assms by (auto simp: Map_get_entry)
  then show ?thesis
    by (auto simp: filter_map comp_def case_prod_beta intro!: map_cong filter_cong)
qed

lemma diff_vars_lists:
  assumes "distinct (map fst L)"
  shows "diff_vars L R =
     \<lparr>added = map (\<lambda>(k, v). k @ str ''='' @ v) (filter (\<lambda>(k, v). \<not> Map_has L k) R),
      removed = map (\<lambda>(k, v). k @ str ''='' @ v) (filter (\<lambda>(k, v). \<not> Map_has R k) L),
      changed = map (\<lambda>(k, v). \<lparr>key = k, local = the (Map_get L k), remote = v\<rparr>)
                  (filter (\<lambda>(k, v). Map_has L k \<and> Map_get L k \<noteq> Some v) R)\<rparr>"
  using removed_entries[OF assms, of R]
  by (simp add: diff_vars_def Let_def foldl_diff_remote foldl_diff_local)

lemma diff_example:
  "diff_vars (parseEnvContent (str ''A=1\<newline>B=2'')) (parseEnvContent (str ''B=3\<newline>C=4'')) =
   \<lparr>added = [str ''C=4''], removed = [str ''A=1''],
    changed = [\<lparr>key = str ''B'', local = str ''2'', remote = str ''3''\<rparr>]\<rparr>"
  by (simp add: diff_vars_def parseEnvContent_def parse_line_def str_def trim_def
      js_whitespace_def startsWith_def diff_remote_entry_def diff_local_key_def
      Map_has_def Map_get_def)

text \<open>
  Claim C5. A line contributes an entry exactly when its trimmed form is not a
  comment and contains =; the entry is the trimmed text before the first = and the
  trimmed text after it. \<open>parseEnvContent\<close> maps each key to the value of its last
  entry in document order. The diff of two parsed documents reports as added the
  entries of remote whose key local lacks, as removed the entries of local whose key
  remote lacks, and as changed the keys of both whose value strings differ, with both
  values. For local \<^verbatim>\<open>A=1, B=2\<close> and remote \<^verbatim>\<open>B=3, C=4\<close> it reports added \<^verbatim>\<open>C=4\<close>,
  removed \<^verbatim>\<open>A=1\<close> and changed \<^verbatim>\<open>B\<close> from 2 to 3.
\<close>

theorem parse_and_diff:
  "(parse_line m line = (case spec_entry line of None \<Rightarrow> m | Some (k, v) \<Rightarrow> Map_set m k v)) \<and>
   (spec_entry line = Some (k, v) \<longleftrightarrow>
      (\<exists>before after. trim line = before @ 0x3D # after \<and> 0x3D \<notin> set before \<and>
         \<not> startsWith (trim line) 0x23 \<and> k = trim before \<and> v = trim after)) \<and>
   map_of (Map_set m k v) = (map_of m)(k \<mapsto> v) \<and>
   map_of (parseEnvContent content) = map_of (rev (spec_entries content)) \<and>
   distinct (map fst (parseEnvContent content)) \<and>
   (let localVars = parseEnvContent localContent;
        remoteVars = parseEnvContent remoteContent;
        d = diff_vars localVars remoteVars
    in added d = map (\<lambda>(k, v). k @ str ''='' @ v)
                   (filter (\<lambda>(k, v). map_of localVars k = None) remoteVars) \<and>
       removed d = map (\<lambda>(k, v). k @ str ''='' @ v)
                     (filter (\<lambda>(k, v). map_of remoteVars k = None) localVars) \<and>
       changed d = map (\<lambda>(k, v). \<lparr>key = k, local = the (map_of localVars k), remote = v\<rparr>)
                     (filter (\<lambda>(k, v). map_of localVars k \<noteq> None \<and> map_of localVars k \<noteq> Some v)
                        remoteVars)) \<and>
   diff_vars (parseEnvContent (str ''A=1\<newline>B=2'')) (parseEnvContent (str ''B=3\<newline>C=4'')) =
     \<lparr>added = [str ''C=4''], removed = [str ''A=1''],
      changed = [\<lparr>key = str ''B'', local = str ''2'', remote = str ''3''\<rparr>]\<rparr>"
proof -
  have "diff_vars (parseEnvContent localContent) (parseEnvContent remoteContent) =
     \<lparr>added = map (\<lambda>(k, v). k @ str ''='' @ v)
                (filter (\<lambda>(k, v). \<not> Map_has (parseEnvContent localContent) k)
                   (parseEnvContent remoteContent)),
      removed = map (\<lambda>(k, v). k @ str ''='' @ v)
                  (filter (\<lambda>(k, v). \<not> Map_has (parseEnvContent remoteContent) k)
                     (parseEnvContent localContent)),
      changed = map (\<lambda>(k, v). \<lparr>key = k, local = the (Map_get (parseEnvContent localContent) k),
                                remote = v\<rparr>)
                  (filter (\<lambda>(k, v). Map_has (parseEnvContent localContent) k \<and>
                                     Map_get (parseEnvContent localContent) k \<noteq> Some v)
                     (parseEnvContent remoteContent))\<rparr>"
    using distinct_parseEnvContent by (rule diff_vars_lists)
  then have "let localVars = parseEnvContent localContent;
        remoteVars = parseEnvContent remoteContent;
        d = diff_vars localVars remoteVars
    in added d = map (\<lambda>(k, v). k @ str ''='' @ v)
                   (filter (\<lambda>(k, v). map_of localVars k = None) remoteVars) \<and>
       removed d = map (\<lambda>(k, v). k @ str ''='' @ v)
                     (filter (\<lambda>(k, v). map_of remoteVars k = None) localVars) \<and>
       changed d = map (\<lambda>(k, v). \<lparr>key = k, local = the (map_of localVars k), remote = v\<rparr>)
                     (filter (\<lambda>(k, v). map_of localVars k \<noteq> None \<and> map_of localVars k \<noteq> Some v)
                        remoteVars)"
    by (simp add: Let_def Map_has_def Map_get_def)
  then show ?thesis
    using parse_line_spec_entry[of m line] spec_entry_iff[of line k v] map_of_Map_set[of m k v]
      map_of_parseEnvContent[of content] distinct_parseEnvContent[of content] diff_example
    by blast
qed

text \<open>
  C5 on a line with spaces around the key and a second = in the value, and on a
  document that sets one key twice around a comment.
\<close>

theorem parse_and_diff_witness:
  "trim (str '' A = 1=2 '') = str ''A '' @ 0x3D # str '' 1=2'' \<and> 0x3D \<notin> set (str ''A '') \<and>
   \<not> startsWith (trim (str '' A = 1=2 '')) 0x23 \<and>
   spec_entry (str '' A = 1=2 '') = Some (str ''A'', str ''1=2'') \<and>
   map_of (parseEnvContent (str ''A=1\<newline># A=5\<newline>A=2'')) (str ''A'') = Some (str ''2'')"
proof -
  note T = parse_and_diff [of "[]" "str '' A = 1=2 ''" "str ''A''" "str ''1=2''"
      "str ''A=1\<newline># A=5\<newline>A=2''"]
  have h1: "trim (str '' A = 1=2 '') = str ''A '' @ 0x3D # str '' 1=2''"
    and h2: "0x3D \<notin> set (str ''A '')"
    and h3: "\<not> startsWith (trim (str '' A = 1=2 '')) 0x23"
    and h4: "str ''A'' = trim (str ''A '')" "str ''1=2'' = trim (str '' 1=2'')"
    by (simp_all add: str_def trim_def js_whitespace_def startsWith_def)
  have "spec_entry (str '' A = 1=2 '') = Some (str ''A'', str ''1=2'')"
    using T h1 h2 h3 h4 by blast
  moreover have "map_of (rev (spec_entries (str ''A=1\<newline># A=5\<newline>A=2''))) (str ''A'') =
      Some (str ''2'')"
    by (simp add: spec_entries_def spec_entry_def str_def trim_def
        js_whitespace_def startsWith_def)
  moreover have "map_of (parseEnvContent (str ''A=1\<newline># A=5\<newline>A=2'')) =
      map_of (rev (spec_entries (str ''A=1\<newline># A=5\<newline>A=2'')))"
    using T by blast
  ultimately show ?thesis using h1 h2 h3 by simp
qed

section \<open>Properties of the push and pull commands\<close>

lemma posted_to_append: "posted_to (xs @ ys) = posted_to xs @ posted_to ys"
  by (induction xs rule: posted_to.induct) simp_all

lemma shares_ok_append: "shares_ok (xs @ ys) = shares_ok xs + shares_ok ys"
  by (induction xs rule: shares_ok.induct) simp_all

lemma printed_append: "printed (xs @ ys) = printed xs @ printed ys"
  by (induction xs rule: printed.induct) simp_all

lemma written_append: "written (xs @ ys) = written xs @ written ys"
  by (induction xs rule: written.induct) simp_all

lemma uploaded_append: "uploaded (xs @ ys) = uploaded xs @ uploaded ys"
  by (induction xs rule: uploaded.induct) simp_all

lemma version_requests_append:
  "version_requests (xs @ ys) = version_requests xs @ version_requests ys"
  by (induction xs rule: version_requests.induct) simp_all

lemma saved_append: "saved (xs @ ys) = saved xs @ saved ys"
  by (induction xs rule: saved.induct) simp_all

lemma asked_append: "asked (xs @ ys) \<longleftrightarrow> asked xs \<or> asked ys"
  by (auto simp: asked_def)

lemma asked_simps: "\<not> asked []" "asked (ev # evs) \<longleftrightarrow> ev = Prompt \<or> asked evs"
  by (auto simp: asked_def)

lemmas obs_append = posted_to_append shares_ok_append printed_append written_append
  uploaded_append version_requests_append saved_append asked_append

lemma apiClient_state:
  assumes "apiClient f req w = (res, w')"
  shows "trace w' = trace w @ [Api req (\<not> isl res)] \<and> outcome w' = outcome w \<and>
         project_keys w' = project_keys w \<and> identity_keypair w' = identity_keypair w \<and>
         rng w' = rng w \<and> res = fst (f (relay w)) \<and> relay w' = snd (f (relay w))"
  using assms by (auto simp: apiClient_def outcome_def split: prod.splits)

lemma share_try_state:
  assumes "share_try A L pid pkey kp m w = (res, w')"
  shows "\<exists>new. trace w' = trace w @ new \<and> printed new = [] \<and> written new = [] \<and>
           uploaded new = [] \<and> version_requests new = [] \<and> saved new = [] \<and> \<not> asked new \<and>
           (lib_contract L \<longrightarrow> posted_to new = (if shareable L kp m then [userId m] else [])) \<and>
           shares_ok new = (if isl res then 0 else 1) \<and>
           outcome w' = outcome w \<and> project_keys w' = project_keys w \<and>
           identity_keypair w' = identity_keypair w"
proof (cases "decodeBase64 L (member_publicKey m)")
  case None
  then show ?thesis using assms by (auto simp: share_try_def shareable_def asked_def)
next
  case (Some rpk)
  obtain enc e' where enc: "encryptProjectKey L pkey rpk (secretKey kp) (rng w) = (enc, e')"
    by (cases "encryptProjectKey L pkey rpk (secretKey kp) (rng w)")
  show ?thesis
  proof (cases enc)
    case (Inl err)
    have "\<not> (length rpk = 32 \<and> length (secretKey kp) = 32)" if "lib_contract L"
    proof
      assume "length rpk = 32 \<and> length (secretKey kp) = 32"
      then have "\<not> isl (fst (encryptProjectKey L pkey rpk (secretKey kp) (rng w)))"
        using that
        by (simp add: encryptProjectKey_def nacl_box_def nacl_box_before_def nacl_secretbox_def
            randomBytes_def lib_contract_def)
      with enc Inl show False by simp
    qed
    then show ?thesis
      using assms Some enc Inl by (auto simp: share_try_def shareable_def outcome_def asked_def)
  next
    case (Inr encrypted)
    have sz: "length rpk = 32 \<and> length (secretKey kp) = 32"
      using enc Inr
      by (auto simp: encryptProjectKey_def nacl_box_def nacl_box_before_def
          split: if_splits prod.splits sum.splits)
    have call: "apiClient (post_member_key A pid (userId m) encrypted)
             (PostMemberKey pid (userId m) encrypted) (w\<lparr>rng := e'\<rparr>) = (res, w')"
      using assms(1) Some enc Inr by (simp add: share_try_def)
    from apiClient_state[OF call] sz Some show ?thesis
      by (auto simp: shareable_def outcome_def asked_def)
  qed
qed

lemma foldl_share_member:
  assumes "foldl (share_member A L pid pkey kp) (n, w) ms = (n', w')"
  shows "\<exists>new. trace w' = trace w @ new \<and> printed new = [] \<and> written new = [] \<and>
           uploaded new = [] \<and> version_requests new = [] \<and> saved new = [] \<and> \<not> asked new \<and>
           (lib_contract L \<longrightarrow> posted_to new = map userId (filter (shareable L kp) ms)) \<and>
           n' = n + shares_ok new \<and>
           outcome w' = outcome w \<and> project_keys w' = project_keys w \<and>
           identity_keypair w' = identity_keypair w"
  using assms
proof (induction ms arbitrary: n w)
  case Nil
  then show ?case by (simp add: asked_def)
next
  case (Cons m ms)
  obtain res w1 where st: "share_try A L pid pkey kp m w = (res, w1)"
    by (cases "share_try A L pid pkey kp m w")
  from share_try_state[OF st] obtain new1 where
    n1: "trace w1 = trace w @ new1" "printed new1 = []" "written new1 = []" "uploaded new1 = []"
      "version_requests new1 = []" "saved new1 = []" "\<not> asked new1"
      "lib_contract L \<longrightarrow> posted_to new1 = (if shareable L kp m then [userId m] else [])"
      "shares_ok new1 = (if isl res then 0 else 1)"
      "outcome w1 = outcome w" "project_keys w1 = project_keys w"
      "identity_keypair w1 = identity_keypair w"
    by blast
  have step: "share_member A L pid pkey kp (n, w) m = (n + shares_ok new1, w1)"
    using st n1(9) by (cases res) (simp_all add: share_member_def)
  with Cons.prems have "foldl (share_member A L pid pkey kp) (n + shares_ok new1, w1) ms = (n', w')"
    by simp
  from Cons.IH[OF this] obtain new2 where
    n2: "trace w' = trace w1 @ new2" "printed new2 = []" "written new2 = []" "uploaded new2 = []"
      "version_requests new2 = []" "saved new2 = []" "\<not> asked new2"
      "lib_contract L \<longrightarrow> posted_to new2 = map userId (filter (shareable L kp) ms)"
      "n' = n + shares_ok new1 + shares_ok new2"
      "outcome w' = outcome w1" "project_keys w' = project_keys w1"
      "identity_keypair w' = identity_keypair w1"
    by blast
  show ?case
    apply (rule exI[of _ "new1 @ new2"])
    using n1 n2 by (simp add: obs_append)
qed

lemma syncPendingKeys_never_raises: "fst (syncPendingKeys A L pid w) = Inr ()"
  by (simp add: syncPendingKeys_def split: prod.splits sum.splits)

lemma syncPendingKeys_snd: "snd (syncPendingKeys A L pid w) = snd (syncPendingKeys_try A L pid w)"
  by (simp add: syncPendingKeys_def split: prod.splits sum.splits)

lemma syncPendingKeys_state:
  "\<exists>new ok. trace (snd (syncPendingKeys A L pid w)) =
             trace w @ Api (GetPendingKeys pid) ok # new \<and>
           ok = (\<not> isl (fst (get_pending_keys A pid (relay w)))) \<and>
           written new = [] \<and> uploaded new = [] \<and> version_requests new = [] \<and>
           saved new = [] \<and> \<not> asked new \<and>
           printed new = (if shares_ok new > 0 then [InfoShared (shares_ok new)] else []) \<and>
           (\<forall>pending kp pkey. lib_contract L \<longrightarrow>
              fst (get_pending_keys A pid (relay w)) = Inr pending \<longrightarrow>
              identity_keypair w = Some kp \<longrightarrow> project_keys w pid = Some pkey \<longrightarrow>
              posted_to new = map userId (filter (shareable L kp) pending)) \<and>
           outcome (snd (syncPendingKeys A L pid w)) = outcome w"
proof -
  obtain res w1 where call: "apiClient (get_pending_keys A pid) (GetPendingKeys pid) w = (res, w1)"
    by (cases "apiClient (get_pending_keys A pid) (GetPendingKeys pid) w")
  note c = apiClient_state[OF call]
  show ?thesis
  proof (cases res)
    case (Inl err)
    then show ?thesis using call c
      by (auto simp: syncPendingKeys_snd syncPendingKeys_try_def asked_def)
  next
    case (Inr pending)
    show ?thesis
    proof (cases "pending = [] \<or> identity_keypair w1 = None \<or> project_keys w1 pid = None")
      case True
      then have w1: "snd (syncPendingKeys_try A L pid w) = w1"
        using call Inr by (auto simp: syncPendingKeys_try_def split: option.splits)
      have fetched: "fst (get_pending_keys A pid (relay w)) = Inr pending"
        using c Inr by simp
      have posted: "[] = map userId (filter (shareable L kp) pending')"
        if "fst (get_pending_keys A pid (relay w)) = Inr pending'"
          "identity_keypair w = Some kp" "project_keys w pid = Some pkey"
        for pending' kp pkey
      proof -
        have "pending' = pending" using that(1) fetched by simp
        moreover have "pending = []" using True that(2,3) c by auto
        ultimately show ?thesis by simp
      qed
      have "trace (snd (syncPendingKeys A L pid w)) = trace w @ Api (GetPendingKeys pid) True # []"
        using w1 c Inr by (simp add: syncPendingKeys_snd)
      moreover have "outcome (snd (syncPendingKeys A L pid w)) = outcome w"
        using w1 c by (simp add: syncPendingKeys_snd)
      ultimately show ?thesis
        apply (intro exI[of _ "[]"] exI[of _ True])
        using fetched posted by (simp add: asked_def)
    next
      case False
      then obtain kp pkey where k: "identity_keypair w1 = Some kp" "project_keys w1 pid = Some pkey"
        and ne: "pending \<noteq> []" by auto
      obtain n w2 where f: "foldl (share_member A L pid pkey kp) (0, w1) pending = (n, w2)"
        by (cases "foldl (share_member A L pid pkey kp) (0, w1) pending")
      from foldl_share_member[OF f] obtain new where
        n: "trace w2 = trace w1 @ new" "printed new = []" "written new = []" "uploaded new = []"
          "version_requests new = []" "saved new = []" "\<not> asked new"
          "lib_contract L \<longrightarrow> posted_to new = map userId (filter (shareable L kp) pending)"
          "n = 0 + shares_ok new" "outcome w2 = outcome w1"
        by blast
      have res: "snd (syncPendingKeys_try A L pid w) =
                 (if n > 0 then ui (InfoShared n) w2 else w2)"
        using call Inr k ne f by (simp add: syncPendingKeys_try_def)
      have fetched: "fst (get_pending_keys A pid (relay w)) = Inr pending"
        and kw: "identity_keypair w = Some kp" "project_keys w pid = Some pkey"
        and ok: "(\<not> isl res) = (\<not> isl (fst (get_pending_keys A pid (relay w))))"
        and t1: "trace w1 = trace w @ [Api (GetPendingKeys pid) (\<not> isl res)]"
        and o1: "outcome w1 = outcome w"
        using c Inr k by (metis, metis, metis, metis, metis, metis)
      show ?thesis
      proof (cases "n > 0")
        case True
        have "trace (snd (syncPendingKeys A L pid w)) =
              trace w @ Api (GetPendingKeys pid) (\<not> isl res) # (new @ [Print (InfoShared n)])"
          using res True n(1) t1 by (simp add: syncPendingKeys_snd ui_def)
        moreover have "outcome (snd (syncPendingKeys A L pid w)) = outcome w"
          using res True n(10) o1 by (simp add: syncPendingKeys_snd ui_def outcome_def)
        ultimately show ?thesis
          apply (intro exI[of _ "new @ [Print (InfoShared n)]"] exI[of _ "\<not> isl res"])
          using n(2-9) True fetched kw ok by (simp add: obs_append asked_simps)
      next
        case False
        have "trace (snd (syncPendingKeys A L pid w)) =
              trace w @ Api (GetPendingKeys pid) (\<not> isl res) # new"
          using res False n(1) t1 by (simp add: syncPendingKeys_snd)
        moreover have "outcome (snd (syncPendingKeys A L pid w)) = outcome w"
          using res False n(10) o1 by (simp add: syncPendingKeys_snd)
        ultimately show ?thesis
          apply (intro exI[of _ "new"] exI[of _ "\<not> isl res"])
          using n(2-9) False fetched kw ok by simp
      qed
    qed
  qed
qed

lemma conflict_check_force:
  "force options \<Longrightarrow> conflict_check A options config answer w = (True, w)"
  by (simp add: conflict_check_def)

lemma conflict_check_state:
  assumes "\<not> force options" and "conflict_check A options config answer w = (go, w1)"
  shows "\<exists>new. trace w1 = trace w @ new \<and>
           version_requests new = [projectId config] \<and>
           (asked new \<longleftrightarrow> server_ahead A config (relay w)) \<and>
           (printed new = (case fst (get_version A (projectId config) (relay w)) of
               Inl err \<Rightarrow> []
             | Inr v \<Rightarrow> if server_ahead A config (relay w)
                 then WarnServerAhead v (local_version config) #
                        (if confirmed answer then [] else [OutPushCancelled])
                 else [])) \<and>
           (go \<longleftrightarrow> \<not> server_ahead A config (relay w) \<or> confirmed answer) \<and>
           uploaded new = [] \<and> written new = [] \<and> saved new = [] \<and> posted_to new = [] \<and>
           outcome w1 = outcome w \<and> rng w1 = rng w \<and> project_keys w1 = project_keys w \<and>
           identity_keypair w1 = identity_keypair w \<and>
           relay w1 = snd (get_version A (projectId config) (relay w))"
proof -
  obtain res w0 where call:
    "apiClient (get_version A (projectId config)) (GetVersion (projectId config)) w = (res, w0)"
    by (cases "apiClient (get_version A (projectId config)) (GetVersion (projectId config)) w")
  note c = apiClient_state[OF call]
  have t0: "trace w0 = trace w @ [Api (GetVersion (projectId config)) (\<not> isl res)]"
    and o0: "outcome w0 = outcome w" and r0: "rng w0 = rng w"
    and k0: "project_keys w0 = project_keys w" "identity_keypair w0 = identity_keypair w"
    and res: "fst (get_version A (projectId config) (relay w)) = res"
    and rl: "relay w0 = snd (get_version A (projectId config) (relay w))"
    using c by (metis, metis, metis, metis, metis, metis, metis)
  show ?thesis
  proof (cases res)
    case (Inl err)
    then have "go = True" "w1 = w0" using assms call by (simp_all add: conflict_check_def)
    then show ?thesis
      using t0 o0 r0 k0 res rl Inl
      by (intro exI[of _ "[Api (GetVersion (projectId config)) (\<not> isl res)]"])
         (simp add: server_ahead_def asked_def)
  next
    case (Inr v)
    show ?thesis
    proof (cases "v > local_version config \<and> local_version config > 0")
      case False
      then have "go = True" "w1 = w0"
        using assms call Inr by (auto simp: conflict_check_def local_version_def Let_def)
      then show ?thesis
        using t0 o0 r0 k0 res rl Inr False
        by (intro exI[of _ "[Api (GetVersion (projectId config)) (\<not> isl res)]"])
           (auto simp: server_ahead_def asked_def)
    next
      case True
      let ?w3 = "(ui (WarnServerAhead v (local_version config)) w0)
                   \<lparr>trace := trace (ui (WarnServerAhead v (local_version config)) w0) @ [Prompt]\<rparr>"
      have ahead: "server_ahead A config (relay w)"
        using True res Inr by (simp add: server_ahead_def)
      have r: "go = confirmed answer"
          "w1 = (if confirmed answer then ?w3 else ui OutPushCancelled ?w3)"
        using assms call Inr True
        by (auto simp: conflict_check_def local_version_def Let_def confirmed_def
            split: if_splits)
      show ?thesis
        using r t0 o0 r0 k0 res rl Inr ahead
        by (intro exI[of _ "[Api (GetVersion (projectId config)) (\<not> isl res),
               Print (WarnServerAhead v (local_version config)), Prompt] @
               (if confirmed answer then [] else [Print OutPushCancelled])"])
           (auto simp: ui_def asked_def outcome_def)
    qed
  qed
qed

lemma push_upload_state:
  "\<exists>new. trace (push_upload A L options config content pkey w) = trace w @ new \<and>
           version_requests new = [] \<and> \<not> asked new \<and> written new = [] \<and>
           env_shared (push_upload A L options config content pkey w) = env_shared w \<and>
           (case fst (encryptEnv L content pkey (rng w)) of
              Inl err \<Rightarrow> uploaded new = [] \<and> saved new = [] \<and> printed new = [ErrPushFailed err] \<and>
                outcome (push_upload A L options config content pkey w) =
                  (1, env_shared w, gitignored_json w)
            | Inr payload \<Rightarrow> uploaded new = [payload] \<and>
                (case fst (post_env A (projectId config) payload (message options) (relay w)) of
                   Inl err \<Rightarrow> saved new = [] \<and> printed new = [ErrPushFailed err] \<and>
                     outcome (push_upload A L options config content pkey w) =
                       (1, env_shared w, gitignored_json w)
                 | Inr v \<Rightarrow> saved new = [config\<lparr>lastPushedVersion := Some v\<rparr>] \<and>
                     (\<exists>ok. Api (GetPendingKeys (projectId config)) ok \<in> set new) \<and>
                     (\<exists>n. printed new = OkPushed v (countVars content) #
                            (if n > 0 then [InfoShared n] else [])) \<and>
                     outcome (push_upload A L options config content pkey w) =
                       (exitCode w, env_shared w, Some (config\<lparr>lastPushedVersion := Some v\<rparr>))))"
proof -
  obtain enc e' where enc: "encryptEnv L content pkey (rng w) = (enc, e')"
    by (cases "encryptEnv L content pkey (rng w)")
  show ?thesis
  proof (cases enc)
    case (Inl err)
    then show ?thesis
      using enc
      by (intro exI[of _ "[Print (ErrPushFailed err)]"])
         (simp add: push_upload_def fail_def ui_def asked_def outcome_def)
  next
    case (Inr payload)
    let ?w1 = "w\<lparr>rng := e'\<rparr>"
    obtain res w2 where call:
      "apiClient (post_env A (projectId config) payload (message options))
         (PostEnv (projectId config) payload (message options)) ?w1 = (res, w2)"
      by (cases "apiClient (post_env A (projectId config) payload (message options))
         (PostEnv (projectId config) payload (message options)) ?w1")
    note c = apiClient_state[OF call]
    have t2: "trace w2 = trace w @ [Api (PostEnv (projectId config) payload (message options))
                                      (\<not> isl res)]"
      and o2: "outcome w2 = outcome w"
      and res: "fst (post_env A (projectId config) payload (message options) (relay w)) = res"
      using c by (simp, simp add: outcome_def, simp)
    show ?thesis
    proof (cases res)
      case (Inl err)
      then have "push_upload A L options config content pkey w = fail (ErrPushFailed err) w2"
        using enc Inr call by (simp add: push_upload_def)
      then show ?thesis
        using enc Inr t2 o2 res Inl
        by (intro exI[of _ "[Api (PostEnv (projectId config) payload (message options)) False,
              Print (ErrPushFailed err)]"])
           (simp add: fail_def ui_def asked_def outcome_def)
    next
      case v: (Inr v)
      let ?config' = "config\<lparr>lastPushedVersion := Some v\<rparr>"
      let ?w4 = "ui (OkPushed v (countVars content)) (saveProjectConfig ?config' w2)"
      obtain w5 where w5: "syncPendingKeys A L (projectId config) ?w4 = (Inr (), w5)"
        using syncPendingKeys_never_raises[of A L "projectId config" ?w4]
        by (cases "syncPendingKeys A L (projectId config) ?w4") auto
      have res4: "push_upload A L options config content pkey w =
                  snd (syncPendingKeys A L (projectId config) ?w4)"
        using enc Inr call v w5 by (simp add: push_upload_def Let_def)
      from syncPendingKeys_state[of A L "projectId config" ?w4]
      obtain new ok where s:
        "trace (snd (syncPendingKeys A L (projectId config) ?w4)) =
           trace ?w4 @ Api (GetPendingKeys (projectId config)) ok # new"
        "written new = []" "uploaded new = []" "version_requests new = []" "saved new = []"
        "\<not> asked new"
        "printed new = (if shares_ok new > 0 then [InfoShared (shares_ok new)] else [])"
        "outcome (snd (syncPendingKeys A L (projectId config) ?w4)) = outcome ?w4"
        by blast
      have t4: "trace ?w4 = trace w @ [Api (PostEnv (projectId config) payload (message options)) True,
                 SaveConfig ?config', Print (OkPushed v (countVars content))]"
        using t2 v by (simp add: ui_def saveProjectConfig_def)
      have o4: "outcome ?w4 = (exitCode w, env_shared w, Some ?config')"
        using o2 by (simp add: ui_def saveProjectConfig_def outcome_def)
      show ?thesis
        apply (intro exI[of _ "[Api (PostEnv (projectId config) payload (message options)) True,
                 SaveConfig ?config', Print (OkPushed v (countVars content))] @
                 Api (GetPendingKeys (projectId config)) ok # new"])
        using res4 s t4 o4 enc Inr res v
        by (auto simp: obs_append asked_simps outcome_def)
    qed
  qed
qed

lemma server_ahead_iff:
  "server_ahead A config r \<longleftrightarrow>
     (\<exists>v. fst (get_version A (projectId config) r) = Inr v \<and>
          v > local_version config \<and> local_version config > 0)"
  by (auto simp: server_ahead_def split: sum.splits)

lemma push_upload_obs:
  "\<exists>new. trace (push_upload A L options config content pkey w) = trace w @ new \<and>
     version_requests new = [] \<and> \<not> asked new \<and>
     (\<forall>v l. WarnServerAhead v l \<notin> set (printed new)) \<and>
     uploaded new = (case fst (encryptEnv L content pkey (rng w)) of
                       Inl err \<Rightarrow> [] | Inr payload \<Rightarrow> [payload])"
proof -
  from push_upload_state[of A L options config content pkey w] obtain new where
    n: "trace (push_upload A L options config content pkey w) = trace w @ new"
       "version_requests new = []" "\<not> asked new"
       "case fst (encryptEnv L content pkey (rng w)) of
          Inl err \<Rightarrow> uploaded new = [] \<and> saved new = [] \<and> printed new = [ErrPushFailed err] \<and>
            outcome (push_upload A L options config content pkey w) =
              (1, env_shared w, gitignored_json w)
        | Inr payload \<Rightarrow> uploaded new = [payload] \<and>
            (case fst (post_env A (projectId config) payload (message options) (relay w)) of
               Inl err \<Rightarrow> saved new = [] \<and> printed new = [ErrPushFailed err] \<and>
                 outcome (push_upload A L options config content pkey w) =
                   (1, env_shared w, gitignored_json w)
             | Inr v \<Rightarrow> saved new = [config\<lparr>lastPushedVersion := Some v\<rparr>] \<and>
                 (\<exists>ok. Api (GetPendingKeys (projectId config)) ok \<in> set new) \<and>
                 (\<exists>n. printed new = OkPushed v (countVars content) #
                        (if n > 0 then [InfoShared n] else [])) \<and>
                 outcome (push_upload A L options config content pkey w) =
                   (exitCode w, env_shared w, Some (config\<lparr>lastPushedVersion := Some v\<rparr>)))"
    by blast
  have "uploaded new = (case fst (encryptEnv L content pkey (rng w)) of
                       Inl err \<Rightarrow> [] | Inr payload \<Rightarrow> [payload])"
    using n(4) by (cases "fst (encryptEnv L content pkey (rng w))") simp_all
  moreover have "\<forall>v l. WarnServerAhead v l \<notin> set (printed new)"
    using n(4) by (auto split: sum.splits if_splits)
  ultimately show ?thesis using n(1-3) by blast
qed

lemma push_action_state:
  assumes "gitignored_json w = Some config" and "env_shared w = Some content"
    and "project_keys w (projectId config) = Some pkey"
  shows "\<exists>new. trace (push_action A L options answer w) = trace w @ new \<and>
           version_requests new = (if force options then [] else [projectId config]) \<and>
           (asked new \<longleftrightarrow> \<not> force options \<and> server_ahead A config (relay w)) \<and>
           (asked new \<longrightarrow> (\<exists>v. fst (get_version A (projectId config) (relay w)) = Inr v \<and>
                               WarnServerAhead v (local_version config) \<in> set (printed new))) \<and>
           ((\<exists>v l. WarnServerAhead v l \<in> set (printed new)) \<longrightarrow> asked new) \<and>
           (if asked new \<and> \<not> confirmed answer
            then uploaded new = [] \<and> saved new = [] \<and> written new = [] \<and>
                 outcome (push_action A L options answer w) = outcome w
            else uploaded new = (case fst (encryptEnv L content pkey (rng w)) of
                                   Inl err \<Rightarrow> [] | Inr payload \<Rightarrow> [payload]))"
proof (cases "force options")
  case True
  have eq: "push_action A L options answer w = push_upload A L options config content pkey w"
    using assms True by (simp add: push_action_def conflict_check_force)
  from push_upload_obs[of A L options config content pkey w] obtain new where
    n: "trace (push_upload A L options config content pkey w) = trace w @ new"
       "version_requests new = []" "\<not> asked new"
       "uploaded new = (case fst (encryptEnv L content pkey (rng w)) of
                          Inl err \<Rightarrow> [] | Inr payload \<Rightarrow> [payload])"
       "\<forall>v l. WarnServerAhead v l \<notin> set (printed new)"
    by blast
  show ?thesis
    by (rule exI[of _ new]) (use n True eq in simp)
next
  case False
  obtain go w1 where cc: "conflict_check A options config answer w = (go, w1)"
    by (cases "conflict_check A options config answer w")
  from conflict_check_state[OF False cc] obtain new1 where
    n1: "trace w1 = trace w @ new1" "version_requests new1 = [projectId config]"
      "asked new1 \<longleftrightarrow> server_ahead A config (relay w)"
      "printed new1 = (case fst (get_version A (projectId config) (relay w)) of
               Inl err \<Rightarrow> []
             | Inr v \<Rightarrow> if server_ahead A config (relay w)
                 then WarnServerAhead v (local_version config) #
                        (if confirmed answer then [] else [OutPushCancelled])
                 else [])"
      "go \<longleftrightarrow> \<not> server_ahead A config (relay w) \<or> confirmed answer"
      "uploaded new1 = []" "written new1 = []" "saved new1 = []"
      "outcome w1 = outcome w" "rng w1 = rng w"
    by blast
  have nowarn: "asked new1" if "WarnServerAhead v l \<in> set (printed new1)" for v l
    using that n1(3,4) by (auto split: sum.splits if_splits)
  have warn: "\<exists>v. fst (get_version A (projectId config) (relay w)) = Inr v \<and>
                  WarnServerAhead v (local_version config) \<in> set (printed new1)"
    if "asked new1"
  proof -
    from that n1(3) obtain v where "fst (get_version A (projectId config) (relay w)) = Inr v"
      by (auto simp: server_ahead_iff)
    then show ?thesis using n1(4) n1(3) that by simp
  qed
  show ?thesis
  proof (cases go)
    case False
    then have "push_action A L options answer w = w1"
      using assms cc by (simp add: push_action_def)
    then show ?thesis
      using n1 False \<open>\<not> force options\<close> warn nowarn by (intro exI[of _ new1]) auto
  next
    case True
    then have eq: "push_action A L options answer w =
                   push_upload A L options config content pkey w1"
      using assms cc by (simp add: push_action_def)
    from push_upload_obs[of A L options config content pkey w1] obtain new2 where
      n2: "trace (push_upload A L options config content pkey w1) = trace w1 @ new2"
         "version_requests new2 = []" "\<not> asked new2"
         "uploaded new2 = (case fst (encryptEnv L content pkey (rng w1)) of
                            Inl err \<Rightarrow> [] | Inr payload \<Rightarrow> [payload])"
         "\<forall>v l. WarnServerAhead v l \<notin> set (printed new2)"
      by blast
    show ?thesis
      apply (rule exI[of _ "new1 @ new2"])
      using n1 n2 True eq \<open>\<not> force options\<close> warn nowarn
      by (auto simp: obs_append)
  qed
qed

lemma pull_fetch_state:
  "\<exists>new. trace (pull_fetch A L pid w) = trace w @ new \<and> uploaded new = [] \<and> saved new = [] \<and>
     gitignored_json (pull_fetch A L pid w) = gitignored_json w \<and>
     (case project_keys w pid of
        None \<Rightarrow> written new = [] \<and> outcome (pull_fetch A L pid w) = (1, env_shared w, gitignored_json w)
      | Some pkey \<Rightarrow>
          (case fst (get_env A pid (relay w)) of
             Inl err \<Rightarrow> written new = [] \<and>
               outcome (pull_fetch A L pid w) = (1, env_shared w, gitignored_json w)
           | Inr result \<Rightarrow>
               if \<not> truthy (encryptedPayload result)
               then written new = [] \<and>
                 outcome (pull_fetch A L pid w) = (1, env_shared w, gitignored_json w)
               else (case decryptEnv L (the (encryptedPayload result)) pkey of
                       Inl err \<Rightarrow> written new = [] \<and>
                         outcome (pull_fetch A L pid w) = (1, env_shared w, gitignored_json w)
                     | Inr d \<Rightarrow> written new = [d] \<and>
                         (\<exists>ok. Api (GetPendingKeys pid) ok \<in> set new) \<and>
                         outcome (pull_fetch A L pid w) =
                           (exitCode w, Some d, gitignored_json w))))"
proof (cases "project_keys w pid")
  case None
  then show ?thesis
    by (intro exI[of _ "[Print ErrNoProjectKey]"])
       (simp add: pull_fetch_def fail_def ui_def outcome_def)
next
  case (Some pkey)
  obtain res w1 where call: "apiClient (get_env A pid) (GetEnv pid) w = (res, w1)"
    by (cases "apiClient (get_env A pid) (GetEnv pid) w")
  note c = apiClient_state[OF call]
  have t1: "trace w1 = trace w @ [Api (GetEnv pid) (\<not> isl res)]"
    and o1: "exitCode w1 = exitCode w" "env_shared w1 = env_shared w"
            "gitignored_json w1 = gitignored_json w"
    and res: "fst (get_env A pid (relay w)) = res"
    using c by (simp_all add: outcome_def)
  have failed: ?thesis
    if "pull_fetch A L pid w = fail out w1"
      and "case res of Inl err \<Rightarrow> True
           | Inr result \<Rightarrow> \<not> truthy (encryptedPayload result) \<or>
               isl (decryptEnv L (the (encryptedPayload result)) pkey)" for out
    apply (rule exI[of _ "[Api (GetEnv pid) (\<not> isl res), Print out]"])
    using that t1 o1 res Some
    by (auto simp: fail_def ui_def outcome_def split: sum.splits)
  show ?thesis
  proof (cases res)
    case (Inl err)
    then have "pull_fetch A L pid w = fail (ErrPullFailed err) w1"
      using Some call by (simp add: pull_fetch_def)
    then show ?thesis using Inl by (intro failed) simp_all
  next
    case (Inr result)
    show ?thesis
    proof (cases "truthy (encryptedPayload result)")
      case False
      then have "pull_fetch A L pid w = fail ErrNoSnapshot w1"
        using Some call Inr by (simp add: pull_fetch_def)
      then show ?thesis using Inr False by (intro failed) simp_all
    next
      case True
      show ?thesis
      proof (cases "decryptEnv L (the (encryptedPayload result)) pkey")
        case (Inl err)
        then have "pull_fetch A L pid w = fail (ErrPullFailed err) w1"
          using Some call Inr True by (simp add: pull_fetch_def)
        then show ?thesis using Inr Inl by (intro failed) simp_all
      next
        case d: (Inr d)
        let ?w3 = "ui (OkPulled (version result) (countVars d)) (writeEnv d w1)"
        obtain w4 where w4: "syncPendingKeys A L pid ?w3 = (Inr (), w4)"
          using syncPendingKeys_never_raises[of A L pid ?w3]
          by (cases "syncPendingKeys A L pid ?w3") auto
        have eq: "pull_fetch A L pid w = snd (syncPendingKeys A L pid ?w3)"
          using Some call Inr True d w4 by (simp add: pull_fetch_def Let_def)
        from syncPendingKeys_state[of A L pid ?w3] obtain new ok where s:
          "trace (snd (syncPendingKeys A L pid ?w3)) = trace ?w3 @ Api (GetPendingKeys pid) ok # new"
          "written new = []" "uploaded new = []" "saved new = []"
          "outcome (snd (syncPendingKeys A L pid ?w3)) = outcome ?w3"
          by blast
        have t3: "trace ?w3 = trace w @ [Api (GetEnv pid) True, WriteEnv d,
                                        Print (OkPulled (version result) (countVars d))]"
          using t1 Inr by (simp add: ui_def writeEnv_def)
        have o3: "outcome ?w3 = (exitCode w, Some d, gitignored_json w)"
          using o1 by (simp add: ui_def writeEnv_def outcome_def)
        show ?thesis
          apply (rule exI[of _ "[Api (GetEnv pid) True, WriteEnv d,
                   Print (OkPulled (version result) (countVars d))] @
                   Api (GetPendingKeys pid) ok # new"])
          using eq s t3 o3 Some res Inr True d
          by (auto simp: obs_append outcome_def)
      qed
    qed
  qed
qed

lemma world0_version: "fst (get_version spec_relay (str ''p1'') relay0) = Inr 3"
  by (simp add: spec_relay_def relay0_def)






lemma toy_open_sealed_env: "decryptEnv toy_lib sealed_env pk0 = Inr (str ''A=1'')"
  unfolding sealed_env_def
  by (rule decryptEnv_sealed[OF toy_lib_contract _ randomBytes_length])
     (simp_all add: toy_lib_def str_def pk0_def)

lemma sealed_env_truthy: "truthy (Some sealed_env)"
  by (simp add: truthy_def sealed_env_def toy_lib_def randomBytes_def)

lemma world1_get_env:
  "fst (get_env spec_relay (str ''p1'') (relay world1)) =
   Inr \<lparr>encryptedPayload = Some sealed_env, version = 1\<rparr>"
  by (simp add: world1_def world0_def relay0_def spec_relay_def)

lemma world0_get_env:
  "fst (get_env spec_relay (str ''p1'') (relay world0)) =
   Inr \<lparr>encryptedPayload = Some (str ''y''), version = 3\<rparr>"
  by (simp add: world0_def relay0_def spec_relay_def)

lemma toy_garbage: "decryptEnv toy_lib (str ''y'') pk0 = Inl (Library BadNonceSize)"
  by (simp add: decryptEnv_def toy_lib_def str_def nacl_secretbox_open_def pk0_def)

lemma world1_projects:
  "fst (get_projects spec_relay (relay world1)) =
     Inr [\<lparr>project_id = str ''p1'', project_slug = str ''demo''\<rparr>]"
  "snd (get_projects spec_relay (relay world1)) = relay world1"
  by (simp_all add: world1_def world0_def relay0_def spec_relay_def)

lemma slug_examples:
  "truthy (Some (str ''demo''))" "truthy (Some (str ''other''))" "\<not> truthy None"
  "str ''demo'' \<noteq> str ''other''"
  by (simp_all add: truthy_def str_def)

text \<open>
  Claim C3. In a workspace with its configuration, \<^verbatim>\<open>.env.shared\<close> and project key,
  push without \<open>force\<close> requests the relay's version once. It warns and asks for
  confirmation exactly when the request succeeds with a version above the recorded
  \<open>lastPushedVersion\<close> and that is above 0; a failed request leads to no question. When
  the user declines, nothing is uploaded and no file is written: the exit code,
  \<^verbatim>\<open>.env.shared\<close> and \<^verbatim>\<open>.gitignored.json\<close> with its \<open>lastPushedVersion\<close> are as before. In
  every other case, and always with \<open>force\<close>, which requests no version and asks
  nothing, the push goes on to upload the ciphertext of \<open>encryptEnv\<close>.
\<close>

theorem push_conflict_gate:
  assumes "gitignored_json w = Some config" and "env_shared w = Some content"
    and "project_keys w (projectId config) = Some pkey"
  shows "\<exists>new. trace (push_action A L options answer w) = trace w @ new \<and>
           version_requests new = (if force options then [] else [projectId config]) \<and>
           (asked new \<longleftrightarrow>
              \<not> force options \<and>
              (\<exists>v. fst (get_version A (projectId config) (relay w)) = Inr v \<and>
                   v > local_version config \<and> local_version config > 0)) \<and>
           (asked new \<longrightarrow>
              (\<exists>v. fst (get_version A (projectId config) (relay w)) = Inr v \<and>
                   WarnServerAhead v (local_version config) \<in> set (printed new))) \<and>
           ((\<exists>v l. WarnServerAhead v l \<in> set (printed new)) \<longrightarrow> asked new) \<and>
           (if asked new \<and> \<not> confirmed answer
            then uploaded new = [] \<and> saved new = [] \<and> written new = [] \<and>
                 outcome (push_action A L options answer w) = outcome w
            else uploaded new = (case fst (encryptEnv L content pkey (rng w)) of
                                   Inl err \<Rightarrow> [] | Inr payload \<Rightarrow> [payload]))"
  using push_action_state[OF assms, of A L options answer]
  unfolding server_ahead_iff by blast

text \<open>
  The example of the specification: the workspace pushed version 1 last, the
  relay is at version 3. Without \<open>force\<close> push asks, and declining uploads nothing;
  with \<open>force\<close> it neither requests the version nor asks.
\<close>

theorem push_conflict_gate_witness:
  "gitignored_json world0 = Some config0 \<and> env_shared world0 = Some (str ''B=2'') \<and>
   project_keys world0 (projectId config0) = Some pk0 \<and>
   fst (get_version spec_relay (projectId config0) (relay world0)) = Inr 3 \<and>
   local_version config0 = 1 \<and> \<not> confirmed (str ''n'') \<and>
   asked (trace (push_action spec_relay toy_lib \<lparr>message = None, force = False\<rparr> (str ''n'') world0)) \<and>
   uploaded (trace (push_action spec_relay toy_lib \<lparr>message = None, force = False\<rparr> (str ''n'') world0))
     = [] \<and>
   outcome (push_action spec_relay toy_lib \<lparr>message = None, force = False\<rparr> (str ''n'') world0)
     = outcome world0 \<and>
   \<not> asked (trace (push_action spec_relay toy_lib \<lparr>message = None, force = True\<rparr> (str ''n'') world0)) \<and>
   version_requests
     (trace (push_action spec_relay toy_lib \<lparr>message = None, force = True\<rparr> (str ''n'') world0)) = []"
proof -
  have h: "gitignored_json world0 = Some config0" "env_shared world0 = Some (str ''B=2'')"
    "project_keys world0 (projectId config0) = Some pk0"
    by (simp_all add: world0_def config0_def)
  have v: "fst (get_version spec_relay (projectId config0) (relay world0)) = Inr 3"
    "local_version config0 = 1" "\<not> confirmed (str ''n'')" "trace world0 = []"
    using world0_version by (simp_all add: world0_def config0_def local_version_def confirmed_def str_def)
  note T1 = push_conflict_gate [OF h, of spec_relay toy_lib "\<lparr>message = None, force = False\<rparr>" "str ''n''"]
  note T2 = push_conflict_gate [OF h, of spec_relay toy_lib "\<lparr>message = None, force = True\<rparr>" "str ''n''"]
  from T1 v have "asked (trace (push_action spec_relay toy_lib \<lparr>message = None, force = False\<rparr> (str ''n'') world0)) \<and>
   uploaded (trace (push_action spec_relay toy_lib \<lparr>message = None, force = False\<rparr> (str ''n'') world0))
     = [] \<and>
   outcome (push_action spec_relay toy_lib \<lparr>message = None, force = False\<rparr> (str ''n'') world0)
     = outcome world0"
    by auto
  moreover from T2 v have "\<not> asked (trace (push_action spec_relay toy_lib \<lparr>message = None, force = True\<rparr> (str ''n'') world0)) \<and>
   version_requests
     (trace (push_action spec_relay toy_lib \<lparr>message = None, force = True\<rparr> (str ''n'') world0)) = []"
    by auto
  ultimately show ?thesis using h v by blast
qed



text \<open>
  Claim C10. For every invocation, a pull writes \<^verbatim>\<open>.env.shared\<close> at most once, and what
  it writes is determined as follows. The project is the one of \<^verbatim>\<open>.gitignored.json\<close>,
  or with \<^verbatim>\<open>--project\<close> the first one that the relay lists under that slug. The pull
  writes the text that \<open>decryptEnv\<close> returns, under the key of that project, for the
  payload that the relay answers for that project, when that payload is not empty
  and the decryption succeeds. It writes nothing without a configuration, when
  the list of projects cannot be fetched or has no project of that slug, without
  a project key, on a failed request, on an empty payload and on a failed
  decryption. After a write the file holds the written text; when nothing is
  written the file is as before.
\<close>

theorem pull_writes_once:
  "\<exists>new. trace (pull_action A L options w) = trace w @ new \<and>
     length (written new) \<le> 1 \<and>
     env_shared (pull_action A L options w) =
       (if written new = [] then env_shared w else Some (last (written new))) \<and>
     written new =
       (let slug = project options;
            listed = get_projects A (relay w);
            target = (if truthy slug
                      then (case fst listed of
                              Inl err \<Rightarrow> None
                            | Inr ps \<Rightarrow>
                                map_option project_id
                                  (find (\<lambda>p. project_slug p = the slug) ps))
                      else map_option projectId (gitignored_json w));
            r = (if truthy slug then snd listed else relay w)
        in case target of
             None \<Rightarrow> []
           | Some pid \<Rightarrow>
               (case project_keys w pid of
                  None \<Rightarrow> []
                | Some pkey \<Rightarrow>
                    (case fst (get_env A pid r) of
                       Inl err \<Rightarrow> []
                     | Inr result \<Rightarrow>
                         if \<not> truthy (encryptedPayload result) then []
                         else (case decryptEnv L (the (encryptedPayload result)) pkey of
                                 Inl err \<Rightarrow> []
                               | Inr d \<Rightarrow> [d]))))"
proof -
  have fetch: "\<exists>new. trace (pull_fetch A L pid w1) = trace w1 @ new \<and>
     length (written new) \<le> 1 \<and>
     env_shared (pull_fetch A L pid w1) =
       (if written new = [] then env_shared w1 else Some (last (written new))) \<and>
     written new =
       (case project_keys w1 pid of
          None \<Rightarrow> []
        | Some pkey \<Rightarrow>
            (case fst (get_env A pid (relay w1)) of
               Inl err \<Rightarrow> []
             | Inr result \<Rightarrow>
                 if \<not> truthy (encryptedPayload result) then []
                 else (case decryptEnv L (the (encryptedPayload result)) pkey of
                         Inl err \<Rightarrow> []
                       | Inr d \<Rightarrow> [d])))" for pid w1
  proof -
    from pull_fetch_state[of A L pid w1] obtain new where
      n: "trace (pull_fetch A L pid w1) = trace w1 @ new"
      "case project_keys w1 pid of
        None \<Rightarrow> written new = [] \<and> outcome (pull_fetch A L pid w1) = (1, env_shared w1, gitignored_json w1)
      | Some pkey \<Rightarrow>
          (case fst (get_env A pid (relay w1)) of
             Inl err \<Rightarrow> written new = [] \<and>
               outcome (pull_fetch A L pid w1) = (1, env_shared w1, gitignored_json w1)
           | Inr result \<Rightarrow>
               if \<not> truthy (encryptedPayload result)
               then written new = [] \<and>
                 outcome (pull_fetch A L pid w1) = (1, env_shared w1, gitignored_json w1)
               else (case decryptEnv L (the (encryptedPayload result)) pkey of
                       Inl err \<Rightarrow> written new = [] \<and>
                         outcome (pull_fetch A L pid w1) = (1, env_shared w1, gitignored_json w1)
                     | Inr d \<Rightarrow> written new = [d] \<and>
                         (\<exists>ok. Api (GetPendingKeys pid) ok \<in> set new) \<and>
                         outcome (pull_fetch A L pid w1) =
                           (exitCode w1, Some d, gitignored_json w1)))"
      by blast
    show ?thesis
      apply (rule exI[of _ new])
      using n
      by (auto simp: outcome_def split: option.splits sum.splits if_splits)
  qed
  show ?thesis
  proof (cases "truthy (project options)")
    case False
    show ?thesis
    proof (cases "gitignored_json w")
      case None
      then show ?thesis using False
        by (intro exI[of _ "[Print ErrNoConfig]"]) (simp add: pull_action_def fail_def ui_def)
    next
      case (Some config)
      then have eq: "pull_action A L options w = pull_fetch A L (projectId config) w"
        using False by (simp add: pull_action_def)
      from fetch[of "projectId config" w] obtain new where
        n: "trace (pull_fetch A L (projectId config) w) = trace w @ new"
        "length (written new) \<le> 1"
        "env_shared (pull_fetch A L (projectId config) w) =
           (if written new = [] then env_shared w else Some (last (written new)))"
        "written new =
          (case project_keys w (projectId config) of
             None \<Rightarrow> []
           | Some pkey \<Rightarrow>
               (case fst (get_env A (projectId config) (relay w)) of
                  Inl err \<Rightarrow> []
                | Inr result \<Rightarrow>
                    if \<not> truthy (encryptedPayload result) then []
                    else (case decryptEnv L (the (encryptedPayload result)) pkey of
                            Inl err \<Rightarrow> []
                          | Inr d \<Rightarrow> [d])))"
        by blast
      show ?thesis
        unfolding eq Let_def
        apply (rule exI[of _ new])
        using n Some False by simp
    qed
  next
    case True
    obtain res w1 where call: "apiClient (get_projects A) GetProjects w = (res, w1)"
      by (cases "apiClient (get_projects A) GetProjects w")
    note c = apiClient_state[OF call]
    have t1: "trace w1 = trace w @ [Api GetProjects (\<not> isl res)]"
      and o1: "env_shared w1 = env_shared w" "project_keys w1 = project_keys w"
      and r1: "res = fst (get_projects A (relay w))" "relay w1 = snd (get_projects A (relay w))"
      using c by (simp_all add: outcome_def)
    show ?thesis
    proof (cases "case res of Inl err \<Rightarrow> None
                  | Inr ps \<Rightarrow> find (\<lambda>p. project_slug p = the (project options)) ps")
      case None
      then obtain out where out: "pull_action A L options w = fail out w1"
        using True call by (auto simp: pull_action_def split: sum.splits)
      have target: "(case fst (get_projects A (relay w)) of
                       Inl err \<Rightarrow> None
                     | Inr ps \<Rightarrow>
                         map_option project_id
                           (find (\<lambda>p. project_slug p = the (project options)) ps)) = None"
        using None r1(1) by (auto split: sum.splits)
      show ?thesis
        unfolding Let_def
        apply (rule exI[of _ "[Api GetProjects (\<not> isl res), Print out]"])
        using out t1 o1 True target by (simp add: fail_def ui_def)
    next
      case (Some p)
      then have eq: "pull_action A L options w = pull_fetch A L (project_id p) w1"
        using True call by (auto simp: pull_action_def split: sum.splits)
      have target: "(case fst (get_projects A (relay w)) of
                       Inl err \<Rightarrow> None
                     | Inr ps \<Rightarrow>
                         map_option project_id
                           (find (\<lambda>p. project_slug p = the (project options)) ps)) =
                    Some (project_id p)"
        using Some r1(1) by (auto split: sum.splits)
      from fetch[of "project_id p" w1] obtain new where
        n: "trace (pull_fetch A L (project_id p) w1) = trace w1 @ new"
        "length (written new) \<le> 1"
        "env_shared (pull_fetch A L (project_id p) w1) =
           (if written new = [] then env_shared w1 else Some (last (written new)))"
        "written new =
          (case project_keys w1 (project_id p) of
             None \<Rightarrow> []
           | Some pkey \<Rightarrow>
               (case fst (get_env A (project_id p) (relay w1)) of
                  Inl err \<Rightarrow> []
                | Inr result \<Rightarrow>
                    if \<not> truthy (encryptedPayload result) then []
                    else (case decryptEnv L (the (encryptedPayload result)) pkey of
                            Inl err \<Rightarrow> []
                          | Inr d \<Rightarrow> [d])))"
        by blast
      have wr: "written (Api GetProjects (\<not> isl res) # new) = written new" by simp
      have n': "written new =
          (case project_keys w (project_id p) of
             None \<Rightarrow> []
           | Some pkey \<Rightarrow>
               (case fst (get_env A (project_id p) (snd (get_projects A (relay w)))) of
                  Inl err \<Rightarrow> []
                | Inr result \<Rightarrow>
                    if \<not> truthy (encryptedPayload result) then []
                    else (case decryptEnv L (the (encryptedPayload result)) pkey of
                            Inl err \<Rightarrow> []
                          | Inr d \<Rightarrow> [d])))"
        using n(4) unfolding o1(2) r1(2) .
      show ?thesis
        unfolding eq Let_def
      proof (intro exI[of _ "Api GetProjects (\<not> isl res) # new"] conjI)
        show "trace (pull_fetch A L (project_id p) w1) =
                trace w @ Api GetProjects (\<not> isl res) # new"
          using n(1) t1 by simp
        show "length (written (Api GetProjects (\<not> isl res) # new)) \<le> 1"
          unfolding wr by (rule n(2))
        show "env_shared (pull_fetch A L (project_id p) w1) =
           (if written (Api GetProjects (\<not> isl res) # new) = [] then env_shared w
            else Some (last (written (Api GetProjects (\<not> isl res) # new))))"
          unfolding wr using n(3) o1(1) by simp
        show "written (Api GetProjects (\<not> isl res) # new) =
          (case if truthy (project options)
                then case fst (get_projects A (relay w)) of
                       Inl err \<Rightarrow> None
                     | Inr ps \<Rightarrow>
                         map_option project_id
                           (find (\<lambda>p. project_slug p = the (project options)) ps)
                else map_option projectId (gitignored_json w) of
             None \<Rightarrow> []
           | Some pid \<Rightarrow>
               (case project_keys w pid of
                  None \<Rightarrow> []
                | Some pkey \<Rightarrow>
                    (case fst (get_env A pid
                                 (if truthy (project options) then snd (get_projects A (relay w))
                                  else relay w)) of
                       Inl err \<Rightarrow> []
                     | Inr result \<Rightarrow>
                         if \<not> truthy (encryptedPayload result) then []
                         else (case decryptEnv L (the (encryptedPayload result)) pkey of
                                 Inl err \<Rightarrow> []
                               | Inr d \<Rightarrow> [d]))))"
          unfolding wr if_P[OF True] target option.case by (rule n')
      qed
    qed
  qed
qed

text \<open>
  C10 on a relay whose latest snapshot decrypts to \<^verbatim>\<open>A=1\<close>, from the configuration and
  with \<^verbatim>\<open>--project demo\<close>; on a relay whose latest snapshot is no ciphertext, and
  with a slug that the relay does not list, the file keeps \<^verbatim>\<open>B=2\<close>.
\<close>

theorem pull_writes_once_witness:
  "env_shared world1 = Some (str ''B=2'') \<and> env_shared world0 = Some (str ''B=2'') \<and>
   written (trace (pull_action spec_relay toy_lib \<lparr>token = None, project = None\<rparr> world1)) =
     [str ''A=1''] \<and>
   env_shared (pull_action spec_relay toy_lib \<lparr>token = None, project = None\<rparr> world1) =
     Some (str ''A=1'') \<and>
   written (trace (pull_action spec_relay toy_lib \<lparr>token = None, project = None\<rparr> world0)) = [] \<and>
   env_shared (pull_action spec_relay toy_lib \<lparr>token = None, project = None\<rparr> world0) =
     Some (str ''B=2'') \<and>
   written (trace (pull_action spec_relay toy_lib
              \<lparr>token = None, project = Some (str ''demo'')\<rparr> world1)) = [str ''A=1''] \<and>
   env_shared (pull_action spec_relay toy_lib
              \<lparr>token = None, project = Some (str ''demo'')\<rparr> world1) = Some (str ''A=1'') \<and>
   written (trace (pull_action spec_relay toy_lib
              \<lparr>token = None, project = Some (str ''other'')\<rparr> world1)) = [] \<and>
   env_shared (pull_action spec_relay toy_lib
              \<lparr>token = None, project = Some (str ''other'')\<rparr> world1) = Some (str ''B=2'')"
proof -
  let ?o = "\<lparr>token = None, project = None\<rparr>"
  let ?demo = "\<lparr>token = None, project = Some (str ''demo'')\<rparr>"
  let ?other = "\<lparr>token = None, project = Some (str ''other'')\<rparr>"
  have h: "gitignored_json world1 = Some config0"
    "project_keys world1 (str ''p1'') = Some pk0" "env_shared world1 = Some (str ''B=2'')"
    "trace world1 = []" "projectId config0 = str ''p1''"
    "gitignored_json world0 = Some config0"
    "project_keys world0 (str ''p1'') = Some pk0" "env_shared world0 = Some (str ''B=2'')"
    "trace world0 = []"
    by (simp_all add: world1_def world0_def config0_def)
  have d: "decryptEnv toy_lib (the (Some sealed_env)) pk0 = Inr (str ''A=1'')"
    "decryptEnv toy_lib (the (Some (str ''y''))) pk0 = Inl (Library BadNonceSize)"
    "truthy (Some (str ''y''))"
    using toy_open_sealed_env toy_garbage by (simp_all add: truthy_def str_def)
  from pull_writes_once [of spec_relay toy_lib ?o world1, unfolded Let_def] obtain new1 where
    n1: "trace (pull_action spec_relay toy_lib ?o world1) = trace world1 @ new1"
      "env_shared (pull_action spec_relay toy_lib ?o world1) =
         (if written new1 = [] then env_shared world1 else Some (last (written new1)))"
      and "written new1 =
        (case if truthy (project ?o)
              then case fst (get_projects spec_relay (relay world1)) of
                     Inl err \<Rightarrow> None
                   | Inr ps \<Rightarrow>
                       map_option project_id (find (\<lambda>p. project_slug p = the (project ?o)) ps)
              else map_option projectId (gitignored_json world1) of
           None \<Rightarrow> []
         | Some pid \<Rightarrow>
             (case project_keys world1 pid of
                None \<Rightarrow> []
              | Some pkey \<Rightarrow>
                  (case fst (get_env spec_relay pid
                               (if truthy (project ?o)
                                then snd (get_projects spec_relay (relay world1))
                                else relay world1)) of
                     Inl err \<Rightarrow> []
                   | Inr result \<Rightarrow>
                       if \<not> truthy (encryptedPayload result) then []
                       else (case decryptEnv toy_lib (the (encryptedPayload result)) pkey of
                               Inl err \<Rightarrow> []
                             | Inr d \<Rightarrow> [d]))))"
    by blast
  then have w1: "written new1 = [str ''A=1'']"
    using h slug_examples world1_get_env sealed_env_truthy d by simp
  from pull_writes_once [of spec_relay toy_lib ?o world0, unfolded Let_def] obtain new0 where
    n0: "trace (pull_action spec_relay toy_lib ?o world0) = trace world0 @ new0"
      "env_shared (pull_action spec_relay toy_lib ?o world0) =
         (if written new0 = [] then env_shared world0 else Some (last (written new0)))"
      and "written new0 =
        (case if truthy (project ?o)
              then case fst (get_projects spec_relay (relay world0)) of
                     Inl err \<Rightarrow> None
                   | Inr ps \<Rightarrow>
                       map_option project_id (find (\<lambda>p. project_slug p = the (project ?o)) ps)
              else map_option projectId (gitignored_json world0) of
           None \<Rightarrow> []
         | Some pid \<Rightarrow>
             (case project_keys world0 pid of
                None \<Rightarrow> []
              | Some pkey \<Rightarrow>
                  (case fst (get_env spec_relay pid
                               (if truthy (project ?o)
                                then snd (get_projects spec_relay (relay world0))
                                else relay world0)) of
                     Inl err \<Rightarrow> []
                   | Inr result \<Rightarrow>
                       if \<not> truthy (encryptedPayload result) then []
                       else (case decryptEnv toy_lib (the (encryptedPayload result)) pkey of
                               Inl err \<Rightarrow> []
                             | Inr d \<Rightarrow> [d]))))"
    by blast
  then have w0: "written new0 = []"
    using h slug_examples world0_get_env d by simp
  from pull_writes_once [of spec_relay toy_lib ?demo world1, unfolded Let_def] obtain new2 where
    n2: "trace (pull_action spec_relay toy_lib ?demo world1) = trace world1 @ new2"
      "env_shared (pull_action spec_relay toy_lib ?demo world1) =
         (if written new2 = [] then env_shared world1 else Some (last (written new2)))"
      and "written new2 =
        (case if truthy (project ?demo)
              then case fst (get_projects spec_relay (relay world1)) of
                     Inl err \<Rightarrow> None
                   | Inr ps \<Rightarrow>
                       map_option project_id
                         (find (\<lambda>p. project_slug p = the (project ?demo)) ps)
              else map_option projectId (gitignored_json world1) of
           None \<Rightarrow> []
         | Some pid \<Rightarrow>
             (case project_keys world1 pid of
                None \<Rightarrow> []
              | Some pkey \<Rightarrow>
                  (case fst (get_env spec_relay pid
                               (if truthy (project ?demo)
                                then snd (get_projects spec_relay (relay world1))
                                else relay world1)) of
                     Inl err \<Rightarrow> []
                   | Inr result \<Rightarrow>
                       if \<not> truthy (encryptedPayload result) then []
                       else (case decryptEnv toy_lib (the (encryptedPayload result)) pkey of
                               Inl err \<Rightarrow> []
                             | Inr d \<Rightarrow> [d]))))"
    by blast
  then have w2: "written new2 = [str ''A=1'']"
    using h slug_examples world1_projects world1_get_env sealed_env_truthy d by simp
  from pull_writes_once [of spec_relay toy_lib ?other world1, unfolded Let_def] obtain new3 where
    n3: "trace (pull_action spec_relay toy_lib ?other world1) = trace world1 @ new3"
      "env_shared (pull_action spec_relay toy_lib ?other world1) =
         (if written new3 = [] then env_shared world1 else Some (last (written new3)))"
      and "written new3 =
        (case if truthy (project ?other)
              then case fst (get_projects spec_relay (relay world1)) of
                     Inl err \<Rightarrow> None
                   | Inr ps \<Rightarrow>
                       map_option project_id
                         (find (\<lambda>p. project_slug p = the (project ?other)) ps)
              else map_option projectId (gitignored_json world1) of
           None \<Rightarrow> []
         | Some pid \<Rightarrow>
             (case project_keys world1 pid of
                None \<Rightarrow> []
              | Some pkey \<Rightarrow>
                  (case fst (get_env spec_relay pid
                               (if truthy (project ?other)
                                then snd (get_projects spec_relay (relay world1))
                                else relay world1)) of
                     Inl err \<Rightarrow> []
                   | Inr result \<Rightarrow>
                       if \<not> truthy (encryptedPayload result) then []
                       else (case decryptEnv toy_lib (the (encryptedPayload result)) pkey of
                               Inl err \<Rightarrow> []
                             | Inr d \<Rightarrow> [d]))))"
    by blast
  then have w3: "written new3 = []"
    using h slug_examples world1_projects by simp
  show ?thesis using h n1 w1 n0 w0 n2 w2 n3 w3 by simp
qed

section \<open>Properties of the rollback command\<close>

lemma spec_relay_sel:
  "get_version spec_relay pid r = (Inr (int (length (snapshots r pid))), r)"
  "get_env_at spec_relay pid v r =
     (if 1 \<le> v \<and> v \<le> int (length (snapshots r pid))
      then Inr \<lparr>encryptedPayload = Some (snap_payload (snapshots r pid ! nat (v - 1))),
                version = v\<rparr>
      else Inl (ApiError 404), r)"
  "post_env spec_relay pid payload msg r =
     (Inr (int (length (snapshots r pid)) + 1),
      r\<lparr>snapshots := (snapshots r)
           (pid := snapshots r pid @ [\<lparr>snap_payload = payload, snap_message = msg\<rparr>])\<rparr>)"
  "snapshots (snd (get_pending_keys spec_relay pid r)) = snapshots r"
  "snapshots (snd (post_member_key spec_relay pid uid envelope r)) = snapshots r"
  by (simp_all add: spec_relay_def)

lemma share_try_relay:
  assumes "\<And>pid uid c r. f (snd (post_member_key A pid uid c r)) = f r"
  shows "f (relay (snd (share_try A L pid pkey kp m w))) = f (relay w)"
  using assms
  by (auto simp: share_try_def apiClient_def Let_def split: option.splits prod.splits sum.splits)
     (metis snd_conv)+

lemma share_member_relay:
  assumes "\<And>pid uid c r. f (snd (post_member_key A pid uid c r)) = f r"
  shows "f (relay (snd (share_member A L pid pkey kp (n, w) m))) = f (relay w)"
  using share_try_relay[OF assms, of L pid pkey kp m w]
  by (auto simp: share_member_def split: prod.splits sum.splits)

lemma foldl_share_relay:
  assumes "\<And>pid uid c r. f (snd (post_member_key A pid uid c r)) = f r"
  shows "f (relay (snd (foldl (share_member A L pid pkey kp) (n, w) ms))) = f (relay w)"
proof (induction ms arbitrary: n w)
  case Nil then show ?case by simp
next
  case (Cons m ms)
  obtain n1 w1 where s: "share_member A L pid pkey kp (n, w) m = (n1, w1)"
    by (cases "share_member A L pid pkey kp (n, w) m")
  then have "f (relay w1) = f (relay w)"
    using share_member_relay[OF assms, of L pid pkey kp n w m] by simp
  then show ?case using Cons.IH[of n1 w1] s by simp
qed

lemma syncPendingKeys_relay:
  assumes "\<And>pid uid c r. f (snd (post_member_key A pid uid c r)) = f r"
    and "\<And>pid r. f (snd (get_pending_keys A pid r)) = f r"
  shows "f (relay (snd (syncPendingKeys A L pid w))) = f (relay w)"
proof -
  obtain res w1 where call: "apiClient (get_pending_keys A pid) (GetPendingKeys pid) w = (res, w1)"
    by (cases "apiClient (get_pending_keys A pid) (GetPendingKeys pid) w")
  then have r1: "f (relay w1) = f (relay w)"
    using assms(2)[of pid "relay w"] by (auto simp: apiClient_def split: prod.splits)
  have "f (relay (snd (syncPendingKeys_try A L pid w))) = f (relay w)"
  proof (cases res)
    case (Inl err)
    then show ?thesis using call r1 by (simp add: syncPendingKeys_try_def)
  next
    case (Inr pending)
    show ?thesis
    proof (cases "pending = [] \<or> identity_keypair w1 = None \<or> project_keys w1 pid = None")
      case True
      then show ?thesis using call Inr r1
        by (auto simp: syncPendingKeys_try_def split: option.splits)
    next
      case False
      then obtain kp pkey where k: "identity_keypair w1 = Some kp" "project_keys w1 pid = Some pkey"
        and ne: "pending \<noteq> []" by auto
      obtain n w2 where f: "foldl (share_member A L pid pkey kp) (0, w1) pending = (n, w2)"
        by (cases "foldl (share_member A L pid pkey kp) (0, w1) pending")
      then have "f (relay w2) = f (relay w1)"
        using foldl_share_relay[OF assms(1), of L pid pkey kp 0 w1 pending] by simp
      then show ?thesis using call Inr k ne f r1
        by (simp add: syncPendingKeys_try_def ui_def)
    qed
  qed
  then show ?thesis by (simp add: syncPendingKeys_snd)
qed

lemma syncPendingKeys_snapshots:
  "snapshots (relay (snd (syncPendingKeys spec_relay L pid w))) = snapshots (relay w)"
  by (rule syncPendingKeys_relay) (simp_all add: spec_relay_sel)

lemma decryptEnv_reencrypt:
  assumes "lib_contract L" and "decryptEnv L c k = Inr content"
  shows "length k = 32 \<and> (\<exists>m. decodeUTF8 L content = Some m)"
proof -
  from decryptEnv_Inr[OF assms(2)] obtain m where "length k = 32" "encodeUTF8 L m = Some content"
    by blast
  then show ?thesis using assms(1) contract_utf8 by blast
qed

lemma rollback_action_confirmed:
  assumes "gitignored_json w = Some config" and "project_keys w (projectId config) = Some pkey"
    and "1 \<le> v"
    and "fst (get_env_at A (projectId config) v (relay w)) = Inr old"
    and "truthy (encryptedPayload old)"
    and "decryptEnv L (the (encryptedPayload old)) pkey = Inr content"
    and "confirmed answer"
  shows "\<exists>w3. rollback_action A L (Some v) answer w =
               rollback_upload A L v config content pkey w3 \<and>
          relay w3 = snd (get_env_at A (projectId config) v (relay w)) \<and> rng w3 = rng w \<and>
          outcome w3 = outcome w \<and> (\<exists>new. trace w3 = trace w @ new \<and> uploaded new = [] \<and>
            written new = [] \<and> saved new = [] \<and> version_requests new = [] \<and> asked new)"
proof -
  obtain res w1 where call: "apiClient (get_env_at A (projectId config) v)
      (GetEnvAt (projectId config) v) w = (res, w1)"
    by (cases "apiClient (get_env_at A (projectId config) v) (GetEnvAt (projectId config) v) w")
  note c = apiClient_state[OF call]
  have res: "res = Inr old" using c assms(4) by simp
  have t1: "trace w1 = trace w @ [Api (GetEnvAt (projectId config) v) True]"
    and o1: "outcome w1 = outcome w" and r1: "rng w1 = rng w"
    and rl: "relay w1 = snd (get_env_at A (projectId config) v (relay w))"
    using c res by simp_all
  let ?cur = "case env_shared w1 of None \<Rightarrow> [] | Some c \<Rightarrow> c"
  let ?line = "if ?cur \<noteq> [] then OutChanges v (fst (showDiff ?cur content)) (snd (showDiff ?cur content))
               else WarnNoLocalFile"
  let ?w3 = "(ui ?line w1)\<lparr>trace := trace (ui ?line w1) @ [Prompt]\<rparr>"
  have eq: "rollback_action A L (Some v) answer w = rollback_upload A L v config content pkey ?w3"
  proof (cases "answer = str ''y''")
    case True
    then show ?thesis
      using assms(1-6) call res
      by (simp add: rollback_action_def Let_def if_distrib[of "\<lambda>l. ui l w1"])
  next
    case False
    then have "answer = str ''yes''" using assms(7) by (simp add: confirmed_def)
    then show ?thesis
      using assms(1-6) call res
      by (simp add: rollback_action_def Let_def if_distrib[of "\<lambda>l. ui l w1"])
  qed
  have props: "relay ?w3 = snd (get_env_at A (projectId config) v (relay w))"
    "rng ?w3 = rng w" "outcome ?w3 = outcome w"
    using rl r1 o1 by (simp_all add: ui_def outcome_def)
  have "trace ?w3 = trace w @ [Api (GetEnvAt (projectId config) v) True, Print ?line, Prompt]"
    using t1 by (simp add: ui_def)
  moreover have "uploaded [Api (GetEnvAt (projectId config) v) True, Print ?line, Prompt] = []"
    "written [Api (GetEnvAt (projectId config) v) True, Print ?line, Prompt] = []"
    "saved [Api (GetEnvAt (projectId config) v) True, Print ?line, Prompt] = []"
    "version_requests [Api (GetEnvAt (projectId config) v) True, Print ?line, Prompt] = []"
    "asked [Api (GetEnvAt (projectId config) v) True, Print ?line, Prompt]"
    by (simp_all add: asked_def)
  ultimately have "\<exists>new. trace ?w3 = trace w @ new \<and> uploaded new = [] \<and>
            written new = [] \<and> saved new = [] \<and> version_requests new = [] \<and> asked new"
    by blast
  with eq props show ?thesis by blast
qed

lemma rollback_upload_spec:
  assumes "fst (encryptEnv L content pkey (rng w)) = Inr payload"
  shows "relay (rollback_upload spec_relay L v config content pkey w) =
           (relay w)\<lparr>snapshots := (snapshots (relay w))
              (projectId config := snapshots (relay w) (projectId config) @
                 [\<lparr>snap_payload = payload, snap_message = Some (rollback_message v)\<rparr>])\<rparr> \<and>
         trace (rollback_upload spec_relay L v config content pkey w) =
           trace w @ [Api (PostEnv (projectId config) payload (Some (rollback_message v))) True,
                      WriteEnv content,
                      Print (OkRolledBack v
                        (int (length (snapshots (relay w) (projectId config))) + 1))] \<and>
         env_shared (rollback_upload spec_relay L v config content pkey w) = Some content \<and>
         exitCode (rollback_upload spec_relay L v config content pkey w) = exitCode w \<and>
         gitignored_json (rollback_upload spec_relay L v config content pkey w) = gitignored_json w"
proof -
  obtain e' where enc: "encryptEnv L content pkey (rng w) = (Inr payload, e')"
    using assms by (cases "encryptEnv L content pkey (rng w)") simp
  show ?thesis
    using enc
    by (simp add: rollback_upload_def apiClient_def spec_relay_sel ui_def writeEnv_def)
qed

lemma push_upload_spec:
  assumes "fst (encryptEnv L content pkey (rng w)) = Inr payload"
  shows "snapshots (relay (push_upload spec_relay L options config content pkey w)) =
           (snapshots (relay w))(projectId config := snapshots (relay w) (projectId config) @
              [\<lparr>snap_payload = payload, snap_message = message options\<rparr>]) \<and>
         gitignored_json (push_upload spec_relay L options config content pkey w) =
           Some (config\<lparr>lastPushedVersion :=
                   Some (int (length (snapshots (relay w) (projectId config))) + 1)\<rparr>)"
proof -
  obtain e' where enc: "encryptEnv L content pkey (rng w) = (Inr payload, e')"
    using assms by (cases "encryptEnv L content pkey (rng w)") simp
  let ?v = "int (length (snapshots (relay w) (projectId config))) + 1"
  let ?r2 = "(relay w)\<lparr>snapshots := (snapshots (relay w))
           (projectId config := snapshots (relay w) (projectId config) @
              [\<lparr>snap_payload = payload, snap_message = message options\<rparr>])\<rparr>"
  let ?w2 = "w\<lparr>rng := e', relay := ?r2,
               trace := trace w @ [Api (PostEnv (projectId config) payload (message options)) True]\<rparr>"
  let ?w4 = "ui (OkPushed ?v (countVars content))
               (saveProjectConfig (config\<lparr>lastPushedVersion := Some ?v\<rparr>) ?w2)"
  obtain w5 where w5: "syncPendingKeys spec_relay L (projectId config) ?w4 = (Inr (), w5)"
    using syncPendingKeys_never_raises[of spec_relay L "projectId config" ?w4]
    by (cases "syncPendingKeys spec_relay L (projectId config) ?w4") auto
  have eq: "push_upload spec_relay L options config content pkey w =
        snd (syncPendingKeys spec_relay L (projectId config) ?w4)"
    using enc w5 by (simp add: push_upload_def apiClient_def spec_relay_sel Let_def)
  have "outcome (snd (syncPendingKeys spec_relay L (projectId config) ?w4)) = outcome ?w4"
    using syncPendingKeys_state[of spec_relay L "projectId config" ?w4] by blast
  then have "gitignored_json (snd (syncPendingKeys spec_relay L (projectId config) ?w4)) =
             gitignored_json ?w4"
    by (simp add: outcome_def)
  then show ?thesis
    using eq by (simp add: syncPendingKeys_snapshots ui_def saveProjectConfig_def)
qed

lemma push_action_spec:
  assumes "gitignored_json w = Some config" and "env_shared w = Some content"
    and "project_keys w (projectId config) = Some pkey"
    and "confirmed answer"
    and "fst (encryptEnv L content pkey (rng w)) = Inr payload"
  shows "snapshots (relay (push_action spec_relay L options answer w)) =
           (snapshots (relay w))(projectId config := snapshots (relay w) (projectId config) @
              [\<lparr>snap_payload = payload, snap_message = message options\<rparr>]) \<and>
         gitignored_json (push_action spec_relay L options answer w) =
           Some (config\<lparr>lastPushedVersion :=
                   Some (int (length (snapshots (relay w) (projectId config))) + 1)\<rparr>)"
proof (cases "force options")
  case True
  then have "push_action spec_relay L options answer w =
             push_upload spec_relay L options config content pkey w"
    using assms by (simp add: push_action_def conflict_check_force)
  then show ?thesis using push_upload_spec[OF assms(5)] by simp
next
  case False
  obtain go w1 where cc: "conflict_check spec_relay options config answer w = (go, w1)"
    by (cases "conflict_check spec_relay options config answer w")
  from conflict_check_state[OF False cc] assms(4)
  have go: "go" and r: "rng w1 = rng w"
    and rl: "relay w1 = snd (get_version spec_relay (projectId config) (relay w))"
    by auto
  have rl': "relay w1 = relay w" using rl by (simp add: spec_relay_sel)
  have eq: "push_action spec_relay L options answer w =
        push_upload spec_relay L options config content pkey w1"
    using assms(1-3) cc go by (simp add: push_action_def)
  have e1: "fst (encryptEnv L content pkey (rng w1)) = Inr payload"
    using assms(5) r by simp
  show ?thesis using push_upload_spec[OF e1, of options config] rl' eq
    by simp
qed

lemma world0_first:
  "snap_payload (snapshots (relay world0) (projectId config0) ! nat (1 - 1)) = sealed_env"
  "(1::int) \<le> int (length (snapshots (relay world0) (projectId config0)))"
  "length (snapshots (relay world0) (projectId config0)) = 3"
  by (simp_all add: world0_def relay0_def config0_def)

text \<open>
  Claim C4. On the relay of the specification, a confirmed rollback to a version
  \<open>v\<close> whose snapshot decrypts under the project key appends one snapshot to the
  history of the project. The new head decrypts to the content of version \<open>v\<close>, every
  earlier version, \<open>v\<close> among them, is fetched as before, and \<^verbatim>\<open>.env.shared\<close> holds that
  content. The history of snapshots after the rollback is the one that the push
  command leaves when it pushes that content with the message of the rollback.
  The rollback itself leaves \<^verbatim>\<open>.gitignored.json\<close>, and with it \<^verbatim>\<open>lastPushedVersion\<close>, as it
  was, asks the relay for no head version, and shares no key with a pending member.
\<close>

theorem rollback_uploads_old_content:
  assumes "lib_contract L"
    and "gitignored_json w = Some config" and "project_keys w (projectId config) = Some pkey"
    and "1 \<le> v" and "v \<le> int (length (snapshots (relay w) (projectId config)))"
    and "snap_payload (snapshots (relay w) (projectId config) ! nat (v - 1)) = old_payload"
    and "old_payload \<noteq> []"
    and "decryptEnv L old_payload pkey = Inr content"
    and "confirmed answer"
  shows "(let pid = projectId config;
              before = snapshots (relay w) pid;
              w' = rollback_action spec_relay L (Some v) answer w;
              after = snapshots (relay w') pid;
              pushed = push_action spec_relay L
                         \<lparr>message = Some (rollback_message v), force = f\<rparr> answer
                         (w\<lparr>env_shared := Some content\<rparr>)
          in length after = length before + 1 \<and> take (length before) after = before \<and>
             decryptEnv L (snap_payload (last after)) pkey = Inr content \<and>
             fst (get_env_at spec_relay pid v (relay w')) =
               fst (get_env_at spec_relay pid v (relay w)) \<and>
             fst (get_env spec_relay pid (relay w')) =
               Inr \<lparr>encryptedPayload = Some (snap_payload (last after)),
                    version = int (length before) + 1\<rparr> \<and>
             snapshots (relay w') = snapshots (relay pushed) \<and>
             env_shared w' = Some content \<and>
             gitignored_json w' = gitignored_json w \<and>
             envelopes (relay w') = envelopes (relay w) \<and>
             version_requests (trace w') = version_requests (trace w))"
proof -
  let ?pid = "projectId config"
  let ?before = "snapshots (relay w) ?pid"
  let ?old = "\<lparr>encryptedPayload = Some old_payload, version = v\<rparr>"
  have fetch: "fst (get_env_at spec_relay ?pid v (relay w)) = Inr ?old"
    using assms(4,5,6) by (simp add: spec_relay_sel)
  have tr: "truthy (encryptedPayload ?old)" using assms(7) by (simp add: truthy_def)
  have dec: "decryptEnv L (the (encryptedPayload ?old)) pkey = Inr content"
    using assms(8) by simp
  from rollback_action_confirmed[OF assms(2,3,4) fetch tr dec assms(9)]
  obtain w3 new where w3: "rollback_action spec_relay L (Some v) answer w =
               rollback_upload spec_relay L v config content pkey w3"
     "relay w3 = snd (get_env_at spec_relay ?pid v (relay w))" "rng w3 = rng w"
     "outcome w3 = outcome w" "trace w3 = trace w @ new" "version_requests new = []"
    by blast
  have cfg3: "gitignored_json w3 = gitignored_json w"
    using w3(4) by (simp add: outcome_def)
  have rl3: "relay w3 = relay w" using w3(2) by (simp add: spec_relay_sel)
  from decryptEnv_reencrypt[OF assms(1,8)] obtain m where
    k: "length pkey = 32" and m: "decodeUTF8 L content = Some m" by blast
  let ?n = "fst (randomBytes 24 (rng w))"
  let ?payload = "encodeBase64 L (?n @ secretbox L m ?n pkey)"
  have enc: "fst (encryptEnv L content pkey (rng w)) = Inr ?payload"
    using k m by (rule encryptEnv_result)
  have reopen: "decryptEnv L ?payload pkey = Inr content"
    using assms(1) k randomBytes_length m by (rule decryptEnv_sealed)
  let ?new = "\<lparr>snap_payload = ?payload, snap_message = Some (rollback_message v)\<rparr>"
  have enc3: "fst (encryptEnv L content pkey (rng w3)) = Inr ?payload"
    using enc w3(3) by simp
  note up = rollback_upload_spec[OF enc3, of v config]
  have after: "snapshots (relay (rollback_action spec_relay L (Some v) answer w)) =
                 (snapshots (relay w))(?pid := ?before @ [?new])"
    and local_file: "env_shared (rollback_action spec_relay L (Some v) answer w) = Some content"
    and cfg: "gitignored_json (rollback_action spec_relay L (Some v) answer w) =
                gitignored_json w"
    and env: "envelopes (relay (rollback_action spec_relay L (Some v) answer w)) =
                envelopes (relay w)"
    using up w3(1) rl3 cfg3 by simp_all
  have vr: "version_requests (trace (rollback_action spec_relay L (Some v) answer w)) =
              version_requests (trace w)"
    using up w3(1,5,6) by (simp add: version_requests_append)
  let ?w0 = "w\<lparr>env_shared := Some content\<rparr>"
  have "snapshots (relay (push_action spec_relay L
          \<lparr>message = Some (rollback_message v), force = f\<rparr> answer ?w0)) =
        (snapshots (relay ?w0))(?pid := snapshots (relay ?w0) ?pid @
              [\<lparr>snap_payload = ?payload,
                snap_message = message \<lparr>message = Some (rollback_message v), force = f\<rparr>\<rparr>])"
    by (rule push_action_spec[THEN conjunct1]) (use assms(2,3,9) enc in simp_all)
  then have pushed: "snapshots (relay (push_action spec_relay L
          \<lparr>message = Some (rollback_message v), force = f\<rparr> answer ?w0)) =
        (snapshots (relay w))(?pid := ?before @ [?new])"
    by simp
  have target: "fst (get_env_at spec_relay ?pid v
                   (relay (rollback_action spec_relay L (Some v) answer w))) = Inr ?old"
  proof -
    have "nat (v - 1) < length ?before" using assms(4,5) by linarith
    then show ?thesis using assms(4,5,6) after by (simp add: spec_relay_sel nth_append)
  qed
  have head: "fst (get_env spec_relay ?pid
                   (relay (rollback_action spec_relay L (Some v) answer w))) =
      Inr \<lparr>encryptedPayload = Some ?payload, version = int (length ?before) + 1\<rparr>"
    using after by (cases ?before) (simp_all add: spec_relay_def)
  show ?thesis
    unfolding Let_def
    using after local_file pushed target head fetch reopen cfg env vr by simp
qed

text \<open>
  C4 for the rollback to version 1 of a project with three versions: the relay has
  a fourth version that decrypts to \<^verbatim>\<open>A=1\<close>, as version 1 does, and the configuration
  of the workspace is unchanged.
\<close>

theorem rollback_uploads_old_content_witness:
  "lib_contract toy_lib \<and> gitignored_json world0 = Some config0 \<and>
   project_keys world0 (projectId config0) = Some pk0 \<and>
   snap_payload (snapshots (relay world0) (projectId config0) ! nat (1 - 1)) = sealed_env \<and>
   sealed_env \<noteq> [] \<and> decryptEnv toy_lib sealed_env pk0 = Inr (str ''A=1'') \<and>
   confirmed (str ''y'') \<and>
   length (snapshots (relay (rollback_action spec_relay toy_lib (Some 1) (str ''y'') world0))
             (projectId config0)) = 4 \<and>
   decryptEnv toy_lib
     (snap_payload (last (snapshots
        (relay (rollback_action spec_relay toy_lib (Some 1) (str ''y'') world0))
        (projectId config0)))) pk0 = Inr (str ''A=1'') \<and>
   env_shared (rollback_action spec_relay toy_lib (Some 1) (str ''y'') world0) =
     Some (str ''A=1'') \<and>
   gitignored_json (rollback_action spec_relay toy_lib (Some 1) (str ''y'') world0) =
     Some config0"
proof -
  have h: "lib_contract toy_lib" "gitignored_json world0 = Some config0"
    "project_keys world0 (projectId config0) = Some pk0" "(1::int) \<le> 1"
    using toy_lib_contract by (simp_all add: world0_def config0_def)
  have s: "sealed_env \<noteq> []" using sealed_env_truthy by (simp add: truthy_def)
  have c: "confirmed (str ''y'')" by (simp add: confirmed_def)
  note T = rollback_uploads_old_content [OF h world0_first(2) world0_first(1) s
      toy_open_sealed_env c, unfolded Let_def]
  show ?thesis using h s c toy_open_sealed_env world0_first T by simp
qed

text \<open>
  C4, the difference between the rollback and the push command. In a workspace that
  last pushed version 1 of a project with three versions, the rollback to version 1
  leaves \<^verbatim>\<open>lastPushedVersion\<close> at 1 and never asks for the head version; the push command on
  the same content records version 4 and asks for the head version first.
\<close>

theorem rollback_is_not_push:
  "lastPushedVersion config0 = Some 1 \<and>
   gitignored_json (rollback_action spec_relay toy_lib (Some 1) (str ''y'') world0) =
     Some config0 \<and>
   gitignored_json (push_action spec_relay toy_lib
       \<lparr>message = Some (rollback_message 1), force = False\<rparr> (str ''y'')
       (world0\<lparr>env_shared := Some (str ''A=1'')\<rparr>)) =
     Some (config0\<lparr>lastPushedVersion := Some 4\<rparr>) \<and>
   version_requests
     (trace (rollback_action spec_relay toy_lib (Some 1) (str ''y'') world0)) = [] \<and>
   version_requests (trace (push_action spec_relay toy_lib
       \<lparr>message = Some (rollback_message 1), force = False\<rparr> (str ''y'')
       (world0\<lparr>env_shared := Some (str ''A=1'')\<rparr>))) = [str ''p1'']"
proof -
  let ?old = "\<lparr>encryptedPayload = Some sealed_env, version = 1\<rparr>"
  let ?w0 = "world0\<lparr>env_shared := Some (str ''A=1'')\<rparr>"
  let ?options = "\<lparr>message = Some (rollback_message 1), force = False\<rparr>"
  have h: "gitignored_json world0 = Some config0"
    "project_keys world0 (projectId config0) = Some pk0" "(1::int) \<le> 1"
    "trace world0 = []"
    by (simp_all add: world0_def config0_def)
  have c: "confirmed (str ''y'')" by (simp add: confirmed_def)
  have fetch: "fst (get_env_at spec_relay (projectId config0) 1 (relay world0)) = Inr ?old"
    using world0_first by (simp add: spec_relay_sel)
  have tr: "truthy (encryptedPayload ?old)" using sealed_env_truthy by simp
  have dec: "decryptEnv toy_lib (the (encryptedPayload ?old)) pk0 = Inr (str ''A=1'')"
    using toy_open_sealed_env by simp
  from rollback_action_confirmed[OF h(1,2,3) fetch tr dec c]
  obtain w3 new where w3:
     "rollback_action spec_relay toy_lib (Some 1) (str ''y'') world0 =
        rollback_upload spec_relay toy_lib 1 config0 (str ''A=1'') pk0 w3"
     "rng w3 = rng world0" "outcome w3 = outcome world0" "trace w3 = trace world0 @ new"
     "version_requests new = []"
    by blast
  from decryptEnv_reencrypt[OF toy_lib_contract toy_open_sealed_env] obtain m where
    k: "length pk0 = 32" and m: "decodeUTF8 toy_lib (str ''A=1'') = Some m" by blast
  let ?n = "fst (randomBytes 24 (rng world0))"
  let ?payload = "encodeBase64 toy_lib (?n @ secretbox toy_lib m ?n pk0)"
  have enc: "fst (encryptEnv toy_lib (str ''A=1'') pk0 (rng world0)) = Inr ?payload"
    using k m by (rule encryptEnv_result)
  have enc3: "fst (encryptEnv toy_lib (str ''A=1'') pk0 (rng w3)) = Inr ?payload"
    using enc w3(2) by simp
  note up = rollback_upload_spec[OF enc3, of 1 config0]
  have r1: "gitignored_json (rollback_action spec_relay toy_lib (Some 1) (str ''y'') world0) =
              Some config0"
    using up w3(1,3) h(1) by (simp add: outcome_def)
  have r2: "version_requests
              (trace (rollback_action spec_relay toy_lib (Some 1) (str ''y'') world0)) = []"
    using up w3(1,4,5) h(4) by (simp add: version_requests_append)
  have g: "gitignored_json ?w0 = Some config0" "env_shared ?w0 = Some (str ''A=1'')"
    "project_keys ?w0 (projectId config0) = Some pk0" "trace ?w0 = []"
    "length (snapshots (relay ?w0) (projectId config0)) = 3"
    using h world0_first(3) by simp_all
  have enc0: "fst (encryptEnv toy_lib (str ''A=1'') pk0 (rng ?w0)) = Inr ?payload"
    using enc by simp
  have p1: "gitignored_json (push_action spec_relay toy_lib ?options (str ''y'') ?w0) =
              Some (config0\<lparr>lastPushedVersion := Some 4\<rparr>)"
    using push_action_spec[OF g(1,2,3) c enc0, of ?options] g(5) by simp
  from push_action_state[OF g(1,2,3), of spec_relay toy_lib ?options "str ''y''"]
  obtain new' where
    "trace (push_action spec_relay toy_lib ?options (str ''y'') ?w0) = trace ?w0 @ new'"
    "version_requests new' = (if force ?options then [] else [projectId config0])"
    by blast
  then have p2: "version_requests
          (trace (push_action spec_relay toy_lib ?options (str ''y'') ?w0)) = [str ''p1'']"
    using g(4) by (simp add: config0_def)
  have l: "lastPushedVersion config0 = Some 1" by (simp add: config0_def)
  show ?thesis using l r1 p1 r2 p2 by simp
qed

section \<open>Properties of watch mode\<close>

lemma toy_encrypt_pair:
  "encryptEnv toy_lib (str ''A=1'') pk0 (count_from 1) =
   (Inr sealed_env, snd (randomBytes 24 (count_from 1)))"
  using toy_sealed_env encryptEnv_entropy[of toy_lib "str ''A=1''" pk0 "count_from 1"]
  by (metis prod.collapse)

lemma toy_encrypt_pair':
  "encryptEnv toy_lib (str ''A=1'') pk0 (count_from (Suc 0)) =
   (Inr sealed_env, snd (randomBytes 24 (count_from 1)))"
  using toy_encrypt_pair by simp

lemmas watch_defs = step_def poll_tick_def poll_version_def poll_pull_def change_event_def
  change_debounced_def change_answer_def change_posted_def suspend_def resume_def await_def
  send_def note_line_def startWatcher_def waiting_def

lemma session0_eq:
  "session0 = \<lparr>localVersion = 1, isPushing = False, isPrompting = False, watcher = Some 0,
       watchers_made = 1, in_flight = [], handlers_started = 0, mirror = Some (str ''A=1''),
       entropy_left = count_from 1, requested = [],
       journal = [WriteEnv (str ''A=1''), Print (OkPulled 1 (countVars (str ''A=1''))),
                  Print OutWatching]\<rparr>"
  using sealed_env_truthy
  by (simp add: session0_def start_session_def toy_open_sealed_env note_line_def startWatcher_def)

lemma at_prompt_eq:
  "at_prompt = \<lparr>localVersion = 1, isPushing = False, isPrompting = True, watcher = Some 0,
       watchers_made = 1, in_flight = [(1, ChangePrompt), (0, PollPull)], handlers_started = 2,
       mirror = Some (str ''MINE=1''),
       entropy_left = count_from 1,
       requested = [GetVersion (str ''p1''), GetEnv (str ''p1'')],
       journal = [WriteEnv (str ''A=1''), Print (OkPulled 1 (countVars (str ''A=1''))),
                  Print OutWatching, Prompt, Print (InfoNewVersion 2)]\<rparr>"
  by (simp add: at_prompt_def run_def interleaving_def session0_eq watch_defs config0_def)

lemma overwritten_eq:
  "overwritten = \<lparr>localVersion = 2, isPushing = False, isPrompting = True, watcher = Some 1,
       watchers_made = 2, in_flight = [(1, ChangePrompt)], handlers_started = 2,
       mirror = Some (str ''A=1''),
       entropy_left = count_from 1,
       requested = [GetVersion (str ''p1''), GetEnv (str ''p1'')],
       journal = [WriteEnv (str ''A=1''), Print (OkPulled 1 (countVars (str ''A=1''))),
                  Print OutWatching, Prompt, Print (InfoNewVersion 2),
                  WriteEnv (str ''A=1''), Print (OkAutoPulled 2 (countVars (str ''A=1'')))]\<rparr>"
  using sealed_env_truthy
  by (simp add: overwritten_def at_prompt_eq interleaving_def watch_defs toy_open_sealed_env)

lemma finished_eq:
  "finished = \<lparr>localVersion = 3, isPushing = False, isPrompting = False, watcher = Some 1,
       watchers_made = 2, in_flight = [], handlers_started = 2,
       mirror = Some (str ''A=1''),
       entropy_left = snd (randomBytes 24 (count_from 1)),
       requested = [GetVersion (str ''p1''), GetEnv (str ''p1''),
                    PostEnv (str ''p1'') sealed_env None],
       journal = [WriteEnv (str ''A=1''), Print (OkPulled 1 (countVars (str ''A=1''))),
                  Print OutWatching, Prompt, Print (InfoNewVersion 2),
                  WriteEnv (str ''A=1''), Print (OkAutoPulled 2 (countVars (str ''A=1''))),
                  Print (OkPushed 3 (countVars (str ''A=1'')))]\<rparr>"
proof -
  have "finished = run toy_lib config0 pk0 overwritten (drop 6 interleaving)"
    by (simp add: finished_def overwritten_def at_prompt_def run_def interleaving_def)
  then show ?thesis
    by (simp add: overwritten_eq run_def interleaving_def watch_defs toy_encrypt_pair' config0_def)
qed

lemma watch_guards:
  assumes "isPushing s \<or> isPrompting s"
  shows "step L config projectKey s Tick = s" and "step L config projectKey s (FileChange n) = s"
  using assms by (auto simp: step_def poll_tick_def change_event_def)

lemma poll_resumes_unguarded:
  assumes "waiting s h = Some PollPull"
    and "truthy (encryptedPayload r)"
    and "decryptEnv L (the (encryptedPayload r)) projectKey = Inr decrypted"
  shows "mirror (step L config projectKey s (PullResult h (Inr r))) = Some decrypted"
  using assms
  by (simp add: step_def poll_pull_def resume_def note_line_def startWatcher_def Let_def)

text \<open>
  Claim C9 fails on the code. In the session \<open>interleaving\<close> the tick finds both flags
  clear and sends its version request. While the question of the change handler
  is open, \<open>isPrompting\<close> being set, a further tick is ignored, but the poll already
  under way is resumed by its results without looking at the flags again: it
  overwrites \<^verbatim>\<open>.env.shared\<close>, which held the user's \<^verbatim>\<open>MINE=1\<close>, with the remote \<^verbatim>\<open>A=1\<close>.
  The push that the user then confirms reads the file after that and uploads the
  remote document; the edit is lost and the session ends at version 3 with the
  remote content in the file.
\<close>

theorem watch_poll_overwrites_during_prompt:
  "isPrompting at_prompt \<and> mirror at_prompt = Some (str ''MINE=1'') \<and>
   waiting at_prompt 1 = Some ChangePrompt \<and> waiting at_prompt 0 = Some PollPull \<and>
   step toy_lib config0 pk0 at_prompt Tick = at_prompt \<and>
   isPrompting overwritten \<and> mirror overwritten = Some (str ''A=1'') \<and>
   written (journal overwritten) = [str ''A=1'', str ''A=1''] \<and>
   localVersion overwritten = 2 \<and>
   requested finished =
     [GetVersion (str ''p1''), GetEnv (str ''p1''), PostEnv (str ''p1'') sealed_env None] \<and>
   decryptEnv toy_lib sealed_env pk0 = Inr (str ''A=1'') \<and>
   mirror finished = Some (str ''A=1'') \<and> localVersion finished = 3"
proof -
  have "step toy_lib config0 pk0 at_prompt Tick = at_prompt"
    by (rule watch_guards) (simp add: at_prompt_eq)
  then show ?thesis
    by (simp add: at_prompt_eq overwritten_eq finished_eq waiting_def toy_open_sealed_env)
qed

end
